theory Spec2Isabelle
  imports Main "HOL-Library.Log_Nat"
begin

section \<open>JavaScript numbers\<close>

text \<open>
  Every number of \<^verbatim>\<open>server.mjs\<close> is an IEEE-754 binary64 value. A finite one is held
  as the rational it denotes; the two infinities and NaN are constructors of their own.
  The sign of zero is not tracked: the program never divides by a computed zero and
  \<^verbatim>\<open>res.json\<close> prints \<^verbatim>\<open>-0\<close> as \<^verbatim>\<open>0\<close>.
\<close>

datatype number = NaN | NInf | Fin rat | PInf

text \<open>\<open>floor_log2 x\<close> is the binary exponent \<open>e\<close> of a positive \<open>x\<close>: \<open>2^e \<le> x < 2^(e+1)\<close>.\<close>

definition floor_log2 :: "rat \<Rightarrow> int" where
  "floor_log2 x =
     (let d = bitlen (fst (quotient_of x)) - bitlen (snd (quotient_of x))
      in if 2 powi d \<le> x then d else d - 1)"

text \<open>Round to the nearest integer, a tie going to the even one.\<close>

definition round_even :: "rat \<Rightarrow> int" where
  "round_even r =
     (let f = \<lfloor>r\<rfloor>; d = r - of_int f
      in if d < 1 / 2 then f else if 1 / 2 < d then f + 1
         else if even f then f else f + 1)"

text \<open>
  The exponent of the last place of a binary64 value near \<open>x\<close>: 53 significant bits, and
  no finer than \<open>2^-1074\<close> (the subnormal range).
\<close>

definition ulp_exp :: "rat \<Rightarrow> int" where
  "ulp_exp x = max (floor_log2 \<bar>x\<bar> - 52) (- 1074)"

definition round_double :: "rat \<Rightarrow> rat" where
  "round_double x =
     (if x = 0 then 0
      else of_int (round_even (x / 2 powi ulp_exp x)) * 2 powi ulp_exp x)"

text \<open>The binary64 value of a real result: round to nearest even, overflow to an infinity.\<close>

definition fl :: "rat \<Rightarrow> number" where
  "fl x =
     (let r = round_double x
      in if 2 powi 1024 \<le> r then PInf
         else if r \<le> - (2 powi 1024) then NInf
         else Fin r)"

text \<open>
  A decimal literal of the source text: \<open>lit m k\<close> is the literal with the digits \<open>m\<close>, the
  last \<open>k\<close> of them after the point, so \<^verbatim>\<open>38.42\<close> is \<open>lit 3842 2\<close> and \<^verbatim>\<open>3600\<close> is
  \<open>lit 3600 0\<close>.
\<close>

definition lit :: "int \<Rightarrow> int \<Rightarrow> number" where
  "lit m k = fl (of_int m / 10 ^ nat k)"

text \<open>A counter of the program (a small whole number) as a number.\<close>

definition num_of_nat :: "nat \<Rightarrow> number" where
  "num_of_nat n = fl (of_nat n)"

fun num_neg :: "number \<Rightarrow> number" where
  "num_neg NaN = NaN"
| "num_neg NInf = PInf"
| "num_neg PInf = NInf"
| "num_neg (Fin a) = Fin (- a)"

fun num_add :: "number \<Rightarrow> number \<Rightarrow> number" where
  "num_add (Fin a) (Fin b) = fl (a + b)"
| "num_add NaN y = NaN"
| "num_add x NaN = NaN"
| "num_add PInf NInf = NaN"
| "num_add NInf PInf = NaN"
| "num_add PInf y = PInf"
| "num_add NInf y = NInf"
| "num_add (Fin a) y = y"

definition num_sub :: "number \<Rightarrow> number \<Rightarrow> number" where
  "num_sub x y = num_add x (num_neg y)"

definition signed_inf :: "rat \<Rightarrow> number" where
  "signed_inf s = (if s = 0 then NaN else if 0 < s then PInf else NInf)"

fun num_sgn :: "number \<Rightarrow> rat" where
  "num_sgn (Fin a) = sgn a"
| "num_sgn PInf = 1"
| "num_sgn NInf = - 1"
| "num_sgn NaN = 0"

fun num_mul :: "number \<Rightarrow> number \<Rightarrow> number" where
  "num_mul (Fin a) (Fin b) = fl (a * b)"
| "num_mul NaN y = NaN"
| "num_mul x NaN = NaN"
| "num_mul x y = signed_inf (num_sgn x * num_sgn y)"

fun num_div :: "number \<Rightarrow> number \<Rightarrow> number" where
  "num_div (Fin a) (Fin b) = (if b = 0 then signed_inf (sgn a) else fl (a / b))"
| "num_div NaN y = NaN"
| "num_div x NaN = NaN"
| "num_div (Fin a) y = Fin 0"
| "num_div x (Fin b) = signed_inf (num_sgn x * (if b < 0 then - 1 else 1))"
| "num_div x y = NaN"

text \<open>The comparison \<^verbatim>\<open><\<close>: false as soon as one side is NaN.\<close>

fun num_lt :: "number \<Rightarrow> number \<Rightarrow> bool" where
  "num_lt (Fin a) (Fin b) = (a < b)"
| "num_lt NaN y = False"
| "num_lt x NaN = False"
| "num_lt NInf y = (y \<noteq> NInf)"
| "num_lt x PInf = (x \<noteq> PInf)"
| "num_lt x y = False"

fun Math_floor :: "number \<Rightarrow> number" where
  "Math_floor (Fin a) = Fin (of_int \<lfloor>a\<rfloor>)"
| "Math_floor x = x"

text \<open>\<^verbatim>\<open>x || 0\<close> on a number: 0 and NaN are falsy.\<close>

definition or_zero :: "number \<Rightarrow> number" where
  "or_zero x = (if x = NaN \<or> x = Fin 0 then Fin 0 else x)"

text \<open>The comparison \<^verbatim>\<open><=\<close>.\<close>

fun num_le :: "number \<Rightarrow> number \<Rightarrow> bool" where
  "num_le (Fin a) (Fin b) = (a \<le> b)"
| "num_le NaN y = False"
| "num_le x NaN = False"
| "num_le NInf y = True"
| "num_le x PInf = True"
| "num_le x y = False"

text \<open>
  The integer nearest to \<open>y\<close>, a tie going away from zero: \<^verbatim>\<open>toFixed\<close> takes the sign
  off, picks the integer \<open>n\<close> nearest to the magnitude (the larger of two) and puts
  the sign back.
\<close>

definition round_half_away :: "rat \<Rightarrow> int" where
  "round_half_away y = (if y < 0 then - \<lfloor>- y + 1 / 2\<rfloor> else \<lfloor>y + 1 / 2\<rfloor>)"

text \<open>
  \<^verbatim>\<open>x.toFixed(2)\<close> writes a text, \<^verbatim>\<open>parseFloat\<close> reads it back. Below \<open>10^21\<close> the text
  is the decimal \<open>n / 100\<close>, for the integer \<open>n\<close> nearest to \<open>100 * x\<close>; \<open>Hundredths\<close>
  holds that \<open>n\<close>. From \<open>10^21\<close> on, and for NaN and the infinities, the text is the
  one \<^verbatim>\<open>String(x)\<close> gives, which reads back as \<open>x\<close>; \<open>Verbatim\<close> holds that number.
\<close>

datatype numeric_text = Hundredths int | Verbatim number

fun toFixed2 :: "number \<Rightarrow> numeric_text" where
  "toFixed2 (Fin x) =
     (if 10 ^ 21 \<le> \<bar>x\<bar> then Verbatim (Fin x) else Hundredths (round_half_away (x * 100)))"
| "toFixed2 x = Verbatim x"

fun parseFloat_text :: "numeric_text \<Rightarrow> number" where
  "parseFloat_text (Hundredths n) = fl (of_int n / 100)"
| "parseFloat_text (Verbatim x) = x"

text \<open>
  \<open>x\<close> is a number written with two decimals, \<open>n / 100\<close>, for an integer \<open>n\<close> from \<open>lo\<close>
  to \<open>hi\<close>.
\<close>

definition two_decimals_in :: "int \<Rightarrow> int \<Rightarrow> number \<Rightarrow> bool" where
  "two_decimals_in lo hi x = (\<exists>n\<in>{lo..hi}. x = fl (of_int n / 100))"

section \<open>Strings and JSON values\<close>

text \<open>
  A string is its UTF-8 text. The names and keywords of this program are ASCII and Thai
  text; Thai has no letter case, so \<^verbatim>\<open>toLowerCase\<close> changes the letters A to Z only
  (cased letters of other scripts are outside the inputs modelled here).
\<close>

definition lower_char :: "char \<Rightarrow> char" where
  "lower_char c =
     (let n = (of_char c :: nat) in if 65 \<le> n \<and> n \<le> 90 then char_of (n + 32) else c)"

definition toLowerCase :: "string \<Rightarrow> string" where
  "toLowerCase s = map lower_char s"

fun starts_with :: "string \<Rightarrow> string \<Rightarrow> bool" where
  "starts_with s [] = True"
| "starts_with [] (k # ks) = False"
| "starts_with (c # s) (k # ks) = (c = k \<and> starts_with s ks)"

text \<open>\<^verbatim>\<open>s.includes(k)\<close>: \<open>k\<close> occurs in \<open>s\<close> as a substring.\<close>

fun includes_str :: "string \<Rightarrow> string \<Rightarrow> bool" where
  "includes_str [] k = (k = [])"
| "includes_str (c # s) k = (starts_with (c # s) k \<or> includes_str s k)"

text \<open>
  What \<^verbatim>\<open>response.json()\<close> gives. An object is the list of its properties, a later
  entry of a name overriding an earlier one.
\<close>

datatype json =
    JNull
  | JBool bool
  | JNum number
  | JStr string
  | JArr "json list"
  | JObj "(string \<times> json) list"

datatype error =
    InvalidBangchakData
  | BangchakStatus nat
  | ExchangeRateFailed
  | TypeError
  | SyntaxError
  | FetchError
  | StoreError

text \<open>
  Reading a property \<^verbatim>\<open>v.name\<close> of a value: a TypeError on \<^verbatim>\<open>null\<close>, \<^verbatim>\<open>undefined\<close>
  (\<open>None\<close>) for a name the value does not have. None of the names read by this
  program is a property of a string, a number, a boolean or an array.
\<close>

fun get_prop :: "json \<Rightarrow> string \<Rightarrow> error + json option" where
  "get_prop JNull name = Inl TypeError"
| "get_prop (JObj props) name = Inr (map_of (rev props) name)"
| "get_prop v name = Inr None"

text \<open>Reading a property of a value that may be \<^verbatim>\<open>undefined\<close>.\<close>

fun get_prop_of :: "json option \<Rightarrow> string \<Rightarrow> error + json option" where
  "get_prop_of None name = Inl TypeError"
| "get_prop_of (Some v) name = get_prop v name"

fun truthy :: "json option \<Rightarrow> bool" where
  "truthy None = False"
| "truthy (Some JNull) = False"
| "truthy (Some (JBool b)) = b"
| "truthy (Some (JNum x)) = (x \<noteq> NaN \<and> x \<noteq> Fin 0)"
| "truthy (Some (JStr s)) = (s \<noteq> [])"
| "truthy (Some (JArr xs)) = True"
| "truthy (Some (JObj props)) = True"

subsection \<open>\<^verbatim>\<open>parseFloat\<close>\<close>

definition is_digit :: "char \<Rightarrow> bool" where
  "is_digit c = (let n = (of_char c :: nat) in 48 \<le> n \<and> n \<le> 57)"

text \<open>
  The white space and line terminators that \<^verbatim>\<open>parseFloat\<close> skips at the head of a text.
  Of one byte: tab, LF, VT, FF, CR and the space. Of two bytes: U+00A0 (\<open>C2 A0\<close>). Of
  three bytes: U+1680 (\<open>E1 9A 80\<close>), U+2000 to U+200A (\<open>E2 80 80\<close> to \<open>E2 80 8A\<close>), U+2028
  and U+2029 (\<open>E2 80 A8\<close>, \<open>E2 80 A9\<close>), U+202F (\<open>E2 80 AF\<close>), U+205F (\<open>E2 81 9F\<close>), U+3000
  (\<open>E3 80 80\<close>) and U+FEFF (\<open>EF BB BF\<close>).
\<close>

definition is_space :: "char \<Rightarrow> bool" where
  "is_space c = (let n = (of_char c :: nat) in (9 \<le> n \<and> n \<le> 13) \<or> n = 32)"

definition is_space2 :: "char \<Rightarrow> char \<Rightarrow> bool" where
  "is_space2 a b = ((of_char a :: nat) = 194 \<and> (of_char b :: nat) = 160)"

definition is_space3 :: "char \<Rightarrow> char \<Rightarrow> char \<Rightarrow> bool" where
  "is_space3 a b c =
     (let x = (of_char a :: nat); y = (of_char b :: nat); z = (of_char c :: nat)
      in (x = 225 \<and> y = 154 \<and> z = 128) \<or>
         (x = 226 \<and> y = 128 \<and> ((128 \<le> z \<and> z \<le> 138) \<or> z = 168 \<or> z = 169 \<or> z = 175)) \<or>
         (x = 226 \<and> y = 129 \<and> z = 159) \<or>
         (x = 227 \<and> y = 128 \<and> z = 128) \<or>
         (x = 239 \<and> y = 187 \<and> z = 191))"

fun skip_white_space :: "string \<Rightarrow> string" where
  "skip_white_space (a # b # c # s) =
     (if is_space a then skip_white_space (b # c # s)
      else if is_space2 a b then skip_white_space (c # s)
      else if is_space3 a b c then skip_white_space s
      else a # b # c # s)"
| "skip_white_space [a, b] =
     (if is_space a then skip_white_space [b]
      else if is_space2 a b then []
      else [a, b])"
| "skip_white_space [a] = (if is_space a then [] else [a])"
| "skip_white_space [] = []"

definition digits_value :: "string \<Rightarrow> nat" where
  "digits_value ds = foldl (\<lambda>a c. 10 * a + (of_char c - 48)) 0 ds"

text \<open>The exponent part \<^verbatim>\<open>e\<close>, \<^verbatim>\<open>e+\<close> or \<^verbatim>\<open>e-\<close> and digits; without digits it is not read.\<close>

fun exponent_part :: "string \<Rightarrow> int" where
  "exponent_part (e # rest) =
     (if e = CHR ''e'' \<or> e = CHR ''E'' then
        (case rest of
           s # rest' \<Rightarrow>
             if s = CHR ''-'' then
               (if takeWhile is_digit rest' = [] then 0
                else - int (digits_value (takeWhile is_digit rest')))
             else if s = CHR ''+'' then int (digits_value (takeWhile is_digit rest'))
             else int (digits_value (takeWhile is_digit rest))
         | [] \<Rightarrow> 0)
      else 0)"
| "exponent_part [] = 0"

text \<open>An unsigned decimal at the head of the text, times \<open>sign\<close>; NaN if there is none.\<close>

definition parse_unsigned :: "rat \<Rightarrow> string \<Rightarrow> number" where
  "parse_unsigned sign t =
     (if starts_with t ''Infinity'' then signed_inf sign
      else
        let ip = takeWhile is_digit t;
            r1 = dropWhile is_digit t;
            fp = (case r1 of c # r \<Rightarrow> if c = CHR ''.'' then takeWhile is_digit r else [] | [] \<Rightarrow> []);
            r2 = (case r1 of c # r \<Rightarrow> if c = CHR ''.'' then dropWhile is_digit r else r1 | [] \<Rightarrow> [])
        in if ip = [] \<and> fp = [] then NaN
           else fl (sign * (of_nat (digits_value ip) + of_nat (digits_value fp) / 10 ^ length fp)
                      * 10 powi exponent_part r2))"

definition parseFloat_string :: "string \<Rightarrow> number" where
  "parseFloat_string s =
     (case skip_white_space s of
        c # t \<Rightarrow>
          if c = CHR ''-'' then parse_unsigned (- 1) t
          else if c = CHR ''+'' then parse_unsigned 1 t
          else parse_unsigned 1 (c # t)
      | [] \<Rightarrow> NaN)"

text \<open>
  \<^verbatim>\<open>parseFloat(v)\<close> reads the text \<^verbatim>\<open>String(v)\<close>. The text of a number reads back as
  that number; the text of an array starts with the text of its first element and a
  comma (the empty text for \<^verbatim>\<open>null\<close>), so the first element decides; no other text
  (\<^verbatim>\<open>undefined\<close>, \<^verbatim>\<open>null\<close>, \<^verbatim>\<open>true\<close>, \<^verbatim>\<open>[object Object]\<close>) starts with a numeral.
\<close>

fun parseFloat_json :: "json \<Rightarrow> number" where
  "parseFloat_json (JNum x) = x"
| "parseFloat_json (JStr s) = parseFloat_string s"
| "parseFloat_json (JArr (v # vs)) = parseFloat_json v"
| "parseFloat_json v = NaN"

fun parseFloat :: "json option \<Rightarrow> number" where
  "parseFloat None = NaN"
| "parseFloat (Some v) = parseFloat_json v"


section \<open>The data served\<close>

record quote =
  price :: number
  change :: number

text \<open>The text \<^verbatim>\<open>toISOString()\<close> gives for an instant (milliseconds since the epoch).\<close>

datatype iso_text = ISOString int

datatype updated_at = FromProvider json | Generated iso_text

record current_prices =
  gasoline95 :: quote
  gasoline91 :: quote
  gasohol95 :: quote
  gasohol91 :: quote
  e20 :: quote
  e85 :: quote
  dieselB7 :: quote
  dieselB20 :: quote
  updatedAt :: updated_at

record gasoline_row =
  gasoline_brand :: string
  g95 :: number
  g91 :: number

record gasohol_row =
  gasohol_brand :: string
  gh95 :: number
  gh91 :: number
  gh_e20 :: number

record diesel_row =
  diesel_brand :: string
  b7 :: number
  b20 :: number

record brand_comparison =
  gasoline :: "gasoline_row list"
  gasohol :: "gasohol_row list"
  diesel :: "diesel_row list"

text \<open>
  The \<^verbatim>\<open>th-TH\<close> day and short month of the local date \<open>i\<close> days before an instant.
\<close>

datatype date_label = DayMonth int nat

record historical_series =
  labels :: "date_label list"
  series_gasoline95 :: "number list"
  series_gasohol95 :: "number list"
  series_dieselB7 :: "number list"

record world_prices =
  wti :: quote
  brent :: quote
  dubai :: quote
  thb :: quote

text \<open>What a cache entry or a response body holds: one of the four shapes served.\<close>

datatype payload =
    Prices current_prices
  | Brands brand_comparison
  | History historical_series
  | WorldPrices world_prices

section \<open>The world outside the process\<close>

text \<open>An item of the DynamoDB table \<^verbatim>\<open>OilPricesCache\<close>, as \<^verbatim>\<open>saveToCache\<close> writes it.\<close>

record item =
  cacheKey :: string
  data :: payload
  timestamp :: iso_text
  ttl :: number

datatype fetch_outcome =
    NetworkFailure
  | Response nat "json option"

datatype io_event = GetCommand string | PutCommand item | Fetch string

text \<open>
  The state a request runs in: the table; the clock (milliseconds); what each URL
  answers; the entropy source of \<^verbatim>\<open>Math.random\<close> and how many values were drawn; the
  external calls made so far. The \<open>n\<close>-th external call takes \<open>latency n\<close> milliseconds
  and, when it is a table command, is rejected if \<open>db_fails n\<close>.
\<close>

record world =
  table :: "string \<Rightarrow> item option"
  db_fails :: "nat \<Rightarrow> bool"
  latency :: "nat \<Rightarrow> nat"
  http :: "string \<Rightarrow> fetch_outcome"
  entropy :: "nat \<Rightarrow> rat"
  draws :: nat
  clock :: int
  trace :: "io_event list"

text \<open>
  An asynchronous function: from a world to a result, resolved (\<open>Inr\<close>) or rejected
  (\<open>Inl\<close>), and the world after it.
\<close>

type_synonym 'a io = "world \<Rightarrow> (error + 'a) \<times> world"

definition resolve :: "'a \<Rightarrow> 'a io" where
  "resolve x w = (Inr x, w)"

definition reject :: "error \<Rightarrow> 'a io" where
  "reject e w = (Inl e, w)"

definition await :: "'a io \<Rightarrow> ('a \<Rightarrow> 'b io) \<Rightarrow> 'b io" where
  "await m f w = (case m w of (Inl e, w') \<Rightarrow> (Inl e, w') | (Inr x, w') \<Rightarrow> f x w')"

definition try_catch :: "'a io \<Rightarrow> (error \<Rightarrow> 'a io) \<Rightarrow> 'a io" where
  "try_catch m handler w =
     (case m w of (Inl e, w') \<Rightarrow> handler e w' | (Inr x, w') \<Rightarrow> (Inr x, w'))"

text \<open>A synchronous computation that may throw, run inside an asynchronous function.\<close>

definition sync :: "error + 'a \<Rightarrow> 'a io" where
  "sync r w = (r, w)"

definition external_call :: "io_event \<Rightarrow> world \<Rightarrow> world" where
  "external_call ev w =
     w\<lparr>clock := clock w + int (latency w (length (trace w))), trace := trace w @ [ev]\<rparr>"

definition Date_now :: "world \<Rightarrow> number" where
  "Date_now w = fl (of_int (clock w))"

text \<open>\<^verbatim>\<open>new Date(text).getTime()\<close> for a text written by \<^verbatim>\<open>toISOString\<close>.\<close>

fun getTime :: "iso_text \<Rightarrow> number" where
  "getTime (ISOString t) = fl (of_int t)"

definition Math_random :: "world \<Rightarrow> number \<times> world" where
  "Math_random w = (Fin (entropy w (draws w)), w\<lparr>draws := Suc (draws w)\<rparr>)"

text \<open>\<^verbatim>\<open>docClient.send\<close> of a GetCommand and of a PutCommand.\<close>

definition send_Get :: "string \<Rightarrow> item option io" where
  "send_Get key w =
     (if db_fails w (length (trace w)) then (Inl StoreError, external_call (GetCommand key) w)
      else (Inr (table w key), external_call (GetCommand key) w))"

definition send_Put :: "item \<Rightarrow> unit io" where
  "send_Put it w =
     (if db_fails w (length (trace w)) then (Inl StoreError, external_call (PutCommand it) w)
      else (Inr (), (external_call (PutCommand it) w)\<lparr>table := (table w)(cacheKey it \<mapsto> it)\<rparr>))"

definition fetch :: "string \<Rightarrow> fetch_outcome io" where
  "fetch url w =
     (case http w url of
        NetworkFailure \<Rightarrow> (Inl FetchError, external_call (Fetch url) w)
      | Response st body \<Rightarrow> (Inr (Response st body), external_call (Fetch url) w))"

fun response_ok :: "fetch_outcome \<Rightarrow> bool" where
  "response_ok (Response st body) = (200 \<le> st \<and> st \<le> 299)"
| "response_ok NetworkFailure = False"

fun response_status :: "fetch_outcome \<Rightarrow> nat" where
  "response_status (Response st body) = st"
| "response_status NetworkFailure = 0"

text \<open>\<^verbatim>\<open>response.json()\<close>: rejected when the body is not JSON text.\<close>

fun response_json :: "fetch_outcome \<Rightarrow> json io" where
  "response_json (Response st (Some v)) = resolve v"
| "response_json r = reject SyntaxError"

section \<open>Cache helpers\<close>

definition CACHE_DURATION_SECONDS :: number where
  "CACHE_DURATION_SECONDS = lit 3600 0"

definition BANGCHAK_API_URL :: string where
  "BANGCHAK_API_URL = ''https://oil-price.bangchak.co.th/ApiOilPrice2''"

definition ageInSeconds :: "item \<Rightarrow> world \<Rightarrow> number" where
  "ageInSeconds it w = num_div (num_sub (Date_now w) (getTime (timestamp it))) (lit 1000 0)"

definition getFromCache :: "string \<Rightarrow> number \<Rightarrow> payload option io" where
  "getFromCache key maxAge =
     try_catch
       (await (send_Get key) (\<lambda>result w.
          (case result of
             Some it \<Rightarrow>
               if num_lt (ageInSeconds it w) maxAge then (Inr (Some (data it)), w)
               else (Inr None, w)
           | None \<Rightarrow> (Inr None, w))))
       (\<lambda>error. resolve None)"

definition saveToCache :: "string \<Rightarrow> payload \<Rightarrow> number \<Rightarrow> unit io" where
  "saveToCache key d ttl_seconds =
     try_catch
       (\<lambda>w. send_Put
          \<lparr>cacheKey = key, data = d, timestamp = ISOString (clock w),
           ttl = num_add (Math_floor (num_div (Date_now w) (lit 1000 0))) ttl_seconds\<rparr> w)
       (\<lambda>error. resolve ())"


section \<open>Current prices\<close>

subsection \<open>\<^verbatim>\<open>transformBangchakData\<close>\<close>

text \<open>
  The predicate given to \<^verbatim>\<open>products.find\<close>:
  \<^verbatim>\<open>(p.NameEN && p.NameEN.toLowerCase().includes(keyword.toLowerCase())) ||
  (p.NameTH && p.NameTH.includes(keyword))\<close>.
  Calling \<^verbatim>\<open>toLowerCase\<close> on a truthy value that is not a string is a TypeError; so is
  calling \<^verbatim>\<open>includes\<close> on one that is neither a string nor an array.
\<close>

definition name_en_matches :: "json option \<Rightarrow> string \<Rightarrow> error + bool" where
  "name_en_matches v keyword =
     (if \<not> truthy v then Inr False
      else case v of
             Some (JStr s) \<Rightarrow> Inr (includes_str (toLowerCase s) (toLowerCase keyword))
           | _ \<Rightarrow> Inl TypeError)"

definition name_th_matches :: "json option \<Rightarrow> string \<Rightarrow> error + bool" where
  "name_th_matches v keyword =
     (if \<not> truthy v then Inr False
      else case v of
             Some (JStr s) \<Rightarrow> Inr (includes_str s keyword)
           | Some (JArr vs) \<Rightarrow> Inr (JStr keyword \<in> set vs)
           | _ \<Rightarrow> Inl TypeError)"

definition matches :: "json \<Rightarrow> string \<Rightarrow> error + bool" where
  "matches p keyword =
     (case get_prop p ''NameEN'' of
        Inl e \<Rightarrow> Inl e
      | Inr en \<Rightarrow>
          (case name_en_matches en keyword of
             Inl e \<Rightarrow> Inl e
           | Inr True \<Rightarrow> Inr True
           | Inr False \<Rightarrow>
               (case get_prop p ''NameTH'' of
                  Inl e \<Rightarrow> Inl e
                | Inr th \<Rightarrow> name_th_matches th keyword)))"

text \<open>\<^verbatim>\<open>Array.prototype.find\<close> with a predicate that may throw.\<close>

fun find_first :: "(json \<Rightarrow> error + bool) \<Rightarrow> json list \<Rightarrow> error + json option" where
  "find_first pred [] = Inr None"
| "find_first pred (p # ps) =
     (case pred p of
        Inl e \<Rightarrow> Inl e
      | Inr True \<Rightarrow> Inr (Some p)
      | Inr False \<Rightarrow> find_first pred ps)"

text \<open>\<^verbatim>\<open>products.find(...)\<close>: only an array has \<^verbatim>\<open>find\<close>.\<close>

fun products_find :: "json \<Rightarrow> (json \<Rightarrow> error + bool) \<Rightarrow> error + json option" where
  "products_find (JArr ps) pred = find_first pred ps"
| "products_find v pred = Inl TypeError"

definition quote_of_product :: "json option \<Rightarrow> error + quote" where
  "quote_of_product product =
     (case get_prop_of product ''Today'' of
        Inl e \<Rightarrow> Inl e
      | Inr today \<Rightarrow>
          (case get_prop_of product ''Diff'' of
             Inl e \<Rightarrow> Inl e
           | Inr diff \<Rightarrow>
               Inr \<lparr>price = or_zero (parseFloat today), change = or_zero (parseFloat diff)\<rparr>))"

fun findPrice :: "json \<Rightarrow> string list \<Rightarrow> error + quote" where
  "findPrice products [] = Inr \<lparr>price = Fin 0, change = Fin 0\<rparr>"
| "findPrice products (keyword # keywords) =
     (case products_find products (\<lambda>p. matches p keyword) of
        Inl e \<Rightarrow> Inl e
      | Inr product \<Rightarrow>
          if truthy product then quote_of_product product
          else findPrice products keywords)"

definition th_benzin :: string where
  "th_benzin = [CHR 0xE0, CHR 0xB9, CHR 0x80, CHR 0xE0, CHR 0xB8, CHR 0x9A, CHR 0xE0, CHR 0xB8,
     CHR 0x99, CHR 0xE0, CHR 0xB8, CHR 0x8B, CHR 0xE0, CHR 0xB8, CHR 0xB4, CHR 0xE0, CHR 0xB8,
     CHR 0x99]"

definition th_gasohol :: string where
  "th_gasohol = [CHR 0xE0, CHR 0xB9, CHR 0x81, CHR 0xE0, CHR 0xB8, CHR 0x81, CHR 0xE0, CHR 0xB9,
     CHR 0x8A, CHR 0xE0, CHR 0xB8, CHR 0xAA, CHR 0xE0, CHR 0xB9, CHR 0x82, CHR 0xE0, CHR 0xB8,
     CHR 0x8B, CHR 0xE0, CHR 0xB8, CHR 0xAE, CHR 0xE0, CHR 0xB8, CHR 0xAD, CHR 0xE0, CHR 0xB8,
     CHR 0xA5, CHR 0xE0, CHR 0xB9, CHR 0x8C]"

definition th_e :: string where
  "th_e = [CHR 0xE0, CHR 0xB8, CHR 0xAD, CHR 0xE0, CHR 0xB8, CHR 0xB5]"

definition th_diesel :: string where
  "th_diesel = [CHR 0xE0, CHR 0xB8, CHR 0x94, CHR 0xE0, CHR 0xB8, CHR 0xB5, CHR 0xE0, CHR 0xB9,
     CHR 0x80, CHR 0xE0, CHR 0xB8, CHR 0x8B, CHR 0xE0, CHR 0xB8, CHR 0xA5]"

definition gasoline95_keywords :: "string list" where
  "gasoline95_keywords = [''Hi Premium 97'', ''Premium 97'', ''Gasoline 97'', th_benzin @ '' 97'']"

definition gasoline91_keywords :: "string list" where
  "gasoline91_keywords = [''Gasoline 91'', th_benzin @ '' 91'']"

definition gasohol95_keywords :: "string list" where
  "gasohol95_keywords = [''Gasohol 95'', th_gasohol @ '' 95'']"

definition gasohol91_keywords :: "string list" where
  "gasohol91_keywords = [''Gasohol 91'', th_gasohol @ '' 91'']"

definition e20_keywords :: "string list" where
  "e20_keywords = [''Gasohol E20'', ''E20'', th_e @ '' 20'']"

definition e85_keywords :: "string list" where
  "e85_keywords = [''Gasohol E85'', ''E85'', th_e @ '' 85'']"

definition dieselB7_keywords :: "string list" where
  "dieselB7_keywords = [''Hi Diesel B7'', ''Diesel B7'', th_diesel @ '' B7'']"

definition dieselB20_keywords :: "string list" where
  "dieselB20_keywords = [''Hi Diesel B20'', ''Diesel B20'', th_diesel @ '' B20'']"

text \<open>The raise of an \<open>error + 'a\<close> computation carried through a sequence of steps.\<close>

definition and_then :: "error + 'a \<Rightarrow> ('a \<Rightarrow> error + 'b) \<Rightarrow> error + 'b" where
  "and_then r f = (case r of Inl e \<Rightarrow> Inl e | Inr x \<Rightarrow> f x)"

text \<open>
  \<open>now\<close> is the clock reading \<^verbatim>\<open>new Date()\<close> takes when the payload has no truthy
  \<^verbatim>\<open>LastUpdate\<close>.
\<close>

definition transformBangchakData :: "int \<Rightarrow> json \<Rightarrow> error + current_prices" where
  "transformBangchakData now bangchakData =
     (if \<not> truthy (Some bangchakData) then Inl InvalidBangchakData
      else
        and_then (get_prop bangchakData ''Data'') (\<lambda>d.
        case d of
          None \<Rightarrow> Inl InvalidBangchakData
        | Some products \<Rightarrow>
            if \<not> truthy (Some products) then Inl InvalidBangchakData
            else
              and_then (findPrice products gasoline95_keywords) (\<lambda>q1.
              and_then (findPrice products gasoline91_keywords) (\<lambda>q2.
              and_then (findPrice products gasohol95_keywords) (\<lambda>q3.
              and_then (findPrice products gasohol91_keywords) (\<lambda>q4.
              and_then (findPrice products e20_keywords) (\<lambda>q5.
              and_then (findPrice products e85_keywords) (\<lambda>q6.
              and_then (findPrice products dieselB7_keywords) (\<lambda>q7.
              and_then (findPrice products dieselB20_keywords) (\<lambda>q8.
              and_then (get_prop bangchakData ''LastUpdate'') (\<lambda>lu.
                Inr \<lparr>gasoline95 = q1, gasoline91 = q2, gasohol95 = q3, gasohol91 = q4,
                     e20 = q5, e85 = q6, dieselB7 = q7, dieselB20 = q8,
                     updatedAt =
                       (case lu of
                          Some v \<Rightarrow>
                            if truthy (Some v) then FromProvider v
                            else Generated (ISOString now)
                        | None \<Rightarrow> Generated (ISOString now))\<rparr>)))))))))))"

subsection \<open>\<^verbatim>\<open>getFallbackPrices\<close> and \<^verbatim>\<open>getCurrentPrices\<close>\<close>

definition getFallbackPrices :: "int \<Rightarrow> current_prices" where
  "getFallbackPrices now =
     \<lparr>gasoline95 = \<lparr>price = lit 3842 2, change = num_neg (lit 20 2)\<rparr>,
      gasoline91 = \<lparr>price = lit 3567 2, change = lit 15 2\<rparr>,
      gasohol95 = \<lparr>price = lit 3689 2, change = lit 0 0\<rparr>,
      gasohol91 = \<lparr>price = lit 3412 2, change = num_neg (lit 30 2)\<rparr>,
      e20 = \<lparr>price = lit 3255 2, change = num_neg (lit 25 2)\<rparr>,
      e85 = \<lparr>price = lit 2890 2, change = lit 10 2\<rparr>,
      dieselB7 = \<lparr>price = lit 3244 2, change = num_neg (lit 18 2)\<rparr>,
      dieselB20 = \<lparr>price = lit 3189 2, change = num_neg (lit 22 2)\<rparr>,
      updatedAt = Generated (ISOString now)\<rparr>"

text \<open>The body of the \<^verbatim>\<open>try\<close> block of \<^verbatim>\<open>getCurrentPrices\<close>.\<close>

definition fetchCurrentPrices :: "payload io" where
  "fetchCurrentPrices =
     await (fetch BANGCHAK_API_URL) (\<lambda>response.
       if \<not> response_ok response then reject (BangchakStatus (response_status response))
       else
         await (response_json response) (\<lambda>bangchakData.
         await (\<lambda>w. sync (transformBangchakData (clock w) bangchakData) w) (\<lambda>formattedData.
         await (saveToCache ''current_prices'' (Prices formattedData) CACHE_DURATION_SECONDS)
           (\<lambda>u. resolve (Prices formattedData)))))"

definition getCurrentPrices :: "payload io" where
  "getCurrentPrices =
     await (getFromCache ''current_prices'' CACHE_DURATION_SECONDS) (\<lambda>cachedData.
       case cachedData of
         Some d \<Rightarrow> resolve d
       | None \<Rightarrow>
           try_catch fetchCurrentPrices
             (\<lambda>error w. (Inr (Prices (getFallbackPrices (clock w))), w)))"

section \<open>Derived views\<close>

subsection \<open>\<^verbatim>\<open>getBrandComparison\<close>\<close>

definition adjustPrice :: "number \<Rightarrow> number \<Rightarrow> number" where
  "adjustPrice basePrice adjustment = parseFloat_text (toFixed2 (num_add basePrice adjustment))"

definition brandData :: "current_prices \<Rightarrow> brand_comparison" where
  "brandData currentPrices =
     \<lparr>gasoline =
        [\<lparr>gasoline_brand = ''Bangchak'',
          g95 = price (gasoline95 currentPrices),
          g91 = price (gasoline91 currentPrices)\<rparr>,
         \<lparr>gasoline_brand = ''PTT'',
          g95 = adjustPrice (price (gasoline95 currentPrices)) (lit 5 2),
          g91 = adjustPrice (price (gasoline91 currentPrices)) (lit 5 2)\<rparr>,
         \<lparr>gasoline_brand = ''Shell'',
          g95 = adjustPrice (price (gasoline95 currentPrices)) (lit 8 2),
          g91 = adjustPrice (price (gasoline91 currentPrices)) (lit 8 2)\<rparr>,
         \<lparr>gasoline_brand = ''Esso'',
          g95 = adjustPrice (price (gasoline95 currentPrices)) (lit 6 2),
          g91 = adjustPrice (price (gasoline91 currentPrices)) (lit 6 2)\<rparr>,
         \<lparr>gasoline_brand = ''Caltex'',
          g95 = adjustPrice (price (gasoline95 currentPrices)) (lit 4 2),
          g91 = adjustPrice (price (gasoline91 currentPrices)) (lit 4 2)\<rparr>],
      gasohol =
        [\<lparr>gasohol_brand = ''Bangchak'',
          gh95 = price (gasohol95 currentPrices),
          gh91 = price (gasohol91 currentPrices),
          gh_e20 = price (e20 currentPrices)\<rparr>,
         \<lparr>gasohol_brand = ''PTT'',
          gh95 = adjustPrice (price (gasohol95 currentPrices)) (lit 5 2),
          gh91 = adjustPrice (price (gasohol91 currentPrices)) (lit 5 2),
          gh_e20 = adjustPrice (price (e20 currentPrices)) (lit 4 2)\<rparr>,
         \<lparr>gasohol_brand = ''Shell'',
          gh95 = adjustPrice (price (gasohol95 currentPrices)) (lit 7 2),
          gh91 = adjustPrice (price (gasohol91 currentPrices)) (lit 7 2),
          gh_e20 = adjustPrice (price (e20 currentPrices)) (lit 6 2)\<rparr>,
         \<lparr>gasohol_brand = ''Esso'',
          gh95 = adjustPrice (price (gasohol95 currentPrices)) (lit 6 2),
          gh91 = adjustPrice (price (gasohol91 currentPrices)) (lit 6 2),
          gh_e20 = adjustPrice (price (e20 currentPrices)) (lit 5 2)\<rparr>],
      diesel =
        [\<lparr>diesel_brand = ''Bangchak'',
          b7 = price (dieselB7 currentPrices),
          b20 = price (dieselB20 currentPrices)\<rparr>,
         \<lparr>diesel_brand = ''PTT'',
          b7 = adjustPrice (price (dieselB7 currentPrices)) (lit 5 2),
          b20 = adjustPrice (price (dieselB20 currentPrices)) (lit 5 2)\<rparr>,
         \<lparr>diesel_brand = ''Shell'',
          b7 = adjustPrice (price (dieselB7 currentPrices)) (lit 8 2),
          b20 = adjustPrice (price (dieselB20 currentPrices)) (lit 8 2)\<rparr>,
         \<lparr>diesel_brand = ''Esso'',
          b7 = adjustPrice (price (dieselB7 currentPrices)) (lit 6 2),
          b20 = adjustPrice (price (dieselB20 currentPrices)) (lit 6 2)\<rparr>]\<rparr>"

text \<open>
  \<^verbatim>\<open>currentPrices.gasoline95.price\<close> and the like read a payload that came from the
  cache or from the fetch. The table is written by \<^verbatim>\<open>saveToCache\<close> alone, which puts
  under \<^verbatim>\<open>current_prices\<close> the shape \<open>Prices\<close>. A payload of another shape under that
  key is outside the model, which gives it the TypeError of reading \<^verbatim>\<open>.price\<close> of a
  grade that is not there.
\<close>

fun as_current_prices :: "payload \<Rightarrow> error + current_prices" where
  "as_current_prices (Prices cp) = Inr cp"
| "as_current_prices other = Inl TypeError"

definition getBrandComparison :: "payload io" where
  "getBrandComparison =
     await (getFromCache ''brand_comparison'' CACHE_DURATION_SECONDS) (\<lambda>cachedData.
       case cachedData of
         Some d \<Rightarrow> resolve d
       | None \<Rightarrow>
           await getCurrentPrices (\<lambda>fetched.
           await (sync (as_current_prices fetched)) (\<lambda>currentPrices.
           await (saveToCache ''brand_comparison'' (Brands (brandData currentPrices))
                    CACHE_DURATION_SECONDS)
             (\<lambda>u. resolve (Brands (brandData currentPrices))))))"


subsection \<open>\<^verbatim>\<open>getHistoricalPrices\<close>\<close>

text \<open>
  The loop of \<^verbatim>\<open>generateRealisticTrend\<close>, from step \<open>i\<close> on: \<open>p\<close> is the running
  \<^verbatim>\<open>price\<close>, \<open>prices\<close> the array pushed so far.
\<close>

function trend_loop :: "nat \<Rightarrow> number \<Rightarrow> number \<Rightarrow> number list \<Rightarrow> world \<Rightarrow> number list \<times> world"
  where
  "trend_loop i volatility p prices w =
     (if i < 30 then
        let (r, w') = Math_random w;
            change = num_mul (num_sub r (lit 5 1)) volatility;
            trend = num_mul (num_neg (lit 3 3)) (num_sub (lit 30 0) (num_of_nat i));
            p' = num_add (num_add p change) trend
        in trend_loop (i + 1) volatility p' (prices @ [parseFloat_text (toFixed2 p')]) w'
      else (prices, w))"
  by pat_completeness auto
termination
  by (relation "measure (\<lambda>(i, volatility, p, prices, w). 30 - i)") auto

text \<open>
  \<^verbatim>\<open>prices[29] = currentPrice\<close> writes into the array of the 30 pushed values
  (\<open>length_trend_loop\<close> below), so the index is in range.
\<close>

definition generateRealisticTrend :: "number \<Rightarrow> number \<Rightarrow> world \<Rightarrow> number list \<times> world" where
  "generateRealisticTrend currentPrice volatility w =
     (let (prices, w') = trend_loop 0 volatility currentPrice [] w
      in (prices[29 := currentPrice], w'))"

text \<open>The labels: \<open>i\<close> from 29 down to 0, the date \<open>i\<close> days before \<open>today\<close>.\<close>

definition history_labels :: "int \<Rightarrow> date_label list" where
  "history_labels today = map (DayMonth today) (rev [0..<30])"

definition historicalData :: "current_prices \<Rightarrow> world \<Rightarrow> historical_series \<times> world" where
  "historicalData currentPrices w =
     (let ls = history_labels (clock w);
          (s1, w1) = generateRealisticTrend (price (gasoline95 currentPrices)) (lit 5 1) w;
          (s2, w2) = generateRealisticTrend (price (gasohol95 currentPrices)) (lit 4 1) w1;
          (s3, w3) = generateRealisticTrend (price (dieselB7 currentPrices)) (lit 3 1) w2
      in (\<lparr>labels = ls, series_gasoline95 = s1, series_gasohol95 = s2,
            series_dieselB7 = s3\<rparr>, w3))"

definition getHistoricalPrices :: "payload io" where
  "getHistoricalPrices =
     await (getFromCache ''historical_prices'' (lit 21600 0)) (\<lambda>cachedData.
       case cachedData of
         Some d \<Rightarrow> resolve d
       | None \<Rightarrow>
           await getCurrentPrices (\<lambda>fetched.
           await (sync (as_current_prices fetched)) (\<lambda>currentPrices.
           await (\<lambda>w. case historicalData currentPrices w of (h, w') \<Rightarrow> (Inr h, w')) (\<lambda>h.
           await (saveToCache ''historical_prices'' (History h) (lit 21600 0))
             (\<lambda>u. resolve (History h))))))"

subsection \<open>\<^verbatim>\<open>getWorldPrices\<close>\<close>

text \<open>The body of the \<^verbatim>\<open>try\<close> block of \<^verbatim>\<open>fetchExchangeRate\<close>.\<close>

definition fetchExchangeRate_try :: "quote io" where
  "fetchExchangeRate_try =
     await (fetch ''https://api.exchangerate-api.com/v4/latest/USD'') (\<lambda>response.
       if \<not> response_ok response then reject ExchangeRateFailed
       else
         await (response_json response) (\<lambda>d.
         await (sync (and_then (get_prop d ''rates'') (\<lambda>rates. get_prop_of rates ''THB''))) (\<lambda>rate.
           case rate of
             Some (JNum x) \<Rightarrow>
               (\<lambda>w. case Math_random w of
                       (r, w') \<Rightarrow>
                         (Inr \<lparr>price = parseFloat_text (toFixed2 x),
                               change = num_mul (num_sub r (lit 5 1)) (lit 2 1)\<rparr>, w'))
           | _ \<Rightarrow> reject TypeError)))"

text \<open>\<open>None\<close> is the \<^verbatim>\<open>null\<close> returned by the \<^verbatim>\<open>catch\<close> block.\<close>

definition fetchExchangeRate :: "quote option io" where
  "fetchExchangeRate =
     try_catch (await fetchExchangeRate_try (\<lambda>q. resolve (Some q))) (\<lambda>error. resolve None)"

definition getFallbackWorldPrices :: world_prices where
  "getFallbackWorldPrices =
     \<lparr>wti = \<lparr>price = lit 7542 2, change = lit 12 1\<rparr>,
      brent = \<lparr>price = lit 7915 2, change = lit 8 1\<rparr>,
      dubai = \<lparr>price = lit 7780 2, change = num_neg (lit 5 1)\<rparr>,
      thb = \<lparr>price = lit 3485 2, change = lit 0 0\<rparr>\<rparr>"

text \<open>One benchmark of \<^verbatim>\<open>worldData\<close>: two draws, the price first.\<close>

definition benchmark :: "number \<Rightarrow> world \<Rightarrow> quote \<times> world" where
  "benchmark base w =
     (let (r1, w1) = Math_random w;
          (r2, w2) = Math_random w1
      in (\<lparr>price = num_add base (num_mul (num_sub r1 (lit 5 1)) (lit 5 0)),
           change = num_mul (num_sub r2 (lit 5 1)) (lit 3 0)\<rparr>, w2))"

text \<open>The \<^verbatim>\<open>forEach\<close> step: both fields through \<^verbatim>\<open>toFixed(2)\<close> and \<^verbatim>\<open>parseFloat\<close>.\<close>

definition round_quote :: "quote \<Rightarrow> quote" where
  "round_quote q =
     \<lparr>price = parseFloat_text (toFixed2 (price q)),
      change = parseFloat_text (toFixed2 (change q))\<rparr>"

definition worldData :: "quote option \<Rightarrow> world \<Rightarrow> world_prices \<times> world" where
  "worldData exchangeRate w =
     (let (q1, w1) = benchmark (lit 7542 2) w;
          (q2, w2) = benchmark (lit 7915 2) w1;
          (q3, w3) = benchmark (lit 7780 2) w2;
          q4 = (case exchangeRate of
                  Some q \<Rightarrow> q
                | None \<Rightarrow> \<lparr>price = lit 3485 2, change = lit 0 0\<rparr>)
      in (\<lparr>wti = round_quote q1, brent = round_quote q2, dubai = round_quote q3,
           thb = round_quote q4\<rparr>, w3))"

text \<open>The body of the \<^verbatim>\<open>try\<close> block of \<^verbatim>\<open>getWorldPrices\<close>.\<close>

definition getWorldPrices_try :: "payload io" where
  "getWorldPrices_try =
     await fetchExchangeRate (\<lambda>exchangeRate.
     await (\<lambda>w. case worldData exchangeRate w of (d, w') \<Rightarrow> (Inr d, w')) (\<lambda>d.
     await (saveToCache ''world_prices'' (WorldPrices d) (lit 3600 0))
       (\<lambda>u. resolve (WorldPrices d))))"

definition getWorldPrices :: "payload io" where
  "getWorldPrices =
     await (getFromCache ''world_prices'' (lit 3600 0)) (\<lambda>cachedData.
       case cachedData of
         Some d \<Rightarrow> resolve d
       | None \<Rightarrow>
           try_catch getWorldPrices_try
             (\<lambda>error. resolve (WorldPrices getFallbackWorldPrices)))"

section \<open>Request handlers\<close>

datatype body = Json payload | Failure string error

record response =
  status :: nat
  body :: body

text \<open>
  \<^verbatim>\<open>res.json(data)\<close> answers with status 200; the \<^verbatim>\<open>catch\<close> block answers with status
  500 and \<^verbatim>\<open>{message, error: error.message}\<close>.
\<close>

definition handler :: "payload io \<Rightarrow> string \<Rightarrow> world \<Rightarrow> response \<times> world" where
  "handler generate message w =
     (case generate w of
        (Inr d, w') \<Rightarrow> (\<lparr>status = 200, body = Json d\<rparr>, w')
      | (Inl e, w') \<Rightarrow> (\<lparr>status = 500, body = Failure message e\<rparr>, w'))"

definition get_prices :: "world \<Rightarrow> response \<times> world" where
  "get_prices = handler getCurrentPrices ''Failed to fetch prices''"

definition get_brands :: "world \<Rightarrow> response \<times> world" where
  "get_brands = handler getBrandComparison ''Failed to fetch brands''"

definition get_history :: "world \<Rightarrow> response \<times> world" where
  "get_history = handler getHistoricalPrices ''Failed to fetch history''"

definition get_world_prices :: "world \<Rightarrow> response \<times> world" where
  "get_world_prices = handler getWorldPrices ''Failed to fetch world prices''"


section \<open>Provider records\<close>

fun is_string :: "json option \<Rightarrow> bool" where
  "is_string (Some (JStr s)) = True"
| "is_string v = False"

fun is_string_or_array :: "json option \<Rightarrow> bool" where
  "is_string_or_array (Some (JStr s)) = True"
| "is_string_or_array (Some (JArr vs)) = True"
| "is_string_or_array v = False"

text \<open>
  A record of the provider's list on which the predicate of \<^verbatim>\<open>find\<close> raises nothing,
  whatever the keyword: it is not \<^verbatim>\<open>null\<close>; its \<^verbatim>\<open>NameEN\<close> is absent, falsy or a string;
  its \<^verbatim>\<open>NameTH\<close> is absent, falsy, a string or an array.
\<close>

fun well_formed_record :: "json \<Rightarrow> bool" where
  "well_formed_record JNull = False"
| "well_formed_record (JObj props) =
     ((if truthy (map_of (rev props) ''NameEN'') then is_string (map_of (rev props) ''NameEN'')
       else True) \<and>
      (if truthy (map_of (rev props) ''NameTH'')
       then is_string_or_array (map_of (rev props) ''NameTH'') else True))"
| "well_formed_record v = True"

text \<open>The eight grades of \<^verbatim>\<open>transformBangchakData\<close>: the keywords searched and the field filled.\<close>

definition grades :: "(string list \<times> (current_prices \<Rightarrow> quote)) list" where
  "grades =
     [(gasoline95_keywords, gasoline95), (gasoline91_keywords, gasoline91),
      (gasohol95_keywords, gasohol95), (gasohol91_keywords, gasohol91),
      (e20_keywords, e20), (e85_keywords, e85),
      (dieselB7_keywords, dieselB7), (dieselB20_keywords, dieselB20)]"

text \<open>Records and payloads for examples.\<close>

definition premium_record :: json where
  "premium_record =
     JObj [(''NameEN'', JStr ''Premium 97''), (''Today'', JNum (Fin 1)), (''Diff'', JNum (Fin 0))]"

definition hi_premium_record :: json where
  "hi_premium_record =
     JObj [(''NameEN'', JStr ''Hi Premium 97''), (''Today'', JNum (Fin 2)), (''Diff'', JNum (Fin 0))]"

definition thai_diesel_record :: json where
  "thai_diesel_record =
     JObj [(''NameTH'', JStr (th_diesel @ '' b7'')), (''Today'', JNum (Fin 3)), (''Diff'', JNum (Fin 0))]"

definition gasoline91_record :: json where
  "gasoline91_record =
     JObj [(''NameEN'', JStr ''Gasoline 91''), (''Today'', JStr ''N/A''),
           (''Diff'', JNum (Fin (1 / 2)))]"

definition sample_payload :: json where
  "sample_payload = JObj [(''Data'', JArr [premium_record, hi_premium_record, gasoline91_record])]"

definition null_record_payload :: json where
  "null_record_payload = JObj [(''Data'', JArr [JNull])]"

section \<open>Instants\<close>

text \<open>
  An instant a running server can read from its clock: not before the epoch and within
  the range of a JavaScript \<^verbatim>\<open>Date\<close> (8.64e15 milliseconds).
\<close>

definition valid_time :: "int \<Rightarrow> bool" where
  "valid_time t = (0 \<le> t \<and> t \<le> 8640000000000000)"

section \<open>Example worlds\<close>

text \<open>
  An empty table in a reachable store, no network, the entropy source stuck at 0.5.
\<close>

definition world0 :: world where
  "world0 =
     \<lparr>table = (\<lambda>k. None), db_fails = (\<lambda>n. False), latency = (\<lambda>n. 0),
      http = (\<lambda>url. NetworkFailure), entropy = (\<lambda>n. 1 / 2), draws = 0, clock = 0,
      trace = []\<rparr>"

text \<open>The fuel-price provider answers 503.\<close>

definition world_503 :: world where
  "world_503 = world0\<lparr>http := (\<lambda>url. Response 503 None)\<rparr>"


text \<open>The exchange-rate provider answers with a THB rate of 35.\<close>

definition world_rates :: world where
  "world_rates =
     world0\<lparr>http := (\<lambda>url. Response 200 (Some (JObj [(''rates'', JObj [(''THB'', JNum (Fin 35))])])))\<rparr>"

text \<open>
  \<open>world0\<close> after a put of the world-prices snapshot with a time to live of an hour, and
  the same world an hour later.
\<close>

definition world_stored :: world where
  "world_stored =
     snd (saveToCache ''world_prices'' (WorldPrices getFallbackWorldPrices) (lit 3600 0) world0)"

definition world_late :: world where
  "world_late = world_stored\<lparr>clock := 3600000\<rparr>"

text \<open>The exchange-rate provider answers with rates that have no THB entry.\<close>

definition world_no_rate :: world where
  "world_no_rate =
     world0\<lparr>http := (\<lambda>url. Response 200 (Some (JObj [(''rates'', JObj [(''EUR'', JNum (Fin 1))])])))\<rparr>"

text \<open>
  No network and an empty table; the six values drawn for the benchmarks are 0.5,
  0.900390625, 0.5, 0.7666015625, 0.5 and 0.3330078125.
\<close>

definition world_coincide :: world where
  "world_coincide =
     world0\<lparr>entropy := (\<lambda>n. if n = 1 then 461 / 512 else if n = 3 then 785 / 1024
                             else if n = 5 then 341 / 1024 else 1 / 2)\<rparr>"

section \<open>Properties of the number model\<close>

lemma of_int_pow2_bitlen:
  assumes "0 < p"
  shows "(2::rat) powi (bitlen p - 1) \<le> of_int p" and "of_int p < (2::rat) powi (bitlen p)"
proof -
  from bitlen_bounds[OF assms] have a: "2 ^ nat (bitlen p - 1) \<le> p" and b: "p < 2 ^ nat (bitlen p)"
    by auto
  have ge1: "1 \<le> bitlen p" using assms by (auto simp: bitlen_alt_def)
  have "(2::rat) powi (bitlen p - 1) = 2 ^ nat (bitlen p - 1)"
    using ge1 by (simp add: power_int_def)
  also have "\<dots> = of_int (2 ^ nat (bitlen p - 1))" by simp
  also have "\<dots> \<le> of_int p" using a by (simp only: of_int_le_iff)
  finally show "(2::rat) powi (bitlen p - 1) \<le> of_int p" .
  have "(of_int p :: rat) < of_int (2 ^ nat (bitlen p))" using b by (simp only: of_int_less_iff)
  also have "\<dots> = 2 powi (bitlen p)" using ge1 by (simp add: power_int_def)
  finally show "of_int p < (2::rat) powi (bitlen p)" .
qed

lemma floor_log2_bounds:
  assumes "0 < x"
  shows "2 powi (floor_log2 x) \<le> x \<and> x < 2 powi (floor_log2 x + 1)"
proof -
  obtain p q where pq: "quotient_of x = (p, q)" by (cases "quotient_of x")
  have q: "0 < q" using pq quotient_of_denom_pos by blast
  have x: "x = of_int p / of_int q" using pq quotient_of_div by blast
  have p: "0 < p" using assms q x by (simp add: zero_less_divide_iff)
  define d where "d = bitlen p - bitlen q"
  have up: "x < 2 powi (d + 1)"
  proof -
    have "x < 2 powi (bitlen p) / of_int q"
      unfolding x using of_int_pow2_bitlen(2)[OF p] q by (simp add: divide_strict_right_mono)
    also have "\<dots> \<le> 2 powi (bitlen p) / 2 powi (bitlen q - 1)"
      using of_int_pow2_bitlen(1)[OF q] by (intro divide_left_mono) (auto simp: q zero_less_power_int intro!: mult_pos_pos)
    also have "\<dots> = 2 powi (d + 1)"
      by (simp add: d_def power_int_diff[symmetric] algebra_simps)
    finally show ?thesis .
  qed
  have lo: "2 powi (d - 1) < x"
  proof -
    have "(2::rat) powi (d - 1) = 2 powi (bitlen p - 1) / 2 powi (bitlen q)"
      by (simp add: d_def power_int_diff[symmetric] algebra_simps)
    also have "\<dots> \<le> of_int p / 2 powi (bitlen q)"
      using of_int_pow2_bitlen(1)[OF p] by (intro divide_right_mono) (auto simp: zero_less_power_int less_imp_le)
    also have "\<dots> < of_int p / of_int q"
      using of_int_pow2_bitlen(2)[OF q] p q by (intro divide_strict_left_mono) (auto intro!: mult_pos_pos simp: zero_less_power_int)
    finally show ?thesis by (simp add: x)
  qed
  show ?thesis
  proof (cases "2 powi d \<le> x")
    case True
    then have "floor_log2 x = d" by (simp add: floor_log2_def pq d_def)
    then show ?thesis using True up by simp
  next
    case False
    then have "floor_log2 x = d - 1" by (simp add: floor_log2_def pq d_def)
    then show ?thesis using False lo by simp
  qed
qed

lemma pow2_less_iff: "(2::rat) powi a < 2 powi b \<longleftrightarrow> a < b"
proof
  assume l: "(2::rat) powi a < 2 powi b"
  show "a < b"
  proof (rule ccontr)
    assume "\<not> a < b"
    then have "(2::rat) powi b \<le> 2 powi a" by (intro power_int_increasing) auto
    with l show False by simp
  qed
next
  assume "a < b"
  then show "(2::rat) powi a < 2 powi b" by (intro power_int_strict_increasing) auto
qed

lemma pow2_le_iff: "(2::rat) powi a \<le> 2 powi b \<longleftrightarrow> a \<le> b"
  using pow2_less_iff[of b a] by (auto simp: not_less[symmetric])

lemma floor_log2_unique:
  assumes "2 powi e \<le> x" "x < 2 powi (e + 1)"
  shows "floor_log2 x = e"
proof -
  have x: "0 < x" using assms(1) by (meson less_le_trans zero_less_numeral zero_less_power_int)
  from floor_log2_bounds[OF x] have a: "2 powi (floor_log2 x) \<le> x" and b: "x < 2 powi (floor_log2 x + 1)"
    by auto
  have "(2::rat) powi e < 2 powi (floor_log2 x + 1)" using assms(1) b by simp
  then have 1: "e < floor_log2 x + 1" by (simp only: pow2_less_iff)
  have "(2::rat) powi (floor_log2 x) < 2 powi (e + 1)" using a assms(2) by simp
  then have 2: "floor_log2 x < e + 1" by (simp only: pow2_less_iff)
  from 1 2 show ?thesis by simp
qed

lemma floor_log2_mono:
  assumes "0 < x" "x \<le> y"
  shows "floor_log2 x \<le> floor_log2 y"
proof -
  have y: "0 < y" using assms by simp
  have "(2::rat) powi (floor_log2 x) \<le> x" using floor_log2_bounds[OF assms(1)] by simp
  also have "x \<le> y" by fact
  also have "y < 2 powi (floor_log2 y + 1)" using floor_log2_bounds[OF y] by simp
  finally have "floor_log2 x < floor_log2 y + 1" by (simp only: pow2_less_iff)
  then show ?thesis by simp
qed

lemma round_even_of_int: "round_even (of_int n) = n"
  by (simp add: round_even_def)

lemma round_even_bounds: "\<lfloor>r\<rfloor> \<le> round_even r \<and> round_even r \<le> \<lceil>r\<rceil>"
proof -
  have "r - of_int \<lfloor>r\<rfloor> = 0 \<or> \<lceil>r\<rceil> = \<lfloor>r\<rfloor> + 1"
    by (metis ceiling_altdef diff_eq_eq add.commute add_0 of_int_floor_cancel eq_iff_diff_eq_0)
  then show ?thesis
    by (auto simp: round_even_def Let_def)
qed

lemma round_even_mono:
  assumes "r \<le> s"
  shows "round_even r \<le> round_even s"
proof (cases "\<lfloor>r\<rfloor> = \<lfloor>s\<rfloor>")
  case True
  then show ?thesis using assms by (auto simp: round_even_def Let_def)
next
  case False
  then have "\<lfloor>r\<rfloor> < \<lfloor>s\<rfloor>" using assms floor_mono[of r s] by simp
  then have "\<lfloor>r\<rfloor> + 1 \<le> \<lfloor>s\<rfloor>" by simp
  moreover have "round_even r \<le> \<lfloor>r\<rfloor> + 1" by (auto simp: round_even_def Let_def)
  moreover have "\<lfloor>s\<rfloor> \<le> round_even s" by (auto simp: round_even_def Let_def)
  ultimately show ?thesis by linarith
qed

lemma round_even_minus: "round_even (- r) = - round_even r"
proof (cases "r = of_int \<lfloor>r\<rfloor>")
  case True
  then obtain n where "r = of_int n" ..
  then have "- r = of_int (- n)" by simp
  then show ?thesis unfolding \<open>r = of_int n\<close> by (simp only: round_even_of_int)
next
  case False
  have fl: "\<lfloor>- r\<rfloor> = - \<lfloor>r\<rfloor> - 1" using False by (simp add: floor_minus ceiling_altdef)
  have d: "- r - of_int (- \<lfloor>r\<rfloor> - 1) = 1 - (r - of_int \<lfloor>r\<rfloor>)" by simp
  have pos: "0 < r - of_int \<lfloor>r\<rfloor>" using False by (smt (verit) of_int_floor_le diff_gt_0_iff_gt order_le_less)
  show ?thesis
    unfolding round_even_def Let_def fl d
    using pos by (auto simp: algebra_simps)
qed


lemma round_double_alt:
  "round_double x = (if x = 0 then 0 else of_int (round_even (x / 2 powi ulp_exp x)) * 2 powi ulp_exp x)"
  by (simp add: round_double_def)

lemma round_double_minus: "round_double (- x) = - round_double x"
  by (simp add: round_double_alt ulp_exp_def round_even_minus)

lemma round_double_nonneg:
  assumes "0 \<le> x"
  shows "0 \<le> round_double x"
proof -
  have "0 \<le> x / 2 powi ulp_exp x" using assms by simp
  then have "round_even (of_int 0) \<le> round_even (x / 2 powi ulp_exp x)"
    by (intro round_even_mono) simp
  then have "0 \<le> round_even (x / 2 powi ulp_exp x)" by (simp only: round_even_of_int)
  then show ?thesis by (simp add: round_double_alt)
qed

lemma pow2_quotient:
  assumes "k \<le> e"
  shows "(2::rat) powi e / 2 powi k = of_int (2 ^ nat (e - k))"
proof -
  have "(2::rat) powi e / 2 powi k = 2 powi (e - k)" by (simp add: power_int_diff)
  also have "\<dots> = 2 ^ nat (e - k)" using assms by (simp add: power_int_def)
  finally show ?thesis by simp
qed

lemma scaled_round_le:
  assumes "k \<le> e" "z \<le> 2 powi e"
  shows "of_int (round_even (z / 2 powi k)) * 2 powi k \<le> (2::rat) powi e"
proof -
  have "z / 2 powi k \<le> 2 powi e / 2 powi k"
    using assms(2) by (intro divide_right_mono) auto
  then have "z / 2 powi k \<le> of_int (2 ^ nat (e - k))"
    by (simp only: pow2_quotient[OF assms(1)])
  then have "round_even (z / 2 powi k) \<le> round_even (of_int (2 ^ nat (e - k)))"
    by (rule round_even_mono)
  then have "round_even (z / 2 powi k) \<le> 2 ^ nat (e - k)"
    by (simp only: round_even_of_int)
  then have "(of_int (round_even (z / 2 powi k)) :: rat) \<le> of_int (2 ^ nat (e - k))"
    by (simp only: of_int_le_iff)
  then have "of_int (round_even (z / 2 powi k)) * 2 powi k \<le> of_int (2 ^ nat (e - k)) * (2::rat) powi k"
    by (intro mult_right_mono) auto
  also have "\<dots> = 2 powi e"
    by (simp only: pow2_quotient[OF assms(1), symmetric]) simp
  finally show ?thesis .
qed

lemma scaled_round_ge:
  assumes "k \<le> e" "2 powi e \<le> z"
  shows "(2::rat) powi e \<le> of_int (round_even (z / 2 powi k)) * 2 powi k"
proof -
  have "2 powi e / 2 powi k \<le> z / 2 powi k"
    using assms(2) by (intro divide_right_mono) auto
  then have "of_int (2 ^ nat (e - k)) \<le> z / 2 powi k"
    by (simp only: pow2_quotient[OF assms(1)])
  then have "round_even (of_int (2 ^ nat (e - k))) \<le> round_even (z / 2 powi k)"
    by (rule round_even_mono)
  then have "2 ^ nat (e - k) \<le> round_even (z / 2 powi k)"
    by (simp only: round_even_of_int)
  then have "(of_int (2 ^ nat (e - k)) :: rat) \<le> of_int (round_even (z / 2 powi k))"
    by (simp only: of_int_le_iff)
  then have "of_int (2 ^ nat (e - k)) * (2::rat) powi k \<le> of_int (round_even (z / 2 powi k)) * 2 powi k"
    by (intro mult_right_mono) auto
  then have le: "of_int (2 ^ nat (e - k)) * (2::rat) powi k \<le> of_int (round_even (z / 2 powi k)) * 2 powi k" .
  have "(2::rat) powi e = of_int (2 ^ nat (e - k)) * (2::rat) powi k"
    by (simp only: pow2_quotient[OF assms(1), symmetric]) simp
  also note le
  finally show ?thesis .
qed

lemma round_double_mono_pos:
  assumes "0 < x" "x \<le> y"
  shows "round_double x \<le> round_double y"
proof -
  have y: "0 < y" using assms by simp
  have ax: "\<bar>x\<bar> = x" and ay: "\<bar>y\<bar> = y" using assms by auto
  let ?ex = "floor_log2 x" and ?ey = "floor_log2 y"
  have ee: "?ex \<le> ?ey" using floor_log2_mono[OF assms] .
  have kk: "ulp_exp x \<le> ulp_exp y" using ee by (simp add: ulp_exp_def ax ay)
  show ?thesis
  proof (cases "ulp_exp x = ulp_exp y")
    case True
    have "x / 2 powi ulp_exp y \<le> y / 2 powi ulp_exp y"
      using assms(2) by (intro divide_right_mono) auto
    then have "round_even (x / 2 powi ulp_exp y) \<le> round_even (y / 2 powi ulp_exp y)"
      by (rule round_even_mono)
    then have "(of_int (round_even (x / 2 powi ulp_exp y)) :: rat) * 2 powi ulp_exp y
        \<le> of_int (round_even (y / 2 powi ulp_exp y)) * 2 powi ulp_exp y"
      by (intro mult_right_mono) auto
    then show ?thesis using assms y by (simp add: round_double_alt True)
  next
    case False
    then have lt: "ulp_exp x < ulp_exp y" using kk by simp
    then have ky: "ulp_exp y = ?ey - 52" by (auto simp: ulp_exp_def ax ay max_def split: if_splits)
    have kx: "ulp_exp x \<le> ?ey" using lt ky by simp
    have xle: "x \<le> 2 powi ?ey"
    proof -
      have "?ex + 1 \<le> ?ey" using lt ky by (auto simp: ulp_exp_def ax max_def split: if_splits)
      then have "(2::rat) powi (?ex + 1) \<le> 2 powi ?ey" by (simp only: pow2_le_iff)
      then show ?thesis using floor_log2_bounds[OF assms(1)] by simp
    qed
    have "round_double x \<le> 2 powi ?ey"
      using scaled_round_le[OF kx xle] assms(1) by (simp add: round_double_alt)
    also have "\<dots> \<le> round_double y"
      using scaled_round_ge[of "ulp_exp y" ?ey y] floor_log2_bounds[OF y] ky y
      by (simp add: round_double_alt)
    finally show ?thesis .
  qed
qed

lemma round_double_mono:
  assumes "x \<le> y"
  shows "round_double x \<le> round_double y"
proof -
  consider "0 < x" | "x \<le> 0" "0 \<le> y" | "y < 0" by linarith
  then show ?thesis
  proof cases
    case 1
    then show ?thesis using assms by (rule round_double_mono_pos)
  next
    case 2
    have "0 \<le> round_double (- x)" using 2 by (intro round_double_nonneg) simp
    then have "round_double x \<le> 0" by (simp add: round_double_minus)
    also have "0 \<le> round_double y" using 2 by (intro round_double_nonneg)
    finally show ?thesis .
  next
    case 3
    have "round_double (- y) \<le> round_double (- x)"
      using 3 assms by (intro round_double_mono_pos) auto
    then show ?thesis by (simp add: round_double_minus)
  qed
qed

lemma round_double_at:
  assumes "2 powi e \<le> \<bar>x\<bar>" "\<bar>x\<bar> < 2 powi (e + 1)" "- 1022 \<le> e"
  shows "round_double x = of_int (round_even (x / 2 powi (e - 52))) * 2 powi (e - 52)"
proof -
  have "floor_log2 \<bar>x\<bar> = e" using assms(1,2) by (rule floor_log2_unique)
  then have u: "ulp_exp x = e - 52" using assms(3) by (simp add: ulp_exp_def)
  have "x \<noteq> 0" using assms(1) by (smt (verit) abs_zero not_le zero_less_numeral zero_less_power_int)
  then show ?thesis by (simp add: round_double_alt u)
qed

lemma round_double_of_int:
  assumes "\<bar>n\<bar> < 2 ^ 53"
  shows "round_double (of_int n) = of_int n"
proof (cases "n = 0")
  case True
  then show ?thesis by (simp add: round_double_def)
next
  case False
  let ?x = "of_int n :: rat"
  have pos: "0 < \<bar>?x\<bar>" using False by simp
  define e where "e = floor_log2 \<bar>?x\<bar>"
  have b: "2 powi e \<le> \<bar>?x\<bar>" "\<bar>?x\<bar> < 2 powi (e + 1)"
    using floor_log2_bounds[OF pos] by (auto simp: e_def)
  have "1 \<le> \<bar>n\<bar>" using False by simp
  then have "(of_int 1 :: rat) \<le> of_int \<bar>n\<bar>" by (simp only: of_int_le_iff)
  then have "(1::rat) \<le> \<bar>?x\<bar>" by simp
  then have "(2::rat) powi 0 < 2 powi (e + 1)" using b(2) by simp
  then have "0 < e + 1" by (simp only: pow2_less_iff)
  then have e0: "0 \<le> e" by simp
  have "(of_int \<bar>n\<bar> :: rat) < of_int (2 ^ 53)" using assms by (simp only: of_int_less_iff)
  then have "\<bar>?x\<bar> < 2 powi 53" by simp
  then have "(2::rat) powi e < 2 powi 53" using b(1) by simp
  then have "e < 53" by (simp only: pow2_less_iff)
  then have e52: "e \<le> 52" by simp
  have u: "ulp_exp ?x = e - 52" using e0 by (simp add: ulp_exp_def e_def)
  have "?x / 2 powi (e - 52) = ?x * 2 powi (52 - e)"
    by (simp add: power_int_diff field_simps)
  also have "\<dots> = of_int (n * 2 ^ nat (52 - e))" using e52 by (simp add: power_int_def)
  finally have q: "?x / 2 powi (e - 52) = of_int (n * 2 ^ nat (52 - e))" .
  have "round_double ?x = of_int (n * 2 ^ nat (52 - e)) * 2 powi (e - 52)"
    using False by (simp only: round_double_alt u q round_even_of_int) simp
  also have "\<dots> = ?x * (2 powi (52 - e) * 2 powi (e - 52))"
    using e52 by (simp add: power_int_def)
  also have "2 powi (52 - e) * 2 powi (e - 52) = (1::rat)"
    by (simp flip: power_int_add)
  finally show ?thesis by simp
qed

lemma round_even_divide:
  assumes "0 < b"
  shows "round_even (of_int a / of_int b) =
    (if 2 * (a mod b) < b then a div b else if b < 2 * (a mod b) then a div b + 1
     else if even (a div b) then a div b else a div b + 1)"
proof -
  have f: "\<lfloor>(of_int a / of_int b :: rat)\<rfloor> = a div b" by (rule floor_divide_of_int_eq)
  have "(of_int a :: rat) = of_int (a div b * b + a mod b)" by simp
  also have "\<dots> = of_int (a div b) * of_int b + of_int (a mod b)" by (simp only: of_int_add of_int_mult)
  finally have "(of_int a :: rat) / of_int b = (of_int (a div b) * of_int b + of_int (a mod b)) / of_int b"
    by simp
  also have "\<dots> = of_int (a div b) + of_int (a mod b) / of_int b"
    using assms by (simp add: add_divide_distrib)
  finally have "(of_int a :: rat) / of_int b = of_int (a div b) + of_int (a mod b) / of_int b" .
  then have d: "(of_int a :: rat) / of_int b - of_int (a div b) = of_int (a mod b) / of_int b" by simp
  have lt: "(of_int (a mod b) / of_int b < (1 / 2 :: rat)) \<longleftrightarrow> 2 * (a mod b) < b"
  proof -
    have "(of_int (a mod b) / of_int b < (1 / 2 :: rat)) \<longleftrightarrow> (of_int (2 * (a mod b)) :: rat) < of_int b"
      using assms by (simp add: field_simps)
    then show ?thesis by (simp only: of_int_less_iff)
  qed
  have gt: "((1 / 2 :: rat) < of_int (a mod b) / of_int b) \<longleftrightarrow> b < 2 * (a mod b)"
  proof -
    have "((1 / 2 :: rat) < of_int (a mod b) / of_int b) \<longleftrightarrow> (of_int b :: rat) < of_int (2 * (a mod b))"
      using assms by (simp add: field_simps)
    then show ?thesis by (simp only: of_int_less_iff)
  qed
  show ?thesis
    unfolding round_even_def Let_def f d lt gt ..
qed

lemma round_even_numeral_divide:
  "round_even (numeral a / numeral b) =
    (if 2 * (numeral a mod numeral b) < (numeral b :: int) then numeral a div numeral b
     else if numeral b < 2 * (numeral a mod numeral b :: int) then numeral a div numeral b + 1
     else if even (numeral a div numeral b :: int) then numeral a div numeral b else numeral a div numeral b + 1)"
  using round_even_divide[of "numeral b" "numeral a"] by simp

lemma round_even_numeral: "round_even (numeral a) = numeral a"
  using round_even_of_int[of "numeral a"] by simp


lemma fl_finite:
  assumes "\<bar>round_double x\<bar> < 2 powi 1024"
  shows "fl x = Fin (round_double x)"
  using assms by (auto simp: fl_def Let_def)

lemma round_double_bound:
  assumes "\<bar>x\<bar> \<le> 2 powi e" "- 1074 \<le> e"
  shows "\<bar>round_double x\<bar> \<le> 2 powi e"
proof -
  have pos: "round_double y \<le> 2 powi e" if "0 < y" "y \<le> 2 powi e" for y
  proof -
    have "floor_log2 y \<le> e"
    proof -
      have "(2::rat) powi (floor_log2 y) \<le> y" using floor_log2_bounds[OF that(1)] by simp
      also have "y \<le> 2 powi e" by fact
      finally show ?thesis by (simp only: pow2_le_iff)
    qed
    then have k: "ulp_exp y \<le> e" using assms(2) that(1) by (simp add: ulp_exp_def)
    from scaled_round_le[OF k that(2)] that(1) show ?thesis by (simp add: round_double_alt)
  qed
  consider "0 < x" | "x = 0" | "x < 0" by linarith
  then show ?thesis
  proof cases
    case 1
    then show ?thesis using pos[of x] assms(1) round_double_nonneg[of x] by simp
  next
    case 2
    then show ?thesis by (simp add: round_double_def)
  next
    case 3
    then have "round_double (- x) \<le> 2 powi e" using pos[of "- x"] assms(1) by simp
    moreover have "0 \<le> round_double (- x)" using 3 by (intro round_double_nonneg) simp
    ultimately show ?thesis by (simp add: round_double_minus)
  qed
qed

lemma fl_bounded:
  assumes "\<bar>x\<bar> \<le> 2 powi e" "- 1074 \<le> e" "e < 1024"
  shows "fl x = Fin (round_double x)"
proof -
  have "\<bar>round_double x\<bar> \<le> 2 powi e" using assms(1,2) by (rule round_double_bound)
  also have "(2::rat) powi e < 2 powi 1024" using assms(3) by (simp only: pow2_less_iff)
  finally show ?thesis by (rule fl_finite)
qed

lemma fl_small:
  assumes "\<bar>x\<bar> \<le> 10 ^ 21"
  shows "fl x = Fin (round_double x)"
proof -
  have "(10::rat) ^ 21 \<le> 2 powi 70" by simp
  then have "\<bar>x\<bar> \<le> 2 powi 70" using assms by simp
  then show ?thesis by (rule fl_bounded) simp_all
qed

lemma fl_at:
  assumes "2 powi e \<le> \<bar>x\<bar>" "\<bar>x\<bar> < 2 powi (e + 1)" "- 1022 \<le> e" "e < 1023"
  shows "fl x = Fin (of_int (round_even (x / 2 powi (e - 52))) * 2 powi (e - 52))"
proof -
  have "\<bar>x\<bar> \<le> 2 powi (e + 1)" using assms(2) by simp
  then have "fl x = Fin (round_double x)" using assms(3,4) by (intro fl_bounded[of x "e + 1"]) simp_all
  then show ?thesis using round_double_at[OF assms(1,2,3)] by simp
qed

lemma fl_of_int:
  assumes "\<bar>n\<bar> < 2 ^ 53"
  shows "fl (of_int n) = Fin (of_int n)"
proof -
  have "(of_int \<bar>n\<bar> :: rat) < of_int (2 ^ 53)" using assms by (simp only: of_int_less_iff)
  then have "\<bar>of_int n :: rat\<bar> \<le> 2 powi 53" by simp
  then have "fl (of_int n) = Fin (round_double (of_int n))" by (rule fl_bounded) simp_all
  then show ?thesis by (simp add: round_double_of_int[OF assms])
qed

lemma fl_zero: "fl 0 = Fin 0"
  using fl_of_int[of 0] by simp

lemma fl_numeral:
  assumes "(numeral k :: int) < 2 ^ 53"
  shows "fl (numeral k) = Fin (numeral k)"
  using fl_of_int[of "numeral k"] assms by simp

lemma fl_not_lt:
  assumes "y \<le> x"
  shows "\<not> num_lt (fl x) (fl y)"
proof -
  have "round_double y \<le> round_double x" using assms by (rule round_double_mono)
  then show ?thesis by (auto simp: fl_def Let_def)
qed

lemmas round_even_eval = round_even_numeral_divide round_even_numeral


lemma floor_rat_numeral_divide:
  "\<lfloor>(numeral a / numeral b :: rat)\<rfloor> = numeral a div numeral b"
  using floor_divide_of_int_eq[of "numeral a" "numeral b", where ?'a = rat] by simp


section \<open>Properties of the cache helpers\<close>

lemma getFromCache_eq:
  "getFromCache key maxAge w =
     (Inr (if db_fails w (length (trace w)) then None
           else case table w key of
                  None \<Rightarrow> None
                | Some it \<Rightarrow>
                    if num_lt (ageInSeconds it (external_call (GetCommand key) w)) maxAge
                    then Some (data it) else None),
      external_call (GetCommand key) w)"
  by (simp add: getFromCache_def try_catch_def await_def send_Get_def resolve_def
      split: option.splits)

lemma saveToCache_eq:
  "saveToCache key d t w =
     (Inr (),
      let it = \<lparr>cacheKey = key, data = d, timestamp = ISOString (clock w),
                ttl = num_add (Math_floor (num_div (Date_now w) (lit 1000 0))) t\<rparr>
      in if db_fails w (length (trace w)) then external_call (PutCommand it) w
         else (external_call (PutCommand it) w)\<lparr>table := (table w)(key \<mapsto> it)\<rparr>)"
  by (simp add: saveToCache_def try_catch_def send_Put_def resolve_def Let_def)

section \<open>The last value of a historical series\<close>

declare trend_loop.simps [simp del]

lemma length_trend_loop:
  "length (fst (trend_loop i v p prices w)) = length prices + (30 - i)"
proof (induction i v p prices w rule: trend_loop.induct)
  case (1 i v p prices w)
  show ?case
  proof (cases "i < 30")
    case True
    obtain r w' where rw: "Math_random w = (r, w')" by (cases "Math_random w")
    show ?thesis
      using True "1.IH"[OF True rw[symmetric] refl refl refl refl]
      by (subst trend_loop.simps) (simp add: rw Let_def)
  next
    case False
    then show ?thesis by (subst trend_loop.simps) simp
  qed
qed

lemma generateRealisticTrend_last:
  "length (fst (generateRealisticTrend currentPrice volatility w)) = 30 \<and>
   fst (generateRealisticTrend currentPrice volatility w) ! 29 = currentPrice"
proof -
  obtain prices w' where t: "trend_loop 0 volatility currentPrice [] w = (prices, w')"
    by (cases "trend_loop 0 volatility currentPrice [] w")
  have "length prices = 30" using length_trend_loop[of 0 volatility currentPrice "[]" w] t by simp
  then show ?thesis by (simp add: generateRealisticTrend_def t)
qed

lemma historicalData_last:
  "length (series_gasoline95 (fst (historicalData cp w))) = 30 \<and>
   series_gasoline95 (fst (historicalData cp w)) ! 29 = price (gasoline95 cp) \<and>
   length (series_gasohol95 (fst (historicalData cp w))) = 30 \<and>
   series_gasohol95 (fst (historicalData cp w)) ! 29 = price (gasohol95 cp) \<and>
   length (series_dieselB7 (fst (historicalData cp w))) = 30 \<and>
   series_dieselB7 (fst (historicalData cp w)) ! 29 = price (dieselB7 cp)"
proof -
  obtain s1 w1 where 1: "generateRealisticTrend (price (gasoline95 cp)) (lit 5 1) w = (s1, w1)"
    by (cases "generateRealisticTrend (price (gasoline95 cp)) (lit 5 1) w")
  obtain s2 w2 where 2: "generateRealisticTrend (price (gasohol95 cp)) (lit 4 1) w1 = (s2, w2)"
    by (cases "generateRealisticTrend (price (gasohol95 cp)) (lit 4 1) w1")
  obtain s3 w3 where 3: "generateRealisticTrend (price (dieselB7 cp)) (lit 3 1) w2 = (s3, w3)"
    by (cases "generateRealisticTrend (price (dieselB7 cp)) (lit 3 1) w2")
  from generateRealisticTrend_last[of "price (gasoline95 cp)" "lit 5 1" w] 1
  have a: "length s1 = 30 \<and> s1 ! 29 = price (gasoline95 cp)" by simp
  from generateRealisticTrend_last[of "price (gasohol95 cp)" "lit 4 1" w1] 2
  have b: "length s2 = 30 \<and> s2 ! 29 = price (gasohol95 cp)" by simp
  from generateRealisticTrend_last[of "price (dieselB7 cp)" "lit 3 1" w2] 3
  have c: "length s3 = 30 \<and> s3 ! 29 = price (dieselB7 cp)" by simp
  show ?thesis using a b c by (simp add: historicalData_def 1 2 3 Let_def)
qed

lemma getCurrentPrices_world0:
  "fst (getCurrentPrices (snd (getFromCache ''historical_prices'' (lit 21600 0) world0)))
     = Inr (Prices (getFallbackPrices 0))"
  by (simp add: getCurrentPrices_def getFromCache_eq await_def try_catch_def fetchCurrentPrices_def
      fetch_def world0_def external_call_def BANGCHAK_API_URL_def)

text \<open>
  Claim C2. Whatever the entropy source gives, \<^verbatim>\<open>generateRealisticTrend\<close> returns 30
  values of which the one at index 29 is the current price it was given, unchanged. So
  when \<^verbatim>\<open>getHistoricalPrices\<close> misses the cache and \<^verbatim>\<open>getCurrentPrices\<close> gives the
  prices \<open>cp\<close>, each of the three series returned (gasoline95, gasohol95, dieselB7) has
  30 values and ends with the price of its grade in \<open>cp\<close>.
\<close>

theorem last_of_series_is_current_price:
  "(length (fst (generateRealisticTrend currentPrice volatility w0)) = 30 \<and>
    fst (generateRealisticTrend currentPrice volatility w0) ! 29 = currentPrice) \<and>
   (fst (getFromCache ''historical_prices'' (lit 21600 0) w) = Inr None \<longrightarrow>
    getCurrentPrices (snd (getFromCache ''historical_prices'' (lit 21600 0) w)) = (Inr (Prices cp), w2) \<longrightarrow>
    (\<exists>h w3. getHistoricalPrices w = (Inr (History h), w3) \<and>
       length (series_gasoline95 h) = 30 \<and> series_gasoline95 h ! 29 = price (gasoline95 cp) \<and>
       length (series_gasohol95 h) = 30 \<and> series_gasohol95 h ! 29 = price (gasohol95 cp) \<and>
       length (series_dieselB7 h) = 30 \<and> series_dieselB7 h ! 29 = price (dieselB7 cp)))"
proof (intro conjI impI)
  show "length (fst (generateRealisticTrend currentPrice volatility w0)) = 30"
    using generateRealisticTrend_last by blast
  show "fst (generateRealisticTrend currentPrice volatility w0) ! 29 = currentPrice"
    using generateRealisticTrend_last by blast
next
  assume miss: "fst (getFromCache ''historical_prices'' (lit 21600 0) w) = Inr None"
    and cur: "getCurrentPrices (snd (getFromCache ''historical_prices'' (lit 21600 0) w)) = (Inr (Prices cp), w2)"
  obtain w1 where g: "getFromCache ''historical_prices'' (lit 21600 0) w = (Inr None, w1)"
    using miss by (cases "getFromCache ''historical_prices'' (lit 21600 0) w") simp
  have cur': "getCurrentPrices w1 = (Inr (Prices cp), w2)" using cur g by simp
  obtain h w2' where hd: "historicalData cp w2 = (h, w2')" by (cases "historicalData cp w2")
  have "getHistoricalPrices w =
      (Inr (History h), snd (saveToCache ''historical_prices'' (History h) (lit 21600 0) w2'))"
    by (simp add: getHistoricalPrices_def await_def g cur' sync_def hd saveToCache_eq resolve_def)
  moreover have "length (series_gasoline95 h) = 30 \<and> series_gasoline95 h ! 29 = price (gasoline95 cp) \<and>
       length (series_gasohol95 h) = 30 \<and> series_gasohol95 h ! 29 = price (gasohol95 cp) \<and>
       length (series_dieselB7 h) = 30 \<and> series_dieselB7 h ! 29 = price (dieselB7 cp)"
    using historicalData_last[of cp w2] hd by simp
  ultimately show "\<exists>h w3. getHistoricalPrices w = (Inr (History h), w3) \<and>
       length (series_gasoline95 h) = 30 \<and> series_gasoline95 h ! 29 = price (gasoline95 cp) \<and>
       length (series_gasohol95 h) = 30 \<and> series_gasohol95 h ! 29 = price (gasohol95 cp) \<and>
       length (series_dieselB7 h) = 30 \<and> series_dieselB7 h ! 29 = price (dieselB7 cp)"
    by blast
qed

theorem last_of_series_is_current_price_witness:
  "fst (getFromCache ''historical_prices'' (lit 21600 0) world0) = Inr None \<and>
   (\<exists>h w3. getHistoricalPrices world0 = (Inr (History h), w3) \<and>
       series_gasoline95 h ! 29 = lit 3842 2 \<and>
       series_gasohol95 h ! 29 = lit 3689 2 \<and>
       series_dieselB7 h ! 29 = lit 3244 2)"
proof -
  have miss: "fst (getFromCache ''historical_prices'' (lit 21600 0) world0) = Inr None"
    by (simp add: getFromCache_eq world0_def)
  have cur: "getCurrentPrices (snd (getFromCache ''historical_prices'' (lit 21600 0) world0))
      = (Inr (Prices (getFallbackPrices 0)),
         snd (getCurrentPrices (snd (getFromCache ''historical_prices'' (lit 21600 0) world0))))"
    using getCurrentPrices_world0 by (metis prod.collapse)
  from last_of_series_is_current_price[of _ _ _ world0 "getFallbackPrices 0", THEN conjunct2, rule_format, OF miss cur]
  show ?thesis using miss by (auto simp: getFallbackPrices_def)
qed


section \<open>World prices: the \<^verbatim>\<open>try\<close> block\<close>

lemma fetchExchangeRate_resolves: "\<exists>r. fst (fetchExchangeRate w) = Inr r"
  by (cases "fetchExchangeRate_try w")
     (auto simp: fetchExchangeRate_def try_catch_def await_def resolve_def split: sum.splits)

lemma getWorldPrices_try_eq:
  assumes "fetchExchangeRate w = (Inr ex, wa)"
  shows "getWorldPrices_try w =
     (Inr (WorldPrices (fst (worldData ex wa))),
      snd (saveToCache ''world_prices'' (WorldPrices (fst (worldData ex wa))) (lit 3600 0)
             (snd (worldData ex wa))))"
  by (cases "worldData ex wa")
     (simp add: getWorldPrices_try_def await_def assms saveToCache_eq resolve_def)

lemma getWorldPrices_eq:
  "getWorldPrices w =
     (case fst (getFromCache ''world_prices'' (lit 3600 0) w) of
        Inr (Some d) \<Rightarrow> (Inr d, snd (getFromCache ''world_prices'' (lit 3600 0) w))
      | _ \<Rightarrow> try_catch getWorldPrices_try (\<lambda>error. resolve (WorldPrices getFallbackWorldPrices))
               (snd (getFromCache ''world_prices'' (lit 3600 0) w)))"
  by (simp add: getWorldPrices_def await_def getFromCache_eq resolve_def split: option.splits)

section \<open>Current prices: fetch failures and cache failures\<close>

lemma fetchCurrentPrices_eq:
  "fetchCurrentPrices w =
     (let w2 = external_call (Fetch BANGCHAK_API_URL) w in
      case http w BANGCHAK_API_URL of
        NetworkFailure \<Rightarrow> (Inl FetchError, w2)
      | Response st b \<Rightarrow>
          if \<not> (200 \<le> st \<and> st \<le> 299) then (Inl (BangchakStatus st), w2)
          else case b of
                 None \<Rightarrow> (Inl SyntaxError, w2)
               | Some v \<Rightarrow>
                   (case transformBangchakData (clock w2) v of
                      Inl e \<Rightarrow> (Inl e, w2)
                    | Inr cp \<Rightarrow>
                        (Inr (Prices cp),
                         snd (saveToCache ''current_prices'' (Prices cp) CACHE_DURATION_SECONDS w2))))"
  by (simp add: fetchCurrentPrices_def await_def fetch_def reject_def resolve_def sync_def
      saveToCache_eq Let_def split: fetch_outcome.splits option.splits sum.splits)

lemma fetchCurrentPrices_rejected:
  assumes "fetchCurrentPrices w = (Inl e, w')"
  shows "w' = external_call (Fetch BANGCHAK_API_URL) w"
  using assms
  by (auto simp: fetchCurrentPrices_eq Let_def split: fetch_outcome.splits option.splits sum.splits if_splits)



lemma getCurrentPrices_miss:
  assumes "fst (getFromCache ''current_prices'' CACHE_DURATION_SECONDS w) = Inr None"
  shows "getCurrentPrices w =
     (case fetchCurrentPrices (external_call (GetCommand ''current_prices'') w) of
        (Inl e, w') \<Rightarrow> (Inr (Prices (getFallbackPrices (clock w'))), w')
      | (Inr d, w') \<Rightarrow> (Inr d, w'))"
proof -
  have "getFromCache ''current_prices'' CACHE_DURATION_SECONDS w
      = (Inr None, external_call (GetCommand ''current_prices'') w)"
    using assms getFromCache_eq[of "''current_prices''" CACHE_DURATION_SECONDS w] by simp
  then show ?thesis
    by (simp add: getCurrentPrices_def await_def try_catch_def split: prod.splits sum.splits)
qed

text \<open>
  Claim C5. When \<^verbatim>\<open>/prices\<close> misses the cache and the provider answers with a
  status outside 200..299 (503, say), the handler answers 200 with the fallback
  snapshot of \<^verbatim>\<open>getFallbackPrices\<close>, whose eight prices are the constants of the
  source; it does not answer 500.
\<close>

theorem prices_fallback_on_bad_status:
  assumes miss: "fst (getFromCache ''current_prices'' CACHE_DURATION_SECONDS w) = Inr None"
      and resp: "http w BANGCHAK_API_URL = Response st b"
      and bad: "\<not> (200 \<le> st \<and> st \<le> 299)"
  shows "\<exists>w'. get_prices w = (\<lparr>status = 200, body = Json (Prices (getFallbackPrices (clock w')))\<rparr>, w') \<and>
           map (\<lambda>grade. price (grade (getFallbackPrices (clock w'))))
             [gasoline95, gasoline91, gasohol95, gasohol91, e20, e85, dieselB7, dieselB20]
           = [lit 3842 2, lit 3567 2, lit 3689 2, lit 3412 2,
              lit 3255 2, lit 2890 2, lit 3244 2, lit 3189 2]"
proof -
  let ?w1 = "external_call (GetCommand ''current_prices'') w"
  let ?w2 = "external_call (Fetch BANGCHAK_API_URL) ?w1"
  have h: "http ?w1 BANGCHAK_API_URL = Response st b" using resp by (simp add: external_call_def)
  have f: "fetchCurrentPrices ?w1 = (Inl (BangchakStatus st), ?w2)"
    using bad by (simp add: fetchCurrentPrices_eq h Let_def)
  have "get_prices w = (\<lparr>status = 200, body = Json (Prices (getFallbackPrices (clock ?w2)))\<rparr>, ?w2)"
    by (simp add: get_prices_def handler_def getCurrentPrices_miss[OF miss] f)
  then show ?thesis by (auto simp: getFallbackPrices_def)
qed

theorem prices_fallback_on_bad_status_witness:
  "fst (getFromCache ''current_prices'' CACHE_DURATION_SECONDS world_503) = Inr None \<and>
   http world_503 BANGCHAK_API_URL = Response 503 None \<and>
   (\<exists>w'. get_prices world_503 =
      (\<lparr>status = 200, body = Json (Prices (getFallbackPrices (clock w')))\<rparr>, w'))"
proof -
  have miss: "fst (getFromCache ''current_prices'' CACHE_DURATION_SECONDS world_503) = Inr None"
    by (simp add: getFromCache_eq world_503_def world0_def)
  have resp: "http world_503 BANGCHAK_API_URL = Response 503 None"
    by (simp add: world_503_def)
  have bad: "\<not> (200 \<le> (503::nat) \<and> (503::nat) \<le> 299)" by simp
  from prices_fallback_on_bad_status[OF miss resp bad] miss resp show ?thesis by blast
qed



section \<open>Evaluating literals\<close>

lemma floor_rat_one_divide:
  "\<lfloor>(1 / numeral b :: rat)\<rfloor> = 1 div numeral b"
  using floor_divide_of_int_eq[of 1 "numeral b", where ?'a = rat] by simp

lemmas floor_eval = floor_rat_numeral_divide floor_rat_one_divide

lemma lit_3485: "lit 3485 2 = Fin (4904701469183181 / 140737488355328)"
  unfolding lit_def using fl_at[of "5" "3485 / 100"] by (simp add: round_even_eval)

lemma lit_0: "lit 0 0 = Fin 0"
  by (simp add: lit_def fl_zero)

lemma thb_fallback_rounded:
  "round_quote \<lparr>price = lit 3485 2, change = lit 0 0\<rparr> = \<lparr>price = lit 3485 2, change = lit 0 0\<rparr>"
proof -
  have p: "parseFloat_text (toFixed2 (lit 3485 2)) = lit 3485 2"
    unfolding lit_3485 using lit_3485 by (simp add: round_half_away_def floor_eval lit_def)
  have c: "parseFloat_text (toFixed2 (lit 0 0)) = lit 0 0"
    unfolding lit_0 by (simp add: round_half_away_def fl_zero floor_eval)
  show ?thesis by (simp add: round_quote_def p c)
qed

lemma worldData_thb_fallback:
  "thb (fst (worldData None w)) = \<lparr>price = lit 3485 2, change = lit 0 0\<rparr>"
  by (simp add: worldData_def Let_def thb_fallback_rounded split: prod.splits)

section \<open>Fallback values and the cache\<close>

lemma external_call_simps:
  "trace (external_call ev w) = trace w @ [ev]"
  "table (external_call ev w) = table w"
  "db_fails (external_call ev w) = db_fails w"
  "latency (external_call ev w) = latency w"
  "http (external_call ev w) = http w"
  "entropy (external_call ev w) = entropy w"
  "draws (external_call ev w) = draws w"
  "clock (external_call ev w) = clock w + int (latency w (length (trace w)))"
  by (simp_all add: external_call_def)

text \<open>What the \<^verbatim>\<open>try\<close> block of \<^verbatim>\<open>fetchExchangeRate\<close> reads from a parsed body.\<close>

lemma fetchExchangeRate_try_eq:
  "fetchExchangeRate_try w =
     (let w2 = external_call (Fetch ''https://api.exchangerate-api.com/v4/latest/USD'') w in
      case http w ''https://api.exchangerate-api.com/v4/latest/USD'' of
        NetworkFailure \<Rightarrow> (Inl FetchError, w2)
      | Response st b \<Rightarrow>
          if \<not> (200 \<le> st \<and> st \<le> 299) then (Inl ExchangeRateFailed, w2)
          else case b of
                 None \<Rightarrow> (Inl SyntaxError, w2)
               | Some d \<Rightarrow>
                   (case and_then (get_prop d ''rates'') (\<lambda>rates. get_prop_of rates ''THB'') of
                      Inl e \<Rightarrow> (Inl e, w2)
                    | Inr rate \<Rightarrow>
                        (case rate of
                           Some (JNum x) \<Rightarrow>
                             (Inr \<lparr>price = parseFloat_text (toFixed2 x),
                                   change = num_mul (num_sub (Fin (entropy w (draws w))) (lit 5 1)) (lit 2 1)\<rparr>,
                              w2\<lparr>draws := Suc (draws w)\<rparr>)
                         | _ \<Rightarrow> (Inl TypeError, w2))))"
proof -
  let ?u = "''https://api.exchangerate-api.com/v4/latest/USD''"
  show ?thesis
  proof (cases "http w ?u")
    case NetworkFailure
    then show ?thesis by (simp add: fetchExchangeRate_try_def await_def fetch_def Let_def)
  next
    case (Response st b)
    show ?thesis
    proof (cases "200 \<le> st \<and> st \<le> 299")
      case False
      then show ?thesis
        by (simp add: fetchExchangeRate_try_def await_def fetch_def Let_def Response reject_def)
    next
      case True
      show ?thesis
      proof (cases b)
        case None
        then show ?thesis using True
          by (simp add: fetchExchangeRate_try_def await_def fetch_def Let_def Response reject_def)
      next
        case (Some d)
        show ?thesis
        proof (cases "and_then (get_prop d ''rates'') (\<lambda>rates. get_prop_of rates ''THB'')")
          case (Inl e)
          then show ?thesis using True
            by (simp add: fetchExchangeRate_try_def await_def fetch_def Let_def Response Some
                resolve_def sync_def)
        next
          case (Inr rate)
          then show ?thesis using True
            by (simp add: fetchExchangeRate_try_def await_def fetch_def Let_def Response Some
                resolve_def sync_def reject_def Math_random_def external_call_simps
                split: option.splits json.splits)
        qed
      qed
    qed
  qed
qed

lemma fetchExchangeRate_eq:
  "fetchExchangeRate w =
     (case fetchExchangeRate_try w of (Inl e, w') \<Rightarrow> (Inr None, w') | (Inr q, w') \<Rightarrow> (Inr (Some q), w'))"
  by (simp add: fetchExchangeRate_def try_catch_def await_def resolve_def split: prod.splits sum.splits)

lemma fetchExchangeRate_try_rejected:
  assumes "fetchExchangeRate_try w = (Inl e, w')"
  shows "w' = external_call (Fetch ''https://api.exchangerate-api.com/v4/latest/USD'') w"
  using assms unfolding fetchExchangeRate_try_eq Let_def
  by (simp split: fetch_outcome.splits if_splits option.splits sum.splits json.splits)

lemma fetchExchangeRate_absent_world:
  assumes "fetchExchangeRate w = (Inr None, w')"
  shows "w' = external_call (Fetch ''https://api.exchangerate-api.com/v4/latest/USD'') w"
proof (cases "fetchExchangeRate_try w")
  case (Pair r w'')
  show ?thesis
  proof (cases r)
    case (Inl e)
    then show ?thesis using assms Pair fetchExchangeRate_try_rejected[of w e w'']
      by (simp add: fetchExchangeRate_eq)
  next
    case (Inr q)
    then show ?thesis using assms Pair by (simp add: fetchExchangeRate_eq)
  qed
qed

lemma Math_random_frame:
  "trace (snd (Math_random w)) = trace w \<and> table (snd (Math_random w)) = table w \<and>
   db_fails (snd (Math_random w)) = db_fails w \<and> clock (snd (Math_random w)) = clock w \<and>
   latency (snd (Math_random w)) = latency w \<and> http (snd (Math_random w)) = http w \<and>
   entropy (snd (Math_random w)) = entropy w"
  by (simp add: Math_random_def)

lemma benchmark_frame:
  "trace (snd (benchmark b w)) = trace w \<and> table (snd (benchmark b w)) = table w \<and>
   db_fails (snd (benchmark b w)) = db_fails w \<and> clock (snd (benchmark b w)) = clock w \<and>
   latency (snd (benchmark b w)) = latency w \<and> http (snd (benchmark b w)) = http w \<and>
   entropy (snd (benchmark b w)) = entropy w"
  by (simp add: benchmark_def Math_random_def Let_def)

lemma worldData_frame:
  "trace (snd (worldData ex w)) = trace w \<and> table (snd (worldData ex w)) = table w \<and>
   db_fails (snd (worldData ex w)) = db_fails w \<and> clock (snd (worldData ex w)) = clock w"
  by (simp add: worldData_def benchmark_def Math_random_def Let_def)

lemma getWorldPrices_rate_absent:
  assumes miss: "fst (getFromCache ''world_prices'' (lit 3600 0) w) = Inr None"
      and absent: "fst (fetchExchangeRate (external_call (GetCommand ''world_prices'') w)) = Inr None"
  shows "\<exists>d it w'. getWorldPrices w = (Inr (WorldPrices d), w') \<and>
            thb d = \<lparr>price = lit 3485 2, change = lit 0 0\<rparr> \<and>
            cacheKey it = ''world_prices'' \<and> data it = WorldPrices d \<and>
            trace w' = trace w @ [GetCommand ''world_prices'',
                                  Fetch ''https://api.exchangerate-api.com/v4/latest/USD'',
                                  PutCommand it] \<and>
            (\<not> db_fails w (length (trace w) + 2) \<longrightarrow> table w' ''world_prices'' = Some it)"
proof -
  let ?w1 = "external_call (GetCommand ''world_prices'') w"
  let ?w2 = "external_call (Fetch ''https://api.exchangerate-api.com/v4/latest/USD'') ?w1"
  have g: "getFromCache ''world_prices'' (lit 3600 0) w = (Inr None, ?w1)"
    using miss getFromCache_eq[of "''world_prices''" "lit 3600 0" w] by simp
  have f: "fetchExchangeRate ?w1 = (Inr None, ?w2)"
    using absent fetchExchangeRate_absent_world[of ?w1 "snd (fetchExchangeRate ?w1)"]
    by (metis prod.collapse)
  let ?d = "fst (worldData None ?w2)"
  let ?w3 = "snd (worldData None ?w2)"
  let ?it = "\<lparr>cacheKey = ''world_prices'', data = WorldPrices ?d, timestamp = ISOString (clock ?w3),
              ttl = num_add (Math_floor (num_div (Date_now ?w3) (lit 1000 0))) (lit 3600 0)\<rparr>"
  let ?w4 = "snd (saveToCache ''world_prices'' (WorldPrices ?d) (lit 3600 0) ?w3)"
  have t: "getWorldPrices_try ?w1 = (Inr (WorldPrices ?d), ?w4)"
    by (rule getWorldPrices_try_eq[OF f])
  have r: "getWorldPrices w = (Inr (WorldPrices ?d), ?w4)"
    by (simp add: getWorldPrices_def await_def g try_catch_def t)
  have tr3: "trace ?w3 = trace w @ [GetCommand ''world_prices'',
                                  Fetch ''https://api.exchangerate-api.com/v4/latest/USD'']"
    by (simp add: worldData_frame external_call_simps)
  have db3: "db_fails ?w3 = db_fails w" by (simp add: worldData_frame external_call_simps)
  have tr: "trace ?w4 = trace w @ [GetCommand ''world_prices'',
                                  Fetch ''https://api.exchangerate-api.com/v4/latest/USD'',
                                  PutCommand ?it]"
    by (simp add: saveToCache_eq Let_def tr3 external_call_simps)
  have tb: "\<not> db_fails w (length (trace w) + 2) \<longrightarrow> table ?w4 ''world_prices'' = Some ?it"
    by (simp add: saveToCache_eq Let_def tr3 db3 external_call_simps)
  show ?thesis
    using r worldData_thb_fallback[of ?w2] tr tb
    by (intro exI[of _ ?d] exI[of _ ?it] exI[of _ ?w4]) simp
qed

lemma getCurrentPrices_rejected:
  assumes miss: "fst (getFromCache ''current_prices'' CACHE_DURATION_SECONDS w) = Inr None"
      and rej: "fst (fetchCurrentPrices (external_call (GetCommand ''current_prices'') w)) = Inl e"
  shows "\<exists>w'. getCurrentPrices w = (Inr (Prices (getFallbackPrices (clock w'))), w') \<and>
            table w' = table w \<and>
            trace w' = trace w @ [GetCommand ''current_prices'', Fetch BANGCHAK_API_URL]"
proof -
  let ?w1 = "external_call (GetCommand ''current_prices'') w"
  let ?w2 = "external_call (Fetch BANGCHAK_API_URL) ?w1"
  have f: "fetchCurrentPrices ?w1 = (Inl e, ?w2)"
    using rej fetchCurrentPrices_rejected[of ?w1 e "snd (fetchCurrentPrices ?w1)"]
    by (metis prod.collapse)
  have "getCurrentPrices w = (Inr (Prices (getFallbackPrices (clock ?w2))), ?w2)"
    by (simp add: getCurrentPrices_miss[OF miss] f)
  moreover have "table ?w2 = table w" by (simp add: external_call_simps)
  moreover have "trace ?w2 = trace w @ [GetCommand ''current_prices'', Fetch BANGCHAK_API_URL]"
    by (simp add: external_call_simps)
  ultimately show ?thesis by blast
qed

lemma world0_miss: "fst (getFromCache key maxAge world0) = Inr None"
  by (simp add: getFromCache_eq world0_def)

lemma world0_rate_absent:
  "fst (fetchExchangeRate (external_call (GetCommand ''world_prices'') world0)) = Inr None"
  by (simp add: fetchExchangeRate_eq fetchExchangeRate_try_eq Let_def external_call_simps world0_def)

lemma world0_prices_rejected:
  "fst (fetchCurrentPrices (external_call (GetCommand ''current_prices'') world0)) = Inl FetchError"
  by (simp add: fetchCurrentPrices_eq world0_def external_call_def Let_def)

text \<open>
  Claim C1, as the code has it. When \<^verbatim>\<open>getCurrentPrices\<close> misses the cache and its
  fetch fails (the \<^verbatim>\<open>try\<close> block rejects, for whatever reason), it returns the
  fallback snapshot and the only external calls it made are the cache read and the
  fetch: no put, and the table is unchanged. \<^verbatim>\<open>getWorldPrices\<close> is different: when it
  misses the cache and \<^verbatim>\<open>fetchExchangeRate\<close> returns absent, the payload it generates
  has the fixed fallback currency quote \<^verbatim>\<open>{price: 34.85, change: 0}\<close> as \<^verbatim>\<open>thb\<close>, and
  \<^verbatim>\<open>saveToCache\<close> is called with that payload (the put is the last external call, and
  the item is in the table afterwards unless the store rejects the put).
\<close>

theorem fallback_and_the_cache:
  "(fst (getFromCache ''current_prices'' CACHE_DURATION_SECONDS w) = Inr None \<longrightarrow>
      fst (fetchCurrentPrices (external_call (GetCommand ''current_prices'') w)) = Inl e \<longrightarrow>
      (\<exists>w'. getCurrentPrices w = (Inr (Prices (getFallbackPrices (clock w'))), w') \<and>
            table w' = table w \<and>
            trace w' = trace w @ [GetCommand ''current_prices'', Fetch BANGCHAK_API_URL])) \<and>
   (fst (getFromCache ''world_prices'' (lit 3600 0) w) = Inr None \<longrightarrow>
      fst (fetchExchangeRate (external_call (GetCommand ''world_prices'') w)) = Inr None \<longrightarrow>
      (\<exists>d it w'. getWorldPrices w = (Inr (WorldPrices d), w') \<and>
            thb d = \<lparr>price = lit 3485 2, change = lit 0 0\<rparr> \<and>
            cacheKey it = ''world_prices'' \<and> data it = WorldPrices d \<and>
            trace w' = trace w @ [GetCommand ''world_prices'',
                                  Fetch ''https://api.exchangerate-api.com/v4/latest/USD'',
                                  PutCommand it] \<and>
            (\<not> db_fails w (length (trace w) + 2) \<longrightarrow> table w' ''world_prices'' = Some it)))"
  using getCurrentPrices_rejected getWorldPrices_rate_absent by blast

theorem fallback_and_the_cache_witness:
  "fst (getFromCache ''current_prices'' CACHE_DURATION_SECONDS world0) = Inr None \<and>
   fst (fetchCurrentPrices (external_call (GetCommand ''current_prices'') world0)) = Inl FetchError \<and>
   (\<exists>w'. getCurrentPrices world0 = (Inr (Prices (getFallbackPrices (clock w'))), w') \<and>
      table w' = table world0 \<and>
      trace w' = [GetCommand ''current_prices'', Fetch BANGCHAK_API_URL]) \<and>
   fst (getFromCache ''world_prices'' (lit 3600 0) world0) = Inr None \<and>
   fst (fetchExchangeRate (external_call (GetCommand ''world_prices'') world0)) = Inr None \<and>
   (\<exists>d it w'. getWorldPrices world0 = (Inr (WorldPrices d), w') \<and>
      thb d = \<lparr>price = lit 3485 2, change = lit 0 0\<rparr> \<and> data it = WorldPrices d \<and>
      table w' ''world_prices'' = Some it)"
proof -
  have nf: "\<not> db_fails world0 (length (trace world0) + 2)" by (simp add: world0_def)
  have tr: "trace world0 = []" by (simp add: world0_def)
  from fallback_and_the_cache[of world0 FetchError] world0_miss world0_rate_absent
    world0_prices_rejected nf tr
  show ?thesis by (simp del: One_nat_def) blast
qed

text \<open>
  The claim as it was stated fails in \<open>world0\<close>: the exchange-rate fetch returns absent
  and the table ends up holding, under \<^verbatim>\<open>world_prices\<close>, a payload whose \<^verbatim>\<open>thb\<close> is the
  fallback quote.
\<close>

theorem fallback_quote_is_cached:
  "fst (fetchExchangeRate (external_call (GetCommand ''world_prices'') world0)) = Inr None \<and>
   map_option (\<lambda>it. case data it of WorldPrices d \<Rightarrow> Some (thb d) | _ \<Rightarrow> None)
     (table (snd (getWorldPrices world0)) ''world_prices'')
   = Some (Some \<lparr>price = lit 3485 2, change = lit 0 0\<rparr>)"
proof -
  have nf: "\<not> db_fails world0 (length (trace world0) + 2)" by (simp add: world0_def)
  from getWorldPrices_rate_absent[OF world0_miss world0_rate_absent] nf
  obtain d it w' where "getWorldPrices world0 = (Inr (WorldPrices d), w')"
    "thb d = \<lparr>price = lit 3485 2, change = lit 0 0\<rparr>" "data it = WorldPrices d"
    "table w' ''world_prices'' = Some it" by blast
  then show ?thesis using world0_rate_absent by simp
qed

section \<open>Brand comparison\<close>

lemma lit_3842_2: "lit 3842 2 = Fin (2703567151305851 / 70368744177664)"
  unfolding lit_def using fl_at[of "5" "3842 / 100"] by (simp add: round_even_eval)

lemma lit_5_2: "lit 5 2 = Fin (3602879701896397 / 72057594037927936)"
  unfolding lit_def using fl_at[of "-5" "5 / 100"] by (simp add: round_even_eval)

lemma lit_8_2: "lit 8 2 = Fin (5764607523034235 / 72057594037927936)"
  unfolding lit_def using fl_at[of "-4" "8 / 100"] by (simp add: round_even_eval)

lemma lit_6_2: "lit 6 2 = Fin (1080863910568919 / 18014398509481984)"
  unfolding lit_def using fl_at[of "-5" "6 / 100"] by (simp add: round_even_eval)

lemma lit_4_2: "lit 4 2 = Fin (5764607523034235 / 144115188075855872)"
  unfolding lit_def using fl_at[of "-5" "4 / 100"] by (simp add: round_even_eval)

lemma adjust_3842_5: "adjustPrice (lit 3842 2) (lit 5 2) = lit 3847 2"
proof -
  have s: "fl (2703567151305851 / 70368744177664 + 3602879701896397 / 72057594037927936) = Fin (1353542794257367 / 35184372088832)"
    using fl_at[of "5" "2703567151305851 / 70368744177664 + 3602879701896397 / 72057594037927936"] by (simp add: round_even_eval)
  show ?thesis
    unfolding adjustPrice_def lit_3842_2 lit_5_2 num_add.simps s
    by (simp add: round_half_away_def floor_eval lit_def)
qed

lemma adjust_3842_8: "adjustPrice (lit 3842 2) (lit 8 2) = lit 3850 2"
proof -
  have s: "fl (2703567151305851 / 70368744177664 + 5764607523034235 / 72057594037927936) = Fin (77 / 2)"
    using fl_at[of "5" "2703567151305851 / 70368744177664 + 5764607523034235 / 72057594037927936"] by (simp add: round_even_eval)
  show ?thesis
    unfolding adjustPrice_def lit_3842_2 lit_8_2 num_add.simps s
    by (simp add: round_half_away_def floor_eval lit_def)
qed

lemma adjust_3842_6: "adjustPrice (lit 3842 2) (lit 6 2) = lit 3848 2"
proof -
  have s: "fl (2703567151305851 / 70368744177664 + 1080863910568919 / 18014398509481984) = Fin (2707789275956511 / 70368744177664)"
    using fl_at[of "5" "2703567151305851 / 70368744177664 + 1080863910568919 / 18014398509481984"] by (simp add: round_even_eval)
  show ?thesis
    unfolding adjustPrice_def lit_3842_2 lit_6_2 num_add.simps s
    by (simp add: round_half_away_def floor_eval lit_def)
qed

lemma adjust_3842_4: "adjustPrice (lit 3842 2) (lit 4 2) = lit 3846 2"
proof -
  have s: "fl (2703567151305851 / 70368744177664 + 5764607523034235 / 144115188075855872) = Fin (5412763802145915 / 140737488355328)"
    using fl_at[of "5" "2703567151305851 / 70368744177664 + 5764607523034235 / 144115188075855872"] by (simp add: round_even_eval)
  show ?thesis
    unfolding adjustPrice_def lit_3842_2 lit_4_2 num_add.simps s
    by (simp add: round_half_away_def floor_eval lit_def)
qed

lemma adjustPrice_finite:
  assumes "\<bar>a + b\<bar> \<le> 10 ^ 19"
  shows "adjustPrice (Fin a) (Fin b) = fl (of_int (round_half_away (round_double (a + b) * 100)) / 100)"
proof -
  have "(10::rat) ^ 19 \<le> 2 powi 66" by simp
  then have le: "\<bar>a + b\<bar> \<le> 2 powi 66" using assms by simp
  have f: "fl (a + b) = Fin (round_double (a + b))" using le by (rule fl_bounded) simp_all
  have "\<bar>round_double (a + b)\<bar> \<le> 2 powi 66" using le by (rule round_double_bound) simp
  also have "(2::rat) powi 66 < 10 ^ 21" by simp
  finally have "\<not> 10 ^ 21 \<le> \<bar>round_double (a + b)\<bar>" by simp
  then show ?thesis by (simp add: adjustPrice_def f)
qed

lemma getBrandComparison_miss:
  assumes miss: "fst (getFromCache ''brand_comparison'' CACHE_DURATION_SECONDS w) = Inr None"
      and cur: "getCurrentPrices (external_call (GetCommand ''brand_comparison'') w) = (Inr (Prices cp), w2)"
  shows "\<exists>w'. getBrandComparison w = (Inr (Brands (brandData cp)), w')"
proof -
  have g: "getFromCache ''brand_comparison'' CACHE_DURATION_SECONDS w
      = (Inr None, external_call (GetCommand ''brand_comparison'') w)"
    using miss getFromCache_eq[of "''brand_comparison''" CACHE_DURATION_SECONDS w] by simp
  show ?thesis
    by (simp add: getBrandComparison_def await_def g cur sync_def saveToCache_eq resolve_def)
qed

lemma brand_columns:
  "map gasoline_brand (gasoline (brandData cp)) = [''Bangchak'', ''PTT'', ''Shell'', ''Esso'', ''Caltex'']"
  "map g95 (gasoline (brandData cp)) =
     [price (gasoline95 cp), adjustPrice (price (gasoline95 cp)) (lit 5 2),
      adjustPrice (price (gasoline95 cp)) (lit 8 2), adjustPrice (price (gasoline95 cp)) (lit 6 2),
      adjustPrice (price (gasoline95 cp)) (lit 4 2)]"
  "map g91 (gasoline (brandData cp)) =
     [price (gasoline91 cp), adjustPrice (price (gasoline91 cp)) (lit 5 2),
      adjustPrice (price (gasoline91 cp)) (lit 8 2), adjustPrice (price (gasoline91 cp)) (lit 6 2),
      adjustPrice (price (gasoline91 cp)) (lit 4 2)]"
  "map gasohol_brand (gasohol (brandData cp)) = [''Bangchak'', ''PTT'', ''Shell'', ''Esso'']"
  "map gh95 (gasohol (brandData cp)) =
     [price (gasohol95 cp), adjustPrice (price (gasohol95 cp)) (lit 5 2),
      adjustPrice (price (gasohol95 cp)) (lit 7 2), adjustPrice (price (gasohol95 cp)) (lit 6 2)]"
  "map gh91 (gasohol (brandData cp)) =
     [price (gasohol91 cp), adjustPrice (price (gasohol91 cp)) (lit 5 2),
      adjustPrice (price (gasohol91 cp)) (lit 7 2), adjustPrice (price (gasohol91 cp)) (lit 6 2)]"
  "map gh_e20 (gasohol (brandData cp)) =
     [price (e20 cp), adjustPrice (price (e20 cp)) (lit 4 2),
      adjustPrice (price (e20 cp)) (lit 6 2), adjustPrice (price (e20 cp)) (lit 5 2)]"
  "map diesel_brand (diesel (brandData cp)) = [''Bangchak'', ''PTT'', ''Shell'', ''Esso'']"
  "map b7 (diesel (brandData cp)) =
     [price (dieselB7 cp), adjustPrice (price (dieselB7 cp)) (lit 5 2),
      adjustPrice (price (dieselB7 cp)) (lit 8 2), adjustPrice (price (dieselB7 cp)) (lit 6 2)]"
  "map b20 (diesel (brandData cp)) =
     [price (dieselB20 cp), adjustPrice (price (dieselB20 cp)) (lit 5 2),
      adjustPrice (price (dieselB20 cp)) (lit 8 2), adjustPrice (price (dieselB20 cp)) (lit 6 2)]"
  by (simp_all add: brandData_def)

lemma brand_g95_example:
  assumes "price (gasoline95 cp) = lit 3842 2"
  shows "map g95 (gasoline (brandData cp)) = [lit 3842 2, lit 3847 2, lit 3850 2, lit 3848 2, lit 3846 2]"
  by (simp only: brand_columns(2) assms adjust_3842_5 adjust_3842_8 adjust_3842_6 adjust_3842_4)

lemma world0_current_prices:
  "fst (getCurrentPrices (external_call ev world0)) = Inr (Prices (getFallbackPrices 0))"
  by (simp add: getCurrentPrices_def getFromCache_eq await_def try_catch_def fetchCurrentPrices_eq
      Let_def external_call_simps world0_def)

text \<open>
  Claim C3. On a cache miss \<^verbatim>\<open>getBrandComparison\<close> returns \<open>brandData cp\<close>, a function of
  the current prices \<open>cp\<close> alone. In each category the first row is Bangchak with the
  current price itself, and every other brand's value is \<^verbatim>\<open>adjustPrice\<close> of the current
  price and a fixed offset: +0.05, +0.08, +0.06, +0.04 for PTT, Shell, Esso, Caltex on
  gasoline; +0.05, +0.07, +0.06 on gasohol 95 and 91 and +0.04, +0.06, +0.05 on E20 for
  PTT, Shell, Esso; +0.05, +0.08, +0.06 on diesel. \<^verbatim>\<open>adjustPrice\<close> adds the offset (in
  binary64) and rounds to two decimals. With gasoline95 = 38.42 the g95 column is
  38.42, 38.47, 38.50, 38.48, 38.46.
\<close>

theorem brand_offsets_fixed:
  "(fst (getFromCache ''brand_comparison'' CACHE_DURATION_SECONDS w) = Inr None \<longrightarrow>
    getCurrentPrices (external_call (GetCommand ''brand_comparison'') w) = (Inr (Prices cp), w2) \<longrightarrow>
    (\<exists>w'. getBrandComparison w = (Inr (Brands (brandData cp)), w'))) \<and>
   map gasoline_brand (gasoline (brandData cp)) = [''Bangchak'', ''PTT'', ''Shell'', ''Esso'', ''Caltex''] \<and>
   map g95 (gasoline (brandData cp)) =
     [price (gasoline95 cp), adjustPrice (price (gasoline95 cp)) (lit 5 2),
      adjustPrice (price (gasoline95 cp)) (lit 8 2), adjustPrice (price (gasoline95 cp)) (lit 6 2),
      adjustPrice (price (gasoline95 cp)) (lit 4 2)] \<and>
   map g91 (gasoline (brandData cp)) =
     [price (gasoline91 cp), adjustPrice (price (gasoline91 cp)) (lit 5 2),
      adjustPrice (price (gasoline91 cp)) (lit 8 2), adjustPrice (price (gasoline91 cp)) (lit 6 2),
      adjustPrice (price (gasoline91 cp)) (lit 4 2)] \<and>
   map gasohol_brand (gasohol (brandData cp)) = [''Bangchak'', ''PTT'', ''Shell'', ''Esso''] \<and>
   map gh95 (gasohol (brandData cp)) =
     [price (gasohol95 cp), adjustPrice (price (gasohol95 cp)) (lit 5 2),
      adjustPrice (price (gasohol95 cp)) (lit 7 2), adjustPrice (price (gasohol95 cp)) (lit 6 2)] \<and>
   map gh91 (gasohol (brandData cp)) =
     [price (gasohol91 cp), adjustPrice (price (gasohol91 cp)) (lit 5 2),
      adjustPrice (price (gasohol91 cp)) (lit 7 2), adjustPrice (price (gasohol91 cp)) (lit 6 2)] \<and>
   map gh_e20 (gasohol (brandData cp)) =
     [price (e20 cp), adjustPrice (price (e20 cp)) (lit 4 2),
      adjustPrice (price (e20 cp)) (lit 6 2), adjustPrice (price (e20 cp)) (lit 5 2)] \<and>
   map diesel_brand (diesel (brandData cp)) = [''Bangchak'', ''PTT'', ''Shell'', ''Esso''] \<and>
   map b7 (diesel (brandData cp)) =
     [price (dieselB7 cp), adjustPrice (price (dieselB7 cp)) (lit 5 2),
      adjustPrice (price (dieselB7 cp)) (lit 8 2), adjustPrice (price (dieselB7 cp)) (lit 6 2)] \<and>
   map b20 (diesel (brandData cp)) =
     [price (dieselB20 cp), adjustPrice (price (dieselB20 cp)) (lit 5 2),
      adjustPrice (price (dieselB20 cp)) (lit 8 2), adjustPrice (price (dieselB20 cp)) (lit 6 2)] \<and>
   (\<bar>a + b\<bar> \<le> 10 ^ 19 \<longrightarrow>
      adjustPrice (Fin a) (Fin b) = fl (of_int (round_half_away (round_double (a + b) * 100)) / 100)) \<and>
   (price (gasoline95 cp) = lit 3842 2 \<longrightarrow>
      map g95 (gasoline (brandData cp)) = [lit 3842 2, lit 3847 2, lit 3850 2, lit 3848 2, lit 3846 2])"
  using getBrandComparison_miss[of w cp w2] brand_columns[of cp] adjustPrice_finite[of a b]
    brand_g95_example[of cp]
  by (intro conjI impI) blast+

theorem brand_offsets_fixed_witness:
  "fst (getFromCache ''brand_comparison'' CACHE_DURATION_SECONDS world0) = Inr None \<and>
   price (gasoline95 (getFallbackPrices 0)) = lit 3842 2 \<and>
   (\<exists>w'. getBrandComparison world0 = (Inr (Brands (brandData (getFallbackPrices 0))), w')) \<and>
   map g95 (gasoline (brandData (getFallbackPrices 0)))
     = [lit 3842 2, lit 3847 2, lit 3850 2, lit 3848 2, lit 3846 2]"
proof -
  have p: "price (gasoline95 (getFallbackPrices 0)) = lit 3842 2" by (simp add: getFallbackPrices_def)
  have cur: "getCurrentPrices (external_call (GetCommand ''brand_comparison'') world0)
      = (Inr (Prices (getFallbackPrices 0)),
         snd (getCurrentPrices (external_call (GetCommand ''brand_comparison'') world0)))"
    using world0_current_prices[of "GetCommand ''brand_comparison''"] by (metis prod.collapse)
  from brand_offsets_fixed[of world0 "getFallbackPrices 0" _ 0 0] world0_miss p cur
  show ?thesis by blast
qed

section \<open>World prices: the ranges\<close>

lemma round_half_away_mono:
  assumes "y \<le> z"
  shows "round_half_away y \<le> round_half_away z"
proof -
  consider "z < 0" | "y < 0" "0 \<le> z" | "0 \<le> y" by linarith
  then show ?thesis
  proof cases
    case 1
    then have y: "y < 0" using assms by simp
    have m: "\<lfloor>- z + 1 / 2\<rfloor> \<le> \<lfloor>- y + 1 / 2\<rfloor>" using assms by (intro floor_mono) simp
    have "round_half_away y = - \<lfloor>- y + 1 / 2\<rfloor>" using y by (simp add: round_half_away_def)
    moreover have "round_half_away z = - \<lfloor>- z + 1 / 2\<rfloor>" using 1 by (simp add: round_half_away_def)
    ultimately show ?thesis using m by linarith
  next
    case 2
    have a: "0 \<le> \<lfloor>- y + 1 / 2\<rfloor>" using 2 by simp
    have b: "0 \<le> \<lfloor>z + 1 / 2\<rfloor>" using 2 by simp
    have "round_half_away y = - \<lfloor>- y + 1 / 2\<rfloor>" using 2 by (simp add: round_half_away_def)
    moreover have "round_half_away z = \<lfloor>z + 1 / 2\<rfloor>" using 2 by (simp add: round_half_away_def)
    ultimately show ?thesis using a b by linarith
  next
    case 3
    then have z: "0 \<le> z" using assms by simp
    have m: "\<lfloor>y + 1 / 2\<rfloor> \<le> \<lfloor>z + 1 / 2\<rfloor>" using assms by (intro floor_mono) simp
    have "round_half_away y = \<lfloor>y + 1 / 2\<rfloor>" using 3 by (simp add: round_half_away_def)
    moreover have "round_half_away z = \<lfloor>z + 1 / 2\<rfloor>" using z by (simp add: round_half_away_def)
    ultimately show ?thesis using m by linarith
  qed
qed

lemma fl_between:
  assumes "L \<le> x" "x \<le> U" "- (10 ^ 21) \<le> L" "U \<le> 10 ^ 21"
  shows "\<exists>c. fl x = Fin c \<and> round_double L \<le> c \<and> c \<le> round_double U"
proof -
  have "\<bar>x\<bar> \<le> 10 ^ 21" using assms by (simp add: abs_le_iff)
  then have "fl x = Fin (round_double x)" by (rule fl_small)
  then show ?thesis using round_double_mono[OF assms(1)] round_double_mono[OF assms(2)] by simp
qed

lemma two_decimals_between:
  assumes "L \<le> c" "c \<le> U" "- (10 ^ 19) \<le> L" "U \<le> 10 ^ 19"
  shows "two_decimals_in (round_half_away (L * 100)) (round_half_away (U * 100))
           (parseFloat_text (toFixed2 (Fin c)))"
proof -
  have "\<bar>c\<bar> \<le> 10 ^ 19" using assms by (simp add: abs_le_iff)
  then have "\<not> 10 ^ 21 \<le> \<bar>c\<bar>" by simp
  then have t: "parseFloat_text (toFixed2 (Fin c)) = fl (of_int (round_half_away (c * 100)) / 100)"
    by simp
  have "round_half_away (L * 100) \<le> round_half_away (c * 100)"
    using assms(1) by (intro round_half_away_mono) simp
  moreover have "round_half_away (c * 100) \<le> round_half_away (U * 100)"
    using assms(2) by (intro round_half_away_mono) simp
  ultimately show ?thesis unfolding t two_decimals_in_def by auto
qed

lemma two_decimals_in_mono:
  assumes "two_decimals_in lo hi x" "lo' \<le> lo" "hi \<le> hi'"
  shows "two_decimals_in lo' hi' x"
  using assms unfolding two_decimals_in_def by fastforce

lemma lit_5_1: "lit 5 1 = Fin (1 / 2)"
  unfolding lit_def using fl_at[of "-1" "5 / 10"] by (simp add: round_even_eval)

lemma lit_5_0: "lit 5 0 = Fin (5)"
  unfolding lit_def using fl_at[of "2" "5 / 1"] by (simp add: round_even_eval)

lemma lit_3_0: "lit 3 0 = Fin (3)"
  unfolding lit_def using fl_at[of "1" "3 / 1"] by (simp add: round_even_eval)

lemma lit_2_1: "lit 2 1 = Fin (3602879701896397 / 18014398509481984)"
  unfolding lit_def using fl_at[of "-3" "2 / 10"] by (simp add: round_even_eval)

lemma lit_1_1: "lit 1 1 = Fin (3602879701896397 / 36028797018963968)"
  unfolding lit_def using fl_at[of "-4" "1 / 10"] by (simp add: round_even_eval)

lemma round_double_half: "round_double (1 / 2) = 1 / 2"
  using round_double_at[of "-1" "1 / 2"] by (simp add: round_even_eval)

lemma round_double_5_2: "round_double (5 / 2) = 5 / 2"
  using round_double_at[of "1" "5 / 2"] by (simp add: round_even_eval)

lemma round_double_3_2: "round_double (3 / 2) = 3 / 2"
  using round_double_at[of "0" "3 / 2"] by (simp add: round_even_eval)

lemma round_double_c01: "round_double (3602879701896397 / 36028797018963968) = 3602879701896397 / 36028797018963968"
  using round_double_at[of "-4" "3602879701896397 / 36028797018963968"] by (simp add: round_even_eval)


lemma centered_draw:
  assumes "0 \<le> r" "r < 1"
  shows "\<exists>a. num_sub (Fin r) (lit 5 1) = Fin a \<and> - (1 / 2) \<le> a \<and> a \<le> 1 / 2"
proof -
  have "\<exists>c. fl (r - 1 / 2) = Fin c \<and> round_double (- (1 / 2)) \<le> c \<and> c \<le> round_double (1 / 2)"
    using assms by (intro fl_between) simp_all
  then show ?thesis by (simp add: num_sub_def lit_5_1 round_double_minus round_double_half)
qed

lemma scaled_by_5:
  assumes "- (1 / 2) \<le> a" "a \<le> 1 / 2"
  shows "\<exists>b. num_mul (Fin a) (lit 5 0) = Fin b \<and> - (5 / 2) \<le> b \<and> b \<le> 5 / 2"
proof -
  have "\<exists>c. fl (a * 5) = Fin c \<and> round_double (- (5 / 2)) \<le> c \<and> c \<le> round_double (5 / 2)"
    using assms by (intro fl_between) simp_all
  then show ?thesis by (simp add: lit_5_0 round_double_minus round_double_5_2)
qed

lemma scaled_by_3:
  assumes "- (1 / 2) \<le> a" "a \<le> 1 / 2"
  shows "\<exists>b. num_mul (Fin a) (lit 3 0) = Fin b \<and> - (3 / 2) \<le> b \<and> b \<le> 3 / 2"
proof -
  have "\<exists>c. fl (a * 3) = Fin c \<and> round_double (- (3 / 2)) \<le> c \<and> c \<le> round_double (3 / 2)"
    using assms by (intro fl_between) simp_all
  then show ?thesis by (simp add: lit_3_0 round_double_minus round_double_3_2)
qed

lemma scaled_by_02:
  assumes "- (1 / 2) \<le> a" "a \<le> 1 / 2"
  shows "\<exists>b. num_mul (Fin a) (lit 2 1) = Fin b \<and> - (3602879701896397 / 36028797018963968) \<le> b \<and> b \<le> 3602879701896397 / 36028797018963968"
proof -
  have "\<exists>c. fl (a * (3602879701896397 / 18014398509481984)) = Fin c \<and> round_double (- (3602879701896397 / 36028797018963968)) \<le> c \<and> c \<le> round_double (3602879701896397 / 36028797018963968)"
    using assms by (intro fl_between) simp_all
  then show ?thesis by (simp add: lit_2_1 round_double_minus round_double_c01)
qed

lemma change_in_range:
  assumes "0 \<le> r" "r < 1"
  shows "two_decimals_in (- 150) 150
           (parseFloat_text (toFixed2 (num_mul (num_sub (Fin r) (lit 5 1)) (lit 3 0))))"
proof -
  obtain a where a: "num_sub (Fin r) (lit 5 1) = Fin a" "- (1 / 2) \<le> a" "a \<le> 1 / 2"
    using centered_draw[OF assms] by blast
  obtain b where b: "num_mul (Fin a) (lit 3 0) = Fin b" "- (3 / 2) \<le> b" "b \<le> 3 / 2"
    using scaled_by_3[OF a(2,3)] by blast
  have "two_decimals_in (round_half_away (- (3 / 2) * 100)) (round_half_away (3 / 2 * 100))
           (parseFloat_text (toFixed2 (Fin b)))"
    using b(2,3) by (intro two_decimals_between) simp_all
  then show ?thesis by (simp add: a b round_half_away_def floor_eval)
qed

lemma exchange_change_in_range:
  assumes "0 \<le> r" "r < 1"
  shows "num_le (num_neg (lit 1 1)) (num_mul (num_sub (Fin r) (lit 5 1)) (lit 2 1)) \<and>
         num_le (num_mul (num_sub (Fin r) (lit 5 1)) (lit 2 1)) (lit 1 1) \<and>
         two_decimals_in (- 10) 10
           (parseFloat_text (toFixed2 (num_mul (num_sub (Fin r) (lit 5 1)) (lit 2 1))))"
proof -
  obtain a where a: "num_sub (Fin r) (lit 5 1) = Fin a" "- (1 / 2) \<le> a" "a \<le> 1 / 2"
    using centered_draw[OF assms] by blast
  obtain b where b: "num_mul (Fin a) (lit 2 1) = Fin b" "- (3602879701896397 / 36028797018963968) \<le> b" "b \<le> 3602879701896397 / 36028797018963968"
    using scaled_by_02[OF a(2,3)] by blast
  have "two_decimals_in (round_half_away (- (3602879701896397 / 36028797018963968) * 100)) (round_half_away (3602879701896397 / 36028797018963968 * 100))
           (parseFloat_text (toFixed2 (Fin b)))"
    using b(2,3) by (intro two_decimals_between) simp_all
  then have "two_decimals_in (- 10) 10 (parseFloat_text (toFixed2 (Fin b)))"
    by (simp add: round_half_away_def floor_eval)
  then show ?thesis using b(2,3) by (simp add: a b(1) lit_1_1)
qed

lemma lit_7542_2: "lit 7542 2 = Fin (5307210685879419 / 70368744177664)"
  unfolding lit_def using fl_at[of "6" "7542 / 100"] by (simp add: round_even_eval)

lemma round_double_7542_lo: "round_double (5131288825435259 / 70368744177664) = 5131288825435259 / 70368744177664"
  using round_double_at[of "6" "5131288825435259 / 70368744177664"] by (simp add: round_even_eval)

lemma round_double_7542_hi: "round_double (5483132546323579 / 70368744177664) = 5483132546323579 / 70368744177664"
  using round_double_at[of "6" "5483132546323579 / 70368744177664"] by (simp add: round_even_eval)

lemma price_in_range_7542:
  assumes "0 \<le> r" "r < 1"
  shows "two_decimals_in 7292 7792
           (parseFloat_text (toFixed2 (num_add (lit 7542 2) (num_mul (num_sub (Fin r) (lit 5 1)) (lit 5 0)))))"
proof -
  obtain a where a: "num_sub (Fin r) (lit 5 1) = Fin a" "- (1 / 2) \<le> a" "a \<le> 1 / 2"
    using centered_draw[OF assms] by blast
  obtain b where b: "num_mul (Fin a) (lit 5 0) = Fin b" "- (5 / 2) \<le> b" "b \<le> 5 / 2"
    using scaled_by_5[OF a(2,3)] by blast
  have "\<exists>c. fl ((5307210685879419 / 70368744177664) + b) = Fin c \<and> round_double ((5307210685879419 / 70368744177664) - 5 / 2) \<le> c \<and> c \<le> round_double ((5307210685879419 / 70368744177664) + 5 / 2)"
    using b(2,3) by (intro fl_between) simp_all
  then obtain c where c: "fl ((5307210685879419 / 70368744177664) + b) = Fin c" "(5131288825435259 / 70368744177664) \<le> c" "c \<le> (5483132546323579 / 70368744177664)"
    using round_double_7542_lo round_double_7542_hi by auto
  have "two_decimals_in (round_half_away ((5131288825435259 / 70368744177664) * 100)) (round_half_away ((5483132546323579 / 70368744177664) * 100))
           (parseFloat_text (toFixed2 (Fin c)))"
    using c(2,3) by (intro two_decimals_between) simp_all
  then have "two_decimals_in 7292 7792 (parseFloat_text (toFixed2 (Fin c)))"
    by (simp add: round_half_away_def floor_eval)
  then show ?thesis by (simp add: a b(1) lit_7542_2 c(1))
qed

lemma lit_7915_2: "lit 7915 2 = Fin (2784843050831053 / 35184372088832)"
  unfolding lit_def using fl_at[of "6" "7915 / 100"] by (simp add: round_even_eval)

lemma round_double_7915_lo: "round_double (2696882120608973 / 35184372088832) = 2696882120608973 / 35184372088832"
  using round_double_at[of "6" "2696882120608973 / 35184372088832"] by (simp add: round_even_eval)

lemma round_double_7915_hi: "round_double (2872803981053133 / 35184372088832) = 2872803981053133 / 35184372088832"
  using round_double_at[of "6" "2872803981053133 / 35184372088832"] by (simp add: round_even_eval)

lemma price_in_range_7915:
  assumes "0 \<le> r" "r < 1"
  shows "two_decimals_in 7665 8165
           (parseFloat_text (toFixed2 (num_add (lit 7915 2) (num_mul (num_sub (Fin r) (lit 5 1)) (lit 5 0)))))"
proof -
  obtain a where a: "num_sub (Fin r) (lit 5 1) = Fin a" "- (1 / 2) \<le> a" "a \<le> 1 / 2"
    using centered_draw[OF assms] by blast
  obtain b where b: "num_mul (Fin a) (lit 5 0) = Fin b" "- (5 / 2) \<le> b" "b \<le> 5 / 2"
    using scaled_by_5[OF a(2,3)] by blast
  have "\<exists>c. fl ((2784843050831053 / 35184372088832) + b) = Fin c \<and> round_double ((2784843050831053 / 35184372088832) - 5 / 2) \<le> c \<and> c \<le> round_double ((2784843050831053 / 35184372088832) + 5 / 2)"
    using b(2,3) by (intro fl_between) simp_all
  then obtain c where c: "fl ((2784843050831053 / 35184372088832) + b) = Fin c" "(2696882120608973 / 35184372088832) \<le> c" "c \<le> (2872803981053133 / 35184372088832)"
    using round_double_7915_lo round_double_7915_hi by auto
  have "two_decimals_in (round_half_away ((2696882120608973 / 35184372088832) * 100)) (round_half_away ((2872803981053133 / 35184372088832) * 100))
           (parseFloat_text (toFixed2 (Fin c)))"
    using c(2,3) by (intro two_decimals_between) simp_all
  then have "two_decimals_in 7665 8165 (parseFloat_text (toFixed2 (Fin c)))"
    by (simp add: round_half_away_def floor_eval)
  then show ?thesis by (simp add: a b(1) lit_7915_2 c(1))
qed

lemma lit_7780_2: "lit 7780 2 = Fin (5474688297022259 / 70368744177664)"
  unfolding lit_def using fl_at[of "6" "7780 / 100"] by (simp add: round_even_eval)

lemma round_double_7780_lo: "round_double (5298766436578099 / 70368744177664) = 5298766436578099 / 70368744177664"
  using round_double_at[of "6" "5298766436578099 / 70368744177664"] by (simp add: round_even_eval)

lemma round_double_7780_hi: "round_double (5650610157466419 / 70368744177664) = 5650610157466419 / 70368744177664"
  using round_double_at[of "6" "5650610157466419 / 70368744177664"] by (simp add: round_even_eval)

lemma price_in_range_7780:
  assumes "0 \<le> r" "r < 1"
  shows "two_decimals_in 7530 8030
           (parseFloat_text (toFixed2 (num_add (lit 7780 2) (num_mul (num_sub (Fin r) (lit 5 1)) (lit 5 0)))))"
proof -
  obtain a where a: "num_sub (Fin r) (lit 5 1) = Fin a" "- (1 / 2) \<le> a" "a \<le> 1 / 2"
    using centered_draw[OF assms] by blast
  obtain b where b: "num_mul (Fin a) (lit 5 0) = Fin b" "- (5 / 2) \<le> b" "b \<le> 5 / 2"
    using scaled_by_5[OF a(2,3)] by blast
  have "\<exists>c. fl ((5474688297022259 / 70368744177664) + b) = Fin c \<and> round_double ((5474688297022259 / 70368744177664) - 5 / 2) \<le> c \<and> c \<le> round_double ((5474688297022259 / 70368744177664) + 5 / 2)"
    using b(2,3) by (intro fl_between) simp_all
  then obtain c where c: "fl ((5474688297022259 / 70368744177664) + b) = Fin c" "(5298766436578099 / 70368744177664) \<le> c" "c \<le> (5650610157466419 / 70368744177664)"
    using round_double_7780_lo round_double_7780_hi by auto
  have "two_decimals_in (round_half_away ((5298766436578099 / 70368744177664) * 100)) (round_half_away ((5650610157466419 / 70368744177664) * 100))
           (parseFloat_text (toFixed2 (Fin c)))"
    using c(2,3) by (intro two_decimals_between) simp_all
  then have "two_decimals_in 7530 8030 (parseFloat_text (toFixed2 (Fin c)))"
    by (simp add: round_half_away_def floor_eval)
  then show ?thesis by (simp add: a b(1) lit_7780_2 c(1))
qed

lemma benchmark_quote:
  "fst (benchmark b w) =
     \<lparr>price = num_add b (num_mul (num_sub (Fin (entropy w (draws w))) (lit 5 1)) (lit 5 0)),
      change = num_mul (num_sub (Fin (entropy w (Suc (draws w)))) (lit 5 1)) (lit 3 0)\<rparr>"
  by (simp add: benchmark_def Math_random_def Let_def)

lemma worldData_fields:
  "wti (fst (worldData ex w)) = round_quote (fst (benchmark (lit 7542 2) w))"
  "brent (fst (worldData ex w)) =
     round_quote (fst (benchmark (lit 7915 2) (snd (benchmark (lit 7542 2) w))))"
  "dubai (fst (worldData ex w)) =
     round_quote (fst (benchmark (lit 7780 2)
       (snd (benchmark (lit 7915 2) (snd (benchmark (lit 7542 2) w))))))"
  "thb (fst (worldData ex w)) =
     round_quote (case ex of Some q \<Rightarrow> q | None \<Rightarrow> \<lparr>price = lit 3485 2, change = lit 0 0\<rparr>)"
  by (simp_all add: worldData_def Let_def split_beta)

lemma fetchExchangeRate_quote:
  assumes "fetchExchangeRate w = (Inr (Some q), w')"
  shows "change q = num_mul (num_sub (Fin (entropy w (draws w))) (lit 5 1)) (lit 2 1) \<and>
         entropy w' = entropy w"
  using assms unfolding fetchExchangeRate_eq fetchExchangeRate_try_eq Let_def
  by (auto simp: external_call_simps split: fetch_outcome.splits if_splits option.splits sum.splits json.splits)

lemma fetchExchangeRate_entropy: "entropy (snd (fetchExchangeRate w)) = entropy w"
  unfolding fetchExchangeRate_eq fetchExchangeRate_try_eq Let_def
  by (simp add: external_call_simps split: fetch_outcome.splits if_splits option.splits sum.splits json.splits)

lemma worldData_ranges:
  assumes ent: "\<forall>n. 0 \<le> entropy w n \<and> entropy w n < 1"
  shows "two_decimals_in 7292 7792 (price (wti (fst (worldData ex w)))) \<and>
         two_decimals_in (- 150) 150 (change (wti (fst (worldData ex w)))) \<and>
         two_decimals_in 7665 8165 (price (brent (fst (worldData ex w)))) \<and>
         two_decimals_in (- 150) 150 (change (brent (fst (worldData ex w)))) \<and>
         two_decimals_in 7530 8030 (price (dubai (fst (worldData ex w)))) \<and>
         two_decimals_in (- 150) 150 (change (dubai (fst (worldData ex w))))"
proof -
  have r: "0 \<le> entropy w n" "entropy w n < 1" for n using ent by auto
  have e1: "entropy (snd (benchmark b w)) = entropy w" for b using benchmark_frame by blast
  have e2: "entropy (snd (benchmark b' (snd (benchmark b w)))) = entropy w" for b b'
    using benchmark_frame[of b' "snd (benchmark b w)"] e1 by simp
  show ?thesis
    unfolding worldData_fields benchmark_quote round_quote_def e1 e2
    using price_in_range_7542 price_in_range_7915 price_in_range_7780 change_in_range r
    by simp
qed

lemma world_rates_fetch:
  "fst (fetchExchangeRate (external_call (GetCommand ''world_prices'') world_rates))
     = Inr (Some \<lparr>price = parseFloat_text (toFixed2 (Fin 35)),
                  change = num_mul (num_sub (Fin (1 / 2)) (lit 5 1)) (lit 2 1)\<rparr>)"
  by (simp add: fetchExchangeRate_eq fetchExchangeRate_try_eq Let_def external_call_simps
      world_rates_def world0_def and_then_def)

text \<open>
  Claim C9. Let every value of the entropy source lie in [0, 1). When
  \<^verbatim>\<open>getWorldPrices\<close> misses the cache, the payload it returns has, for each of the three
  oil benchmarks, a price that is a two-decimal number within 2.50 of the fixed base
  (75.42, 79.15, 77.80) and a change that is a two-decimal number from -1.50 to 1.50.
  When \<^verbatim>\<open>fetchExchangeRate\<close> returns a quote, its change lies between the numbers
  \<^verbatim>\<open>-0.1\<close> and \<^verbatim>\<open>0.1\<close>, and the \<^verbatim>\<open>thb\<close> change served is a two-decimal number from -0.10
  to 0.10.
\<close>

theorem world_prices_ranges:
  assumes ent: "\<forall>n. 0 \<le> entropy w n \<and> entropy w n < 1"
      and miss: "fst (getFromCache ''world_prices'' (lit 3600 0) w) = Inr None"
  shows "\<exists>d w'. getWorldPrices w = (Inr (WorldPrices d), w') \<and>
           two_decimals_in 7292 7792 (price (wti d)) \<and> two_decimals_in (- 150) 150 (change (wti d)) \<and>
           two_decimals_in 7665 8165 (price (brent d)) \<and> two_decimals_in (- 150) 150 (change (brent d)) \<and>
           two_decimals_in 7530 8030 (price (dubai d)) \<and> two_decimals_in (- 150) 150 (change (dubai d)) \<and>
           (\<forall>q. fst (fetchExchangeRate (external_call (GetCommand ''world_prices'') w)) = Inr (Some q) \<longrightarrow>
                num_le (num_neg (lit 1 1)) (change q) \<and> num_le (change q) (lit 1 1) \<and>
                two_decimals_in (- 10) 10 (change (thb d)))"
proof -
  let ?w1 = "external_call (GetCommand ''world_prices'') w"
  have g: "getFromCache ''world_prices'' (lit 3600 0) w = (Inr None, ?w1)"
    using miss getFromCache_eq[of "''world_prices''" "lit 3600 0" w] by simp
  obtain ex where "fst (fetchExchangeRate ?w1) = Inr ex" using fetchExchangeRate_resolves by blast
  then have f: "fetchExchangeRate ?w1 = (Inr ex, snd (fetchExchangeRate ?w1))"
    by (metis prod.collapse)
  let ?wa = "snd (fetchExchangeRate ?w1)"
  let ?d = "fst (worldData ex ?wa)"
  have enta: "entropy ?wa = entropy w" by (simp add: fetchExchangeRate_entropy external_call_simps)
  have t: "getWorldPrices_try ?w1 = (Inr (WorldPrices ?d),
      snd (saveToCache ''world_prices'' (WorldPrices ?d) (lit 3600 0) (snd (worldData ex ?wa))))"
    by (rule getWorldPrices_try_eq[OF f])
  have r: "getWorldPrices w = (Inr (WorldPrices ?d),
      snd (saveToCache ''world_prices'' (WorldPrices ?d) (lit 3600 0) (snd (worldData ex ?wa))))"
    by (simp add: getWorldPrices_def await_def g try_catch_def t)
  have rng: "two_decimals_in 7292 7792 (price (wti ?d)) \<and> two_decimals_in (- 150) 150 (change (wti ?d)) \<and>
           two_decimals_in 7665 8165 (price (brent ?d)) \<and> two_decimals_in (- 150) 150 (change (brent ?d)) \<and>
           two_decimals_in 7530 8030 (price (dubai ?d)) \<and> two_decimals_in (- 150) 150 (change (dubai ?d))"
    using ent by (intro worldData_ranges) (simp add: enta)
  have ex: "num_le (num_neg (lit 1 1)) (change q) \<and> num_le (change q) (lit 1 1) \<and>
       two_decimals_in (- 10) 10 (change (thb ?d))"
    if q: "fst (fetchExchangeRate ?w1) = Inr (Some q)" for q
  proof -
    have "fst (fetchExchangeRate ?w1) = Inr ex" using f by (metis fst_conv)
    then have exq: "ex = Some q" using q by simp
    have c: "change q = num_mul (num_sub (Fin (entropy ?w1 (draws ?w1))) (lit 5 1)) (lit 2 1)"
      using fetchExchangeRate_quote[of ?w1 q ?wa] f exq by simp
    have r01: "0 \<le> entropy ?w1 (draws ?w1)" "entropy ?w1 (draws ?w1) < 1"
      using ent by (simp_all add: external_call_simps)
    show ?thesis
      using exchange_change_in_range[OF r01]
      by (simp add: worldData_fields exq round_quote_def c)
  qed
  show ?thesis using r rng ex by blast
qed

theorem world_prices_ranges_witness:
  "(\<forall>n. 0 \<le> entropy world_rates n \<and> entropy world_rates n < 1) \<and>
   fst (getFromCache ''world_prices'' (lit 3600 0) world_rates) = Inr None \<and>
   (\<exists>d w' q. getWorldPrices world_rates = (Inr (WorldPrices d), w') \<and>
       two_decimals_in 7292 7792 (price (wti d)) \<and> two_decimals_in (- 150) 150 (change (wti d)) \<and>
       two_decimals_in 7665 8165 (price (brent d)) \<and> two_decimals_in (- 150) 150 (change (brent d)) \<and>
       two_decimals_in 7530 8030 (price (dubai d)) \<and> two_decimals_in (- 150) 150 (change (dubai d)) \<and>
       fst (fetchExchangeRate (external_call (GetCommand ''world_prices'') world_rates)) = Inr (Some q) \<and>
       num_le (num_neg (lit 1 1)) (change q) \<and> num_le (change q) (lit 1 1) \<and>
       two_decimals_in (- 10) 10 (change (thb d)))"
proof -
  have ent: "\<forall>n. 0 \<le> entropy world_rates n \<and> entropy world_rates n < 1"
    by (simp add: world_rates_def world0_def)
  have miss: "fst (getFromCache ''world_prices'' (lit 3600 0) world_rates) = Inr None"
    by (simp add: getFromCache_eq world_rates_def world0_def)
  from world_prices_ranges[OF ent miss] world_rates_fetch ent miss
  show ?thesis by blast
qed

section \<open>World prices: the fallback snapshot\<close>

lemma fl_fin_mono:
  assumes "x \<le> y" "fl x = Fin c" "fl y = Fin d"
  shows "c \<le> d"
proof -
  have "c = round_double x" using assms(2) by (auto simp: fl_def Let_def split: if_splits)
  moreover have "d = round_double y" using assms(3) by (auto simp: fl_def Let_def split: if_splits)
  ultimately show ?thesis using round_double_mono[OF assms(1)] by simp
qed

lemma two_decimals_below:
  assumes "two_decimals_in lo hi v" "fl (of_int hi / 100) = Fin d" "d < e"
  shows "v \<noteq> Fin e"
proof
  assume v: "v = Fin e"
  obtain n where n: "n \<le> hi" "v = fl (of_int n / 100)"
    using assms(1) unfolding two_decimals_in_def by auto
  have "(of_int n :: rat) / 100 \<le> of_int hi / 100" using n(1) by simp
  then have "e \<le> d" using n(2) v assms(2) fl_fin_mono by metis
  then show False using assms(3) by simp
qed

lemma two_decimals_above:
  assumes "two_decimals_in lo hi v" "fl (of_int lo / 100) = Fin d" "e < d"
  shows "v \<noteq> Fin e"
proof
  assume v: "v = Fin e"
  obtain n where n: "lo \<le> n" "v = fl (of_int n / 100)"
    using assms(1) unfolding two_decimals_in_def by auto
  have "(of_int lo :: rat) / 100 \<le> of_int n / 100" using n(1) by simp
  then have "d \<le> e" using n(2) v assms(2) fl_fin_mono by metis
  then show False using assms(3) by simp
qed

lemma draw_below:
  assumes "0 \<le> r" "r \<le> R" "R \<le> 1" "round_double (R - 1 / 2) = A"
  shows "\<exists>a. num_sub (Fin r) (lit 5 1) = Fin a \<and> - (1 / 2) \<le> a \<and> a \<le> A"
proof -
  have "\<exists>c. fl (r - 1 / 2) = Fin c \<and> round_double (- (1 / 2)) \<le> c \<and> c \<le> round_double (R - 1 / 2)"
    using assms(1-3) by (intro fl_between) simp_all
  then show ?thesis
    by (simp add: num_sub_def lit_5_1 round_double_minus round_double_half assms(4))
qed

lemma draw_above:
  assumes "R \<le> r" "r < 1" "0 \<le> R" "round_double (R - 1 / 2) = A"
  shows "\<exists>a. num_sub (Fin r) (lit 5 1) = Fin a \<and> A \<le> a \<and> a \<le> 1 / 2"
proof -
  have "\<exists>c. fl (r - 1 / 2) = Fin c \<and> round_double (R - 1 / 2) \<le> c \<and> c \<le> round_double (1 / 2)"
    using assms(1-3) by (intro fl_between) simp_all
  then show ?thesis
    by (simp add: num_sub_def lit_5_1 round_double_half assms(4))
qed

lemma scaled_by_5_below:
  assumes "- (1 / 2) \<le> a" "a \<le> A" "A \<le> 1 / 2" "round_double (A * 5) = B"
  shows "\<exists>b. num_mul (Fin a) (lit 5 0) = Fin b \<and> - (5 / 2) \<le> b \<and> b \<le> B"
proof -
  have "\<exists>c. fl (a * 5) = Fin c \<and> round_double (- (5 / 2)) \<le> c \<and> c \<le> round_double (A * 5)"
    using assms(1-3) by (intro fl_between) simp_all
  then show ?thesis by (simp add: lit_5_0 round_double_minus round_double_5_2 assms(4))
qed

lemma scaled_by_5_above:
  assumes "A \<le> a" "a \<le> 1 / 2" "- (1 / 2) \<le> A" "round_double (A * 5) = B"
  shows "\<exists>b. num_mul (Fin a) (lit 5 0) = Fin b \<and> B \<le> b \<and> b \<le> 5 / 2"
proof -
  have "\<exists>c. fl (a * 5) = Fin c \<and> round_double (A * 5) \<le> c \<and> c \<le> round_double (5 / 2)"
    using assms(1-3) by (intro fl_between) simp_all
  then show ?thesis by (simp add: lit_5_0 round_double_5_2 assms(4))
qed

lemma scaled_by_3_below:
  assumes "- (1 / 2) \<le> a" "a \<le> A" "A \<le> 1 / 2" "round_double (A * 3) = B"
  shows "\<exists>b. num_mul (Fin a) (lit 3 0) = Fin b \<and> - (3 / 2) \<le> b \<and> b \<le> B"
proof -
  have "\<exists>c. fl (a * 3) = Fin c \<and> round_double (- (3 / 2)) \<le> c \<and> c \<le> round_double (A * 3)"
    using assms(1-3) by (intro fl_between) simp_all
  then show ?thesis by (simp add: lit_3_0 round_double_minus round_double_3_2 assms(4))
qed

lemma scaled_by_3_above:
  assumes "A \<le> a" "a \<le> 1 / 2" "- (1 / 2) \<le> A" "round_double (A * 3) = B"
  shows "\<exists>b. num_mul (Fin a) (lit 3 0) = Fin b \<and> B \<le> b \<and> b \<le> 3 / 2"
proof -
  have "\<exists>c. fl (a * 3) = Fin c \<and> round_double (A * 3) \<le> c \<and> c \<le> round_double (3 / 2)"
    using assms(1-3) by (intro fl_between) simp_all
  then show ?thesis by (simp add: lit_3_0 round_double_3_2 assms(4))
qed

lemma shifted_below:
  assumes "- (5 / 2) \<le> b" "b \<le> B" "B \<le> 5 / 2" "0 \<le> base" "base \<le> 100"
    "round_double (base + B) = C"
  shows "\<exists>c. num_add (Fin base) (Fin b) = Fin c \<and> - (5 / 2) \<le> c \<and> c \<le> C"
proof -
  have "\<exists>c. fl (base + b) = Fin c \<and> round_double (- (5 / 2)) \<le> c \<and> c \<le> round_double (base + B)"
    using assms(1-5) by (intro fl_between) simp_all
  then show ?thesis by (simp add: round_double_minus round_double_5_2 assms(6))
qed

lemma shifted_above:
  assumes "B \<le> b" "b \<le> 5 / 2" "- (5 / 2) \<le> B" "0 \<le> base" "base \<le> 100"
    "round_double (base + B) = C"
  shows "\<exists>c. num_add (Fin base) (Fin b) = Fin c \<and> C \<le> c \<and> c \<le> 103"
proof -
  have "\<exists>c. fl (base + b) = Fin c \<and> round_double (base + B) \<le> c \<and> c \<le> round_double 103"
    using assms(1-5) by (intro fl_between) simp_all
  moreover have "round_double 103 = 103" using round_double_of_int[of 103] by simp
  ultimately show ?thesis by (simp add: assms(6))
qed

lemma benchmark_draws: "draws (snd (benchmark b w)) = Suc (Suc (draws w))"
  by (simp add: benchmark_def Math_random_def Let_def)

lemma lit_12_1: "lit 12 1 = Fin (5404319552844595 / 4503599627370496)"
  unfolding lit_def using fl_at[of "0" "12 / 10"] by (simp add: round_even_eval)

lemma lit_8_1: "lit 8 1 = Fin (3602879701896397 / 4503599627370496)"
  unfolding lit_def using fl_at[of "-1" "8 / 10"] by (simp add: round_even_eval)

lemma wti_price_below:
  assumes "0 \<le> r" "r \<le> 255 / 512"
  shows "parseFloat_text (toFixed2 (num_add (lit 7542 2) (num_mul (num_sub (Fin r) (lit 5 1)) (lit 5 0)))) \<noteq> lit 7542 2"
proof -
  have ra: "round_double (255 / 512 - 1 / 2) = - (1 / 512)"
  proof -
    have "round_double (1 / 512) = 1 / 512"
      using round_double_at[of "-9" "1 / 512"] by (simp add: round_even_eval)
    then show ?thesis by (simp add: round_double_minus)
  qed
  obtain a where a: "num_sub (Fin r) (lit 5 1) = Fin a" "- (1 / 2) \<le> a" "a \<le> - (1 / 512)"
    using draw_below[OF assms _ ra] by auto
  have rb: "round_double ((- (1 / 512)) * 5) = - (5 / 512)"
  proof -
    have "round_double (5 / 512) = 5 / 512"
      using round_double_at[of "-7" "5 / 512"] by (simp add: round_even_eval)
    then show ?thesis by (simp add: round_double_minus)
  qed
  obtain b where b: "num_mul (Fin a) (lit 5 0) = Fin b" "- (5 / 2) \<le> b" "b \<le> - (5 / 512)"
    using scaled_by_5_below[OF a(2,3) _ rb] by auto
  have rc: "round_double (5307210685879419 / 70368744177664 + (- (5 / 512))) = 5306523491112059 / 70368744177664"
  proof -
    have "round_double (5306523491112059 / 70368744177664) = 5306523491112059 / 70368744177664"
      using round_double_at[of "6" "5306523491112059 / 70368744177664"] by (simp add: round_even_eval)
    then show ?thesis by (simp add: round_double_minus)
  qed
  obtain c where c: "fl (5307210685879419 / 70368744177664 + b) = Fin c" "- (5 / 2) \<le> c" "c \<le> 5306523491112059 / 70368744177664"
    using shifted_below[OF b(2,3) _ _ _ rc] by auto
  have "two_decimals_in (round_half_away ((- (5 / 2)) * 100)) (round_half_away ((5306523491112059 / 70368744177664) * 100))
           (parseFloat_text (toFixed2 (Fin c)))"
    using c(2,3) by (intro two_decimals_between) simp_all
  then have t: "two_decimals_in (- 250) 7541 (parseFloat_text (toFixed2 (Fin c)))"
    by (simp add: round_half_away_def floor_eval)
  have fd: "fl (of_int 7541 / 100) = Fin (2653253499218821 / 35184372088832)"
    using fl_at[of "6" "7541 / 100"] by (simp add: round_even_eval)
  have "parseFloat_text (toFixed2 (Fin c)) \<noteq> Fin (5307210685879419 / 70368744177664)"
    using t fd by (rule two_decimals_below) simp
  then show ?thesis by (simp add: a(1) b(1) c(1) lit_7542_2)
qed

lemma wti_price_above:
  assumes "257 / 512 \<le> r" "r < 1"
  shows "parseFloat_text (toFixed2 (num_add (lit 7542 2) (num_mul (num_sub (Fin r) (lit 5 1)) (lit 5 0)))) \<noteq> lit 7542 2"
proof -
  have ra: "round_double (257 / 512 - 1 / 2) = 1 / 512"
  proof -
    have "round_double (1 / 512) = 1 / 512"
      using round_double_at[of "-9" "1 / 512"] by (simp add: round_even_eval)
    then show ?thesis by (simp add: round_double_minus)
  qed
  obtain a where a: "num_sub (Fin r) (lit 5 1) = Fin a" "1 / 512 \<le> a" "a \<le> 1 / 2"
    using draw_above[OF assms _ ra] by auto
  have rb: "round_double ((1 / 512) * 5) = 5 / 512"
  proof -
    have "round_double (5 / 512) = 5 / 512"
      using round_double_at[of "-7" "5 / 512"] by (simp add: round_even_eval)
    then show ?thesis by (simp add: round_double_minus)
  qed
  obtain b where b: "num_mul (Fin a) (lit 5 0) = Fin b" "5 / 512 \<le> b" "b \<le> 5 / 2"
    using scaled_by_5_above[OF a(2,3) _ rb] by auto
  have rc: "round_double (5307210685879419 / 70368744177664 + (5 / 512)) = 5307897880646779 / 70368744177664"
  proof -
    have "round_double (5307897880646779 / 70368744177664) = 5307897880646779 / 70368744177664"
      using round_double_at[of "6" "5307897880646779 / 70368744177664"] by (simp add: round_even_eval)
    then show ?thesis by (simp add: round_double_minus)
  qed
  obtain c where c: "fl (5307210685879419 / 70368744177664 + b) = Fin c" "5307897880646779 / 70368744177664 \<le> c" "c \<le> 103"
    using shifted_above[OF b(2,3) _ _ _ rc] by auto
  have "two_decimals_in (round_half_away ((5307897880646779 / 70368744177664) * 100)) (round_half_away (103 * 100))
           (parseFloat_text (toFixed2 (Fin c)))"
    using c(2,3) by (intro two_decimals_between) simp_all
  then have t: "two_decimals_in 7543 10300 (parseFloat_text (toFixed2 (Fin c)))"
    by (simp add: round_half_away_def floor_eval)
  have fd: "fl (of_int 7543 / 100) = Fin (1326978593330299 / 17592186044416)"
    using fl_at[of "6" "7543 / 100"] by (simp add: round_even_eval)
  have "parseFloat_text (toFixed2 (Fin c)) \<noteq> Fin (5307210685879419 / 70368744177664)"
    using t fd by (rule two_decimals_above) simp
  then show ?thesis by (simp add: a(1) b(1) c(1) lit_7542_2)
qed

lemma wti_change_below:
  assumes "0 \<le> r" "r \<le> 919 / 1024"
  shows "parseFloat_text (toFixed2 (num_mul (num_sub (Fin r) (lit 5 1)) (lit 3 0))) \<noteq> lit 12 1"
proof -
  have ra: "round_double (919 / 1024 - 1 / 2) = 407 / 1024"
  proof -
    have "round_double (407 / 1024) = 407 / 1024"
      using round_double_at[of "-2" "407 / 1024"] by (simp add: round_even_eval)
    then show ?thesis by (simp add: round_double_minus)
  qed
  obtain a where a: "num_sub (Fin r) (lit 5 1) = Fin a" "- (1 / 2) \<le> a" "a \<le> 407 / 1024"
    using draw_below[OF assms _ ra] by auto
  have rb: "round_double ((407 / 1024) * 3) = 1221 / 1024"
  proof -
    have "round_double (1221 / 1024) = 1221 / 1024"
      using round_double_at[of "0" "1221 / 1024"] by (simp add: round_even_eval)
    then show ?thesis by (simp add: round_double_minus)
  qed
  obtain b where b: "num_mul (Fin a) (lit 3 0) = Fin b" "- (3 / 2) \<le> b" "b \<le> 1221 / 1024"
    using scaled_by_3_below[OF a(2,3) _ rb] by auto
  have "two_decimals_in (round_half_away ((- (3 / 2)) * 100)) (round_half_away ((1221 / 1024) * 100))
           (parseFloat_text (toFixed2 (Fin b)))"
    using b(2,3) by (intro two_decimals_between) simp_all
  then have t: "two_decimals_in (- 150) 119 (parseFloat_text (toFixed2 (Fin b)))"
    by (simp add: round_half_away_def floor_eval)
  have fd: "fl (of_int 119 / 100) = Fin (2679641778285445 / 2251799813685248)"
    using fl_at[of "0" "119 / 100"] by (simp add: round_even_eval)
  have "parseFloat_text (toFixed2 (Fin b)) \<noteq> Fin (5404319552844595 / 4503599627370496)"
    using t fd by (rule two_decimals_below) simp
  then show ?thesis by (simp add: a(1) b(1) lit_12_1)
qed

lemma wti_change_above:
  assumes "231 / 256 \<le> r" "r < 1"
  shows "parseFloat_text (toFixed2 (num_mul (num_sub (Fin r) (lit 5 1)) (lit 3 0))) \<noteq> lit 12 1"
proof -
  have ra: "round_double (231 / 256 - 1 / 2) = 103 / 256"
  proof -
    have "round_double (103 / 256) = 103 / 256"
      using round_double_at[of "-2" "103 / 256"] by (simp add: round_even_eval)
    then show ?thesis by (simp add: round_double_minus)
  qed
  obtain a where a: "num_sub (Fin r) (lit 5 1) = Fin a" "103 / 256 \<le> a" "a \<le> 1 / 2"
    using draw_above[OF assms _ ra] by auto
  have rb: "round_double ((103 / 256) * 3) = 309 / 256"
  proof -
    have "round_double (309 / 256) = 309 / 256"
      using round_double_at[of "0" "309 / 256"] by (simp add: round_even_eval)
    then show ?thesis by (simp add: round_double_minus)
  qed
  obtain b where b: "num_mul (Fin a) (lit 3 0) = Fin b" "309 / 256 \<le> b" "b \<le> 3 / 2"
    using scaled_by_3_above[OF a(2,3) _ rb] by auto
  have "two_decimals_in (round_half_away ((309 / 256) * 100)) (round_half_away ((3 / 2) * 100))
           (parseFloat_text (toFixed2 (Fin b)))"
    using b(2,3) by (intro two_decimals_between) simp_all
  then have t: "two_decimals_in 121 150 (parseFloat_text (toFixed2 (Fin b)))"
    by (simp add: round_half_away_def floor_eval)
  have fd: "fl (of_int 121 / 100) = Fin (1362338887279575 / 1125899906842624)"
    using fl_at[of "0" "121 / 100"] by (simp add: round_even_eval)
  have "parseFloat_text (toFixed2 (Fin b)) \<noteq> Fin (5404319552844595 / 4503599627370496)"
    using t fd by (rule two_decimals_above) simp
  then show ?thesis by (simp add: a(1) b(1) lit_12_1)
qed

lemma brent_price_below:
  assumes "0 \<le> r" "r \<le> 255 / 512"
  shows "parseFloat_text (toFixed2 (num_add (lit 7915 2) (num_mul (num_sub (Fin r) (lit 5 1)) (lit 5 0)))) \<noteq> lit 7915 2"
proof -
  have ra: "round_double (255 / 512 - 1 / 2) = - (1 / 512)"
  proof -
    have "round_double (1 / 512) = 1 / 512"
      using round_double_at[of "-9" "1 / 512"] by (simp add: round_even_eval)
    then show ?thesis by (simp add: round_double_minus)
  qed
  obtain a where a: "num_sub (Fin r) (lit 5 1) = Fin a" "- (1 / 2) \<le> a" "a \<le> - (1 / 512)"
    using draw_below[OF assms _ ra] by auto
  have rb: "round_double ((- (1 / 512)) * 5) = - (5 / 512)"
  proof -
    have "round_double (5 / 512) = 5 / 512"
      using round_double_at[of "-7" "5 / 512"] by (simp add: round_even_eval)
    then show ?thesis by (simp add: round_double_minus)
  qed
  obtain b where b: "num_mul (Fin a) (lit 5 0) = Fin b" "- (5 / 2) \<le> b" "b \<le> - (5 / 512)"
    using scaled_by_5_below[OF a(2,3) _ rb] by auto
  have rc: "round_double (2784843050831053 / 35184372088832 + (- (5 / 512))) = 2784499453447373 / 35184372088832"
  proof -
    have "round_double (2784499453447373 / 35184372088832) = 2784499453447373 / 35184372088832"
      using round_double_at[of "6" "2784499453447373 / 35184372088832"] by (simp add: round_even_eval)
    then show ?thesis by (simp add: round_double_minus)
  qed
  obtain c where c: "fl (2784843050831053 / 35184372088832 + b) = Fin c" "- (5 / 2) \<le> c" "c \<le> 2784499453447373 / 35184372088832"
    using shifted_below[OF b(2,3) _ _ _ rc] by auto
  have "two_decimals_in (round_half_away ((- (5 / 2)) * 100)) (round_half_away ((2784499453447373 / 35184372088832) * 100))
           (parseFloat_text (toFixed2 (Fin c)))"
    using c(2,3) by (intro two_decimals_between) simp_all
  then have t: "two_decimals_in (- 250) 7914 (parseFloat_text (toFixed2 (Fin c)))"
    by (simp add: round_half_away_def floor_eval)
  have fd: "fl (of_int 7914 / 100) = Fin (5568982414220329 / 70368744177664)"
    using fl_at[of "6" "7914 / 100"] by (simp add: round_even_eval)
  have "parseFloat_text (toFixed2 (Fin c)) \<noteq> Fin (2784843050831053 / 35184372088832)"
    using t fd by (rule two_decimals_below) simp
  then show ?thesis by (simp add: a(1) b(1) c(1) lit_7915_2)
qed

lemma brent_price_above:
  assumes "257 / 512 \<le> r" "r < 1"
  shows "parseFloat_text (toFixed2 (num_add (lit 7915 2) (num_mul (num_sub (Fin r) (lit 5 1)) (lit 5 0)))) \<noteq> lit 7915 2"
proof -
  have ra: "round_double (257 / 512 - 1 / 2) = 1 / 512"
  proof -
    have "round_double (1 / 512) = 1 / 512"
      using round_double_at[of "-9" "1 / 512"] by (simp add: round_even_eval)
    then show ?thesis by (simp add: round_double_minus)
  qed
  obtain a where a: "num_sub (Fin r) (lit 5 1) = Fin a" "1 / 512 \<le> a" "a \<le> 1 / 2"
    using draw_above[OF assms _ ra] by auto
  have rb: "round_double ((1 / 512) * 5) = 5 / 512"
  proof -
    have "round_double (5 / 512) = 5 / 512"
      using round_double_at[of "-7" "5 / 512"] by (simp add: round_even_eval)
    then show ?thesis by (simp add: round_double_minus)
  qed
  obtain b where b: "num_mul (Fin a) (lit 5 0) = Fin b" "5 / 512 \<le> b" "b \<le> 5 / 2"
    using scaled_by_5_above[OF a(2,3) _ rb] by auto
  have rc: "round_double (2784843050831053 / 35184372088832 + (5 / 512)) = 2785186648214733 / 35184372088832"
  proof -
    have "round_double (2785186648214733 / 35184372088832) = 2785186648214733 / 35184372088832"
      using round_double_at[of "6" "2785186648214733 / 35184372088832"] by (simp add: round_even_eval)
    then show ?thesis by (simp add: round_double_minus)
  qed
  obtain c where c: "fl (2784843050831053 / 35184372088832 + b) = Fin c" "2785186648214733 / 35184372088832 \<le> c" "c \<le> 103"
    using shifted_above[OF b(2,3) _ _ _ rc] by auto
  have "two_decimals_in (round_half_away ((2785186648214733 / 35184372088832) * 100)) (round_half_away (103 * 100))
           (parseFloat_text (toFixed2 (Fin c)))"
    using c(2,3) by (intro two_decimals_between) simp_all
  then have t: "two_decimals_in 7916 10300 (parseFloat_text (toFixed2 (Fin c)))"
    by (simp add: round_half_away_def floor_eval)
  have fd: "fl (of_int 7916 / 100) = Fin (2785194894551941 / 35184372088832)"
    using fl_at[of "6" "7916 / 100"] by (simp add: round_even_eval)
  have "parseFloat_text (toFixed2 (Fin c)) \<noteq> Fin (2784843050831053 / 35184372088832)"
    using t fd by (rule two_decimals_above) simp
  then show ?thesis by (simp add: a(1) b(1) c(1) lit_7915_2)
qed

lemma brent_change_below:
  assumes "0 \<le> r" "r \<le> 783 / 1024"
  shows "parseFloat_text (toFixed2 (num_mul (num_sub (Fin r) (lit 5 1)) (lit 3 0))) \<noteq> lit 8 1"
proof -
  have ra: "round_double (783 / 1024 - 1 / 2) = 271 / 1024"
  proof -
    have "round_double (271 / 1024) = 271 / 1024"
      using round_double_at[of "-2" "271 / 1024"] by (simp add: round_even_eval)
    then show ?thesis by (simp add: round_double_minus)
  qed
  obtain a where a: "num_sub (Fin r) (lit 5 1) = Fin a" "- (1 / 2) \<le> a" "a \<le> 271 / 1024"
    using draw_below[OF assms _ ra] by auto
  have rb: "round_double ((271 / 1024) * 3) = 813 / 1024"
  proof -
    have "round_double (813 / 1024) = 813 / 1024"
      using round_double_at[of "-1" "813 / 1024"] by (simp add: round_even_eval)
    then show ?thesis by (simp add: round_double_minus)
  qed
  obtain b where b: "num_mul (Fin a) (lit 3 0) = Fin b" "- (3 / 2) \<le> b" "b \<le> 813 / 1024"
    using scaled_by_3_below[OF a(2,3) _ rb] by auto
  have "two_decimals_in (round_half_away ((- (3 / 2)) * 100)) (round_half_away ((813 / 1024) * 100))
           (parseFloat_text (toFixed2 (Fin b)))"
    using b(2,3) by (intro two_decimals_between) simp_all
  then have t: "two_decimals_in (- 150) 79 (parseFloat_text (toFixed2 (Fin b)))"
    by (simp add: round_half_away_def floor_eval)
  have fd: "fl (of_int 79 / 100) = Fin (889460926405673 / 1125899906842624)"
    using fl_at[of "-1" "79 / 100"] by (simp add: round_even_eval)
  have "parseFloat_text (toFixed2 (Fin b)) \<noteq> Fin (3602879701896397 / 4503599627370496)"
    using t fd by (rule two_decimals_below) simp
  then show ?thesis by (simp add: a(1) b(1) lit_8_1)
qed

lemma brent_change_above:
  assumes "787 / 1024 \<le> r" "r < 1"
  shows "parseFloat_text (toFixed2 (num_mul (num_sub (Fin r) (lit 5 1)) (lit 3 0))) \<noteq> lit 8 1"
proof -
  have ra: "round_double (787 / 1024 - 1 / 2) = 275 / 1024"
  proof -
    have "round_double (275 / 1024) = 275 / 1024"
      using round_double_at[of "-2" "275 / 1024"] by (simp add: round_even_eval)
    then show ?thesis by (simp add: round_double_minus)
  qed
  obtain a where a: "num_sub (Fin r) (lit 5 1) = Fin a" "275 / 1024 \<le> a" "a \<le> 1 / 2"
    using draw_above[OF assms _ ra] by auto
  have rb: "round_double ((275 / 1024) * 3) = 825 / 1024"
  proof -
    have "round_double (825 / 1024) = 825 / 1024"
      using round_double_at[of "-1" "825 / 1024"] by (simp add: round_even_eval)
    then show ?thesis by (simp add: round_double_minus)
  qed
  obtain b where b: "num_mul (Fin a) (lit 3 0) = Fin b" "825 / 1024 \<le> b" "b \<le> 3 / 2"
    using scaled_by_3_above[OF a(2,3) _ rb] by auto
  have "two_decimals_in (round_half_away ((825 / 1024) * 100)) (round_half_away ((3 / 2) * 100))
           (parseFloat_text (toFixed2 (Fin b)))"
    using b(2,3) by (intro two_decimals_between) simp_all
  then have t: "two_decimals_in 81 150 (parseFloat_text (toFixed2 (Fin b)))"
    by (simp add: round_half_away_def floor_eval)
  have fd: "fl (of_int 81 / 100) = Fin (1823957849085051 / 2251799813685248)"
    using fl_at[of "-1" "81 / 100"] by (simp add: round_even_eval)
  have "parseFloat_text (toFixed2 (Fin b)) \<noteq> Fin (3602879701896397 / 4503599627370496)"
    using t fd by (rule two_decimals_above) simp
  then show ?thesis by (simp add: a(1) b(1) lit_8_1)
qed

lemma dubai_price_below:
  assumes "0 \<le> r" "r \<le> 255 / 512"
  shows "parseFloat_text (toFixed2 (num_add (lit 7780 2) (num_mul (num_sub (Fin r) (lit 5 1)) (lit 5 0)))) \<noteq> lit 7780 2"
proof -
  have ra: "round_double (255 / 512 - 1 / 2) = - (1 / 512)"
  proof -
    have "round_double (1 / 512) = 1 / 512"
      using round_double_at[of "-9" "1 / 512"] by (simp add: round_even_eval)
    then show ?thesis by (simp add: round_double_minus)
  qed
  obtain a where a: "num_sub (Fin r) (lit 5 1) = Fin a" "- (1 / 2) \<le> a" "a \<le> - (1 / 512)"
    using draw_below[OF assms _ ra] by auto
  have rb: "round_double ((- (1 / 512)) * 5) = - (5 / 512)"
  proof -
    have "round_double (5 / 512) = 5 / 512"
      using round_double_at[of "-7" "5 / 512"] by (simp add: round_even_eval)
    then show ?thesis by (simp add: round_double_minus)
  qed
  obtain b where b: "num_mul (Fin a) (lit 5 0) = Fin b" "- (5 / 2) \<le> b" "b \<le> - (5 / 512)"
    using scaled_by_5_below[OF a(2,3) _ rb] by auto
  have rc: "round_double (5474688297022259 / 70368744177664 + (- (5 / 512))) = 5474001102254899 / 70368744177664"
  proof -
    have "round_double (5474001102254899 / 70368744177664) = 5474001102254899 / 70368744177664"
      using round_double_at[of "6" "5474001102254899 / 70368744177664"] by (simp add: round_even_eval)
    then show ?thesis by (simp add: round_double_minus)
  qed
  obtain c where c: "fl (5474688297022259 / 70368744177664 + b) = Fin c" "- (5 / 2) \<le> c" "c \<le> 5474001102254899 / 70368744177664"
    using shifted_below[OF b(2,3) _ _ _ rc] by auto
  have "two_decimals_in (round_half_away ((- (5 / 2)) * 100)) (round_half_away ((5474001102254899 / 70368744177664) * 100))
           (parseFloat_text (toFixed2 (Fin c)))"
    using c(2,3) by (intro two_decimals_between) simp_all
  then have t: "two_decimals_in (- 250) 7779 (parseFloat_text (toFixed2 (Fin c)))"
    by (simp add: round_half_away_def floor_eval)
  have fd: "fl (of_int 7779 / 100) = Fin (5473984609580483 / 70368744177664)"
    using fl_at[of "6" "7779 / 100"] by (simp add: round_even_eval)
  have "parseFloat_text (toFixed2 (Fin c)) \<noteq> Fin (5474688297022259 / 70368744177664)"
    using t fd by (rule two_decimals_below) simp
  then show ?thesis by (simp add: a(1) b(1) c(1) lit_7780_2)
qed

lemma dubai_price_above:
  assumes "257 / 512 \<le> r" "r < 1"
  shows "parseFloat_text (toFixed2 (num_add (lit 7780 2) (num_mul (num_sub (Fin r) (lit 5 1)) (lit 5 0)))) \<noteq> lit 7780 2"
proof -
  have ra: "round_double (257 / 512 - 1 / 2) = 1 / 512"
  proof -
    have "round_double (1 / 512) = 1 / 512"
      using round_double_at[of "-9" "1 / 512"] by (simp add: round_even_eval)
    then show ?thesis by (simp add: round_double_minus)
  qed
  obtain a where a: "num_sub (Fin r) (lit 5 1) = Fin a" "1 / 512 \<le> a" "a \<le> 1 / 2"
    using draw_above[OF assms _ ra] by auto
  have rb: "round_double ((1 / 512) * 5) = 5 / 512"
  proof -
    have "round_double (5 / 512) = 5 / 512"
      using round_double_at[of "-7" "5 / 512"] by (simp add: round_even_eval)
    then show ?thesis by (simp add: round_double_minus)
  qed
  obtain b where b: "num_mul (Fin a) (lit 5 0) = Fin b" "5 / 512 \<le> b" "b \<le> 5 / 2"
    using scaled_by_5_above[OF a(2,3) _ rb] by auto
  have rc: "round_double (5474688297022259 / 70368744177664 + (5 / 512)) = 5475375491789619 / 70368744177664"
  proof -
    have "round_double (5475375491789619 / 70368744177664) = 5475375491789619 / 70368744177664"
      using round_double_at[of "6" "5475375491789619 / 70368744177664"] by (simp add: round_even_eval)
    then show ?thesis by (simp add: round_double_minus)
  qed
  obtain c where c: "fl (5474688297022259 / 70368744177664 + b) = Fin c" "5475375491789619 / 70368744177664 \<le> c" "c \<le> 103"
    using shifted_above[OF b(2,3) _ _ _ rc] by auto
  have "two_decimals_in (round_half_away ((5475375491789619 / 70368744177664) * 100)) (round_half_away (103 * 100))
           (parseFloat_text (toFixed2 (Fin c)))"
    using c(2,3) by (intro two_decimals_between) simp_all
  then have t: "two_decimals_in 7781 10300 (parseFloat_text (toFixed2 (Fin c)))"
    by (simp add: round_half_away_def floor_eval)
  have fd: "fl (of_int 7781 / 100) = Fin (1368847996116009 / 17592186044416)"
    using fl_at[of "6" "7781 / 100"] by (simp add: round_even_eval)
  have "parseFloat_text (toFixed2 (Fin c)) \<noteq> Fin (5474688297022259 / 70368744177664)"
    using t fd by (rule two_decimals_above) simp
  then show ?thesis by (simp add: a(1) b(1) c(1) lit_7780_2)
qed

lemma dubai_change_below:
  assumes "0 \<le> r" "r \<le> 339 / 1024"
  shows "parseFloat_text (toFixed2 (num_mul (num_sub (Fin r) (lit 5 1)) (lit 3 0))) \<noteq> num_neg (lit 5 1)"
proof -
  have ra: "round_double (339 / 1024 - 1 / 2) = - (173 / 1024)"
  proof -
    have "round_double (173 / 1024) = 173 / 1024"
      using round_double_at[of "-3" "173 / 1024"] by (simp add: round_even_eval)
    then show ?thesis by (simp add: round_double_minus)
  qed
  obtain a where a: "num_sub (Fin r) (lit 5 1) = Fin a" "- (1 / 2) \<le> a" "a \<le> - (173 / 1024)"
    using draw_below[OF assms _ ra] by auto
  have rb: "round_double ((- (173 / 1024)) * 3) = - (519 / 1024)"
  proof -
    have "round_double (519 / 1024) = 519 / 1024"
      using round_double_at[of "-1" "519 / 1024"] by (simp add: round_even_eval)
    then show ?thesis by (simp add: round_double_minus)
  qed
  obtain b where b: "num_mul (Fin a) (lit 3 0) = Fin b" "- (3 / 2) \<le> b" "b \<le> - (519 / 1024)"
    using scaled_by_3_below[OF a(2,3) _ rb] by auto
  have "two_decimals_in (round_half_away ((- (3 / 2)) * 100)) (round_half_away ((- (519 / 1024)) * 100))
           (parseFloat_text (toFixed2 (Fin b)))"
    using b(2,3) by (intro two_decimals_between) simp_all
  then have t: "two_decimals_in (- 150) (- 51) (parseFloat_text (toFixed2 (Fin b)))"
    by (simp add: round_half_away_def floor_eval)
  have fd: "fl (of_int (- 51) / 100) = Fin (- (2296835809958953 / 4503599627370496))"
  proof -
    have "round_double (51 / 100) = 2296835809958953 / 4503599627370496"
      using round_double_at[of "-1" "51 / 100"] by (simp add: round_even_eval)
    then show ?thesis by (simp add: fl_small round_double_minus)
  qed
  have "parseFloat_text (toFixed2 (Fin b)) \<noteq> Fin (- (1 / 2))"
    using t fd by (rule two_decimals_below) simp
  then show ?thesis unfolding a(1) b(1) by (simp add: lit_5_1)
qed

lemma dubai_change_above:
  assumes "43 / 128 \<le> r" "r < 1"
  shows "parseFloat_text (toFixed2 (num_mul (num_sub (Fin r) (lit 5 1)) (lit 3 0))) \<noteq> num_neg (lit 5 1)"
proof -
  have ra: "round_double (43 / 128 - 1 / 2) = - (21 / 128)"
  proof -
    have "round_double (21 / 128) = 21 / 128"
      using round_double_at[of "-3" "21 / 128"] by (simp add: round_even_eval)
    then show ?thesis by (simp add: round_double_minus)
  qed
  obtain a where a: "num_sub (Fin r) (lit 5 1) = Fin a" "- (21 / 128) \<le> a" "a \<le> 1 / 2"
    using draw_above[OF assms _ ra] by auto
  have rb: "round_double ((- (21 / 128)) * 3) = - (63 / 128)"
  proof -
    have "round_double (63 / 128) = 63 / 128"
      using round_double_at[of "-2" "63 / 128"] by (simp add: round_even_eval)
    then show ?thesis by (simp add: round_double_minus)
  qed
  obtain b where b: "num_mul (Fin a) (lit 3 0) = Fin b" "- (63 / 128) \<le> b" "b \<le> 3 / 2"
    using scaled_by_3_above[OF a(2,3) _ rb] by auto
  have "two_decimals_in (round_half_away ((- (63 / 128)) * 100)) (round_half_away ((3 / 2) * 100))
           (parseFloat_text (toFixed2 (Fin b)))"
    using b(2,3) by (intro two_decimals_between) simp_all
  then have t: "two_decimals_in (- 49) 150 (parseFloat_text (toFixed2 (Fin b)))"
    by (simp add: round_half_away_def floor_eval)
  have fd: "fl (of_int (- 49) / 100) = Fin (- (2206763817411543 / 4503599627370496))"
  proof -
    have "round_double (49 / 100) = 2206763817411543 / 4503599627370496"
      using round_double_at[of "-2" "49 / 100"] by (simp add: round_even_eval)
    then show ?thesis by (simp add: fl_small round_double_minus)
  qed
  have "parseFloat_text (toFixed2 (Fin b)) \<noteq> Fin (- (1 / 2))"
    using t fd by (rule two_decimals_above) simp
  then show ?thesis unfolding a(1) b(1) by (simp add: lit_5_1)
qed

lemma wti_price_at_snapshot:
  "parseFloat_text (toFixed2 (num_add (lit 7542 2) (num_mul (num_sub (Fin (1 / 2)) (lit 5 1)) (lit 5 0)))) = lit 7542 2"
proof -
  have fa: "fl 0 = Fin 0" by (rule fl_zero)
  have a: "num_sub (Fin (1 / 2)) (lit 5 1) = Fin (0)"
    by (simp add: num_sub_def lit_5_1 fa)
  have fb: "fl 0 = Fin 0" by (rule fl_zero)
  have b: "num_mul (Fin (0)) (lit 5 0) = Fin (0)"
    by (simp add: lit_5_0 fb)
  have fc: "fl (5307210685879419 / 70368744177664) = Fin (5307210685879419 / 70368744177664)"
  proof -
    have "round_double (5307210685879419 / 70368744177664) = 5307210685879419 / 70368744177664"
      using round_double_at[of "6" "5307210685879419 / 70368744177664"] by (simp add: round_even_eval)
    then show ?thesis by (simp add: fl_small round_double_minus)
  qed
  have c: "num_add (lit 7542 2) (Fin (0)) = Fin (5307210685879419 / 70368744177664)"
    by (simp add: lit_7542_2 fc)
  have d: "parseFloat_text (toFixed2 (Fin (5307210685879419 / 70368744177664))) = lit 7542 2"
    by (simp add: round_half_away_def floor_eval lit_def)
  show ?thesis by (simp only: a b c d)
qed

lemma wti_change_at_snapshot:
  "parseFloat_text (toFixed2 (num_mul (num_sub (Fin (461 / 512)) (lit 5 1)) (lit 3 0))) = lit 12 1"
proof -
  have fa: "fl (205 / 512) = Fin (205 / 512)"
  proof -
    have "round_double (205 / 512) = 205 / 512"
      using round_double_at[of "-2" "205 / 512"] by (simp add: round_even_eval)
    then show ?thesis by (simp add: fl_small round_double_minus)
  qed
  have a: "num_sub (Fin (461 / 512)) (lit 5 1) = Fin (205 / 512)"
    by (simp add: num_sub_def lit_5_1 fa)
  have fb: "fl (615 / 512) = Fin (615 / 512)"
  proof -
    have "round_double (615 / 512) = 615 / 512"
      using round_double_at[of "0" "615 / 512"] by (simp add: round_even_eval)
    then show ?thesis by (simp add: fl_small round_double_minus)
  qed
  have b: "num_mul (Fin (205 / 512)) (lit 3 0) = Fin (615 / 512)"
    by (simp add: lit_3_0 fb)
  have d: "parseFloat_text (toFixed2 (Fin (615 / 512))) = lit 12 1"
    by (simp add: round_half_away_def floor_eval lit_def)
  show ?thesis by (simp only: a b  d)
qed

lemma brent_price_at_snapshot:
  "parseFloat_text (toFixed2 (num_add (lit 7915 2) (num_mul (num_sub (Fin (1 / 2)) (lit 5 1)) (lit 5 0)))) = lit 7915 2"
proof -
  have fa: "fl 0 = Fin 0" by (rule fl_zero)
  have a: "num_sub (Fin (1 / 2)) (lit 5 1) = Fin (0)"
    by (simp add: num_sub_def lit_5_1 fa)
  have fb: "fl 0 = Fin 0" by (rule fl_zero)
  have b: "num_mul (Fin (0)) (lit 5 0) = Fin (0)"
    by (simp add: lit_5_0 fb)
  have fc: "fl (2784843050831053 / 35184372088832) = Fin (2784843050831053 / 35184372088832)"
  proof -
    have "round_double (2784843050831053 / 35184372088832) = 2784843050831053 / 35184372088832"
      using round_double_at[of "6" "2784843050831053 / 35184372088832"] by (simp add: round_even_eval)
    then show ?thesis by (simp add: fl_small round_double_minus)
  qed
  have c: "num_add (lit 7915 2) (Fin (0)) = Fin (2784843050831053 / 35184372088832)"
    by (simp add: lit_7915_2 fc)
  have d: "parseFloat_text (toFixed2 (Fin (2784843050831053 / 35184372088832))) = lit 7915 2"
    by (simp add: round_half_away_def floor_eval lit_def)
  show ?thesis by (simp only: a b c d)
qed

lemma brent_change_at_snapshot:
  "parseFloat_text (toFixed2 (num_mul (num_sub (Fin (785 / 1024)) (lit 5 1)) (lit 3 0))) = lit 8 1"
proof -
  have fa: "fl (273 / 1024) = Fin (273 / 1024)"
  proof -
    have "round_double (273 / 1024) = 273 / 1024"
      using round_double_at[of "-2" "273 / 1024"] by (simp add: round_even_eval)
    then show ?thesis by (simp add: fl_small round_double_minus)
  qed
  have a: "num_sub (Fin (785 / 1024)) (lit 5 1) = Fin (273 / 1024)"
    by (simp add: num_sub_def lit_5_1 fa)
  have fb: "fl (819 / 1024) = Fin (819 / 1024)"
  proof -
    have "round_double (819 / 1024) = 819 / 1024"
      using round_double_at[of "-1" "819 / 1024"] by (simp add: round_even_eval)
    then show ?thesis by (simp add: fl_small round_double_minus)
  qed
  have b: "num_mul (Fin (273 / 1024)) (lit 3 0) = Fin (819 / 1024)"
    by (simp add: lit_3_0 fb)
  have d: "parseFloat_text (toFixed2 (Fin (819 / 1024))) = lit 8 1"
    by (simp add: round_half_away_def floor_eval lit_def)
  show ?thesis by (simp only: a b  d)
qed

lemma dubai_price_at_snapshot:
  "parseFloat_text (toFixed2 (num_add (lit 7780 2) (num_mul (num_sub (Fin (1 / 2)) (lit 5 1)) (lit 5 0)))) = lit 7780 2"
proof -
  have fa: "fl 0 = Fin 0" by (rule fl_zero)
  have a: "num_sub (Fin (1 / 2)) (lit 5 1) = Fin (0)"
    by (simp add: num_sub_def lit_5_1 fa)
  have fb: "fl 0 = Fin 0" by (rule fl_zero)
  have b: "num_mul (Fin (0)) (lit 5 0) = Fin (0)"
    by (simp add: lit_5_0 fb)
  have fc: "fl (5474688297022259 / 70368744177664) = Fin (5474688297022259 / 70368744177664)"
  proof -
    have "round_double (5474688297022259 / 70368744177664) = 5474688297022259 / 70368744177664"
      using round_double_at[of "6" "5474688297022259 / 70368744177664"] by (simp add: round_even_eval)
    then show ?thesis by (simp add: fl_small round_double_minus)
  qed
  have c: "num_add (lit 7780 2) (Fin (0)) = Fin (5474688297022259 / 70368744177664)"
    by (simp add: lit_7780_2 fc)
  have d: "parseFloat_text (toFixed2 (Fin (5474688297022259 / 70368744177664))) = lit 7780 2"
    by (simp add: round_half_away_def floor_eval lit_def)
  show ?thesis by (simp only: a b c d)
qed

lemma dubai_change_at_snapshot:
  "parseFloat_text (toFixed2 (num_mul (num_sub (Fin (341 / 1024)) (lit 5 1)) (lit 3 0))) = num_neg (lit 5 1)"
proof -
  have fa: "fl (- (171 / 1024)) = Fin (- (171 / 1024))"
  proof -
    have "round_double (171 / 1024) = 171 / 1024"
      using round_double_at[of "-3" "171 / 1024"] by (simp add: round_even_eval)
    then show ?thesis by (simp add: fl_small round_double_minus)
  qed
  have a: "num_sub (Fin (341 / 1024)) (lit 5 1) = Fin (- (171 / 1024))"
    by (simp add: num_sub_def lit_5_1 fa)
  have fb: "fl (- (513 / 1024)) = Fin (- (513 / 1024))"
  proof -
    have "round_double (513 / 1024) = 513 / 1024"
      using round_double_at[of "-1" "513 / 1024"] by (simp add: round_even_eval)
    then show ?thesis by (simp add: fl_small round_double_minus)
  qed
  have b: "num_mul (Fin (- (171 / 1024))) (lit 3 0) = Fin (- (513 / 1024))"
    by (simp add: lit_3_0 fb)
  have d: "parseFloat_text (toFixed2 (Fin (- (513 / 1024)))) = num_neg (lit 5 1)"
    by (simp add: round_half_away_def floor_eval lit_5_1 fl_small round_double_minus round_double_half)
  show ?thesis by (simp only: a b  d)
qed

lemma worldData_draws:
  "price (wti (fst (worldData ex w))) =
     parseFloat_text (toFixed2 (num_add (lit 7542 2)
       (num_mul (num_sub (Fin (entropy w (draws w))) (lit 5 1)) (lit 5 0))))"
  "change (wti (fst (worldData ex w))) =
     parseFloat_text (toFixed2 (num_mul (num_sub (Fin (entropy w (draws w + 1))) (lit 5 1)) (lit 3 0)))"
  "price (brent (fst (worldData ex w))) =
     parseFloat_text (toFixed2 (num_add (lit 7915 2)
       (num_mul (num_sub (Fin (entropy w (draws w + 2))) (lit 5 1)) (lit 5 0))))"
  "change (brent (fst (worldData ex w))) =
     parseFloat_text (toFixed2 (num_mul (num_sub (Fin (entropy w (draws w + 3))) (lit 5 1)) (lit 3 0)))"
  "price (dubai (fst (worldData ex w))) =
     parseFloat_text (toFixed2 (num_add (lit 7780 2)
       (num_mul (num_sub (Fin (entropy w (draws w + 4))) (lit 5 1)) (lit 5 0))))"
  "change (dubai (fst (worldData ex w))) =
     parseFloat_text (toFixed2 (num_mul (num_sub (Fin (entropy w (draws w + 5))) (lit 5 1)) (lit 3 0)))"
proof -
  have e1: "entropy (snd (benchmark b w)) = entropy w" for b using benchmark_frame by blast
  have e2: "entropy (snd (benchmark b' (snd (benchmark b w)))) = entropy w" for b b'
    using benchmark_frame[of b' "snd (benchmark b w)"] e1 by simp
  have i: "Suc (draws w) = draws w + 1" "Suc (Suc (draws w)) = draws w + 2"
    "Suc (Suc (Suc (draws w))) = draws w + 3" "Suc (Suc (Suc (Suc (draws w)))) = draws w + 4"
    "Suc (Suc (Suc (Suc (Suc (draws w))))) = draws w + 5"
    by simp_all
  show "price (wti (fst (worldData ex w))) =
     parseFloat_text (toFixed2 (num_add (lit 7542 2)
       (num_mul (num_sub (Fin (entropy w (draws w))) (lit 5 1)) (lit 5 0))))"
    by (simp add: worldData_fields benchmark_quote round_quote_def)
  show "change (wti (fst (worldData ex w))) =
     parseFloat_text (toFixed2 (num_mul (num_sub (Fin (entropy w (draws w + 1))) (lit 5 1)) (lit 3 0)))"
    unfolding i[symmetric] by (simp add: worldData_fields benchmark_quote round_quote_def)
  show "price (brent (fst (worldData ex w))) =
     parseFloat_text (toFixed2 (num_add (lit 7915 2)
       (num_mul (num_sub (Fin (entropy w (draws w + 2))) (lit 5 1)) (lit 5 0))))"
    unfolding i[symmetric]
    by (simp add: worldData_fields benchmark_quote round_quote_def e1 benchmark_draws)
  show "change (brent (fst (worldData ex w))) =
     parseFloat_text (toFixed2 (num_mul (num_sub (Fin (entropy w (draws w + 3))) (lit 5 1)) (lit 3 0)))"
    unfolding i[symmetric]
    by (simp add: worldData_fields benchmark_quote round_quote_def e1 benchmark_draws)
  show "price (dubai (fst (worldData ex w))) =
     parseFloat_text (toFixed2 (num_add (lit 7780 2)
       (num_mul (num_sub (Fin (entropy w (draws w + 4))) (lit 5 1)) (lit 5 0))))"
    unfolding i[symmetric]
    by (simp add: worldData_fields benchmark_quote round_quote_def e2 benchmark_draws)
  show "change (dubai (fst (worldData ex w))) =
     parseFloat_text (toFixed2 (num_mul (num_sub (Fin (entropy w (draws w + 5))) (lit 5 1)) (lit 3 0)))"
    unfolding i[symmetric]
    by (simp add: worldData_fields benchmark_quote round_quote_def e2 benchmark_draws)
qed

lemma worldData_snapshot_draws:
  assumes ent: "\<forall>n. 0 \<le> entropy w n \<and> entropy w n < 1"
      and eq: "fst (worldData ex w) = getFallbackWorldPrices"
  shows "249 / 500 < entropy w (draws w) \<and> entropy w (draws w) < 251 / 500 \<and>
         897 / 1000 < entropy w (draws w + 1) \<and> entropy w (draws w + 1) < 903 / 1000 \<and>
         249 / 500 < entropy w (draws w + 2) \<and> entropy w (draws w + 2) < 251 / 500 \<and>
         764 / 1000 < entropy w (draws w + 3) \<and> entropy w (draws w + 3) < 769 / 1000 \<and>
         249 / 500 < entropy w (draws w + 4) \<and> entropy w (draws w + 4) < 251 / 500 \<and>
         331 / 1000 < entropy w (draws w + 5) \<and> entropy w (draws w + 5) < 336 / 1000"
proof -
  have r: "0 \<le> entropy w n" "entropy w n < 1" for n using ent by auto
  have s: "price (wti (fst (worldData ex w))) = lit 7542 2"
    "change (wti (fst (worldData ex w))) = lit 12 1"
    "price (brent (fst (worldData ex w))) = lit 7915 2"
    "change (brent (fst (worldData ex w))) = lit 8 1"
    "price (dubai (fst (worldData ex w))) = lit 7780 2"
    "change (dubai (fst (worldData ex w))) = num_neg (lit 5 1)"
    unfolding eq by (simp_all add: getFallbackWorldPrices_def)
  have p0: "249 / 500 < entropy w (draws w) \<and> entropy w (draws w) < 251 / 500"
  proof (rule ccontr)
    assume "\<not> ?thesis"
    then consider "entropy w (draws w) \<le> 255 / 512" | "257 / 512 \<le> entropy w (draws w)"
      by linarith
    then show False
      using wti_price_below[OF r(1)] wti_price_above[OF _ r(2)] s(1)
      unfolding worldData_draws by cases blast+
  qed
  have p1: "897 / 1000 < entropy w (draws w + 1) \<and> entropy w (draws w + 1) < 903 / 1000"
  proof (rule ccontr)
    assume "\<not> ?thesis"
    then consider "entropy w (draws w + 1) \<le> 919 / 1024" | "231 / 256 \<le> entropy w (draws w + 1)"
      by linarith
    then show False
      using wti_change_below[OF r(1)] wti_change_above[OF _ r(2)] s(2)
      unfolding worldData_draws by cases blast+
  qed
  have p2: "249 / 500 < entropy w (draws w + 2) \<and> entropy w (draws w + 2) < 251 / 500"
  proof (rule ccontr)
    assume "\<not> ?thesis"
    then consider "entropy w (draws w + 2) \<le> 255 / 512" | "257 / 512 \<le> entropy w (draws w + 2)"
      by linarith
    then show False
      using brent_price_below[OF r(1)] brent_price_above[OF _ r(2)] s(3)
      unfolding worldData_draws by cases blast+
  qed
  have p3: "764 / 1000 < entropy w (draws w + 3) \<and> entropy w (draws w + 3) < 769 / 1000"
  proof (rule ccontr)
    assume "\<not> ?thesis"
    then consider "entropy w (draws w + 3) \<le> 783 / 1024" | "787 / 1024 \<le> entropy w (draws w + 3)"
      by linarith
    then show False
      using brent_change_below[OF r(1)] brent_change_above[OF _ r(2)] s(4)
      unfolding worldData_draws by cases blast+
  qed
  have p4: "249 / 500 < entropy w (draws w + 4) \<and> entropy w (draws w + 4) < 251 / 500"
  proof (rule ccontr)
    assume "\<not> ?thesis"
    then consider "entropy w (draws w + 4) \<le> 255 / 512" | "257 / 512 \<le> entropy w (draws w + 4)"
      by linarith
    then show False
      using dubai_price_below[OF r(1)] dubai_price_above[OF _ r(2)] s(5)
      unfolding worldData_draws by cases blast+
  qed
  have p5: "331 / 1000 < entropy w (draws w + 5) \<and> entropy w (draws w + 5) < 336 / 1000"
  proof (rule ccontr)
    assume "\<not> ?thesis"
    then consider "entropy w (draws w + 5) \<le> 339 / 1024" | "43 / 128 \<le> entropy w (draws w + 5)"
      by linarith
    then show False
      using dubai_change_below[OF r(1)] dubai_change_above[OF _ r(2)] s(6)
      unfolding worldData_draws by cases blast+
  qed
  show ?thesis using p0 p1 p2 p3 p4 p5 by blast
qed

lemma fetchExchangeRate_absent_on_failure:
  assumes "fst (fetchExchangeRate_try w) = Inl e"
  shows "fst (fetchExchangeRate w) = Inr None"
  using assms by (cases "fetchExchangeRate_try w") (simp add: fetchExchangeRate_eq)

lemma world_coincide_entropy:
  "\<forall>n. 0 \<le> entropy world_coincide n \<and> entropy world_coincide n < 1"
  by (simp add: world_coincide_def world0_def)

lemma world_coincide_generated:
  assumes "entropy w = entropy world_coincide" "draws w = 0"
  shows "fst (worldData None w) = getFallbackWorldPrices"
proof -
  have e: "entropy w (draws w) = 1 / 2" "entropy w (draws w + 1) = 461 / 512"
    "entropy w (draws w + 2) = 1 / 2" "entropy w (draws w + 3) = 785 / 1024"
    "entropy w (draws w + 4) = 1 / 2" "entropy w (draws w + 5) = 341 / 1024"
    by (simp_all add: assms world_coincide_def)
  have p: "price (wti (fst (worldData None w))) = lit 7542 2"
    "change (wti (fst (worldData None w))) = lit 12 1"
    "price (brent (fst (worldData None w))) = lit 7915 2"
    "change (brent (fst (worldData None w))) = lit 8 1"
    "price (dubai (fst (worldData None w))) = lit 7780 2"
    "change (dubai (fst (worldData None w))) = num_neg (lit 5 1)"
    unfolding worldData_draws e
    by (rule wti_price_at_snapshot wti_change_at_snapshot brent_price_at_snapshot
        brent_change_at_snapshot dubai_price_at_snapshot dubai_change_at_snapshot)+
  have q1: "wti (fst (worldData None w)) = wti getFallbackWorldPrices"
    by (intro quote.equality) (simp_all add: p getFallbackWorldPrices_def)
  have q2: "brent (fst (worldData None w)) = brent getFallbackWorldPrices"
    by (intro quote.equality) (simp_all add: p getFallbackWorldPrices_def)
  have q3: "dubai (fst (worldData None w)) = dubai getFallbackWorldPrices"
    by (intro quote.equality) (simp_all add: p getFallbackWorldPrices_def)
  have q4: "thb (fst (worldData None w)) = thb getFallbackWorldPrices"
    by (simp add: worldData_thb_fallback getFallbackWorldPrices_def)
  show ?thesis using q1 q2 q3 q4 by (intro world_prices.equality) simp_all
qed

lemma world_coincide_prices:
  "fst (getWorldPrices world_coincide) = Inr (WorldPrices getFallbackWorldPrices)"
proof -
  let ?w1 = "external_call (GetCommand ''world_prices'') world_coincide"
  let ?w2 = "external_call (Fetch ''https://api.exchangerate-api.com/v4/latest/USD'') ?w1"
  have g: "getFromCache ''world_prices'' (lit 3600 0) world_coincide = (Inr None, ?w1)"
    by (simp add: getFromCache_eq world_coincide_def world0_def)
  have "fst (fetchExchangeRate ?w1) = Inr None"
    by (simp add: fetchExchangeRate_eq fetchExchangeRate_try_eq Let_def external_call_simps
        world_coincide_def world0_def)
  then have f: "fetchExchangeRate ?w1 = (Inr None, ?w2)"
    using fetchExchangeRate_absent_world[of ?w1 "snd (fetchExchangeRate ?w1)"]
    by (metis prod.collapse)
  have d: "fst (worldData None ?w2) = getFallbackWorldPrices"
    by (rule world_coincide_generated)
       (simp_all add: external_call_simps world_coincide_def world0_def)
  show ?thesis
    by (simp add: getWorldPrices_def await_def g try_catch_def getWorldPrices_try_eq[OF f] d)
qed

text \<open>
  Claim C10, as the code has it. \<^verbatim>\<open>fetchExchangeRate\<close> never rejects: whatever goes wrong
  inside it (network failure, a bad status, a body that is not JSON, a missing or
  non-numeric THB rate) ends in its own \<^verbatim>\<open>catch\<close> block, which returns \<^verbatim>\<open>null\<close>. The \<^verbatim>\<open>try\<close>
  block of \<^verbatim>\<open>getWorldPrices\<close> therefore always resolves with the freshly generated payload,
  its \<^verbatim>\<open>catch\<close> block (the one returning \<^verbatim>\<open>getFallbackWorldPrices()\<close>) is never entered,
  and \<^verbatim>\<open>getWorldPrices\<close> returns the cached payload on a hit and the generated one
  otherwise; the handler answers 200. The payload returned can still be equal in value
  to the fallback snapshot. With every value of the entropy source in [0, 1), a generated
  payload equals the snapshot only when the three price draws lie strictly between
  0.498 and 0.502 and the three change draws strictly between 0.897 and 0.903, between
  0.764 and 0.769, and between 0.331 and 0.336 (and the currency quote comes out as
  \<^verbatim>\<open>{price: 34.85, change: 0}\<close>, as it does when the exchange rate is absent).
\<close>

theorem world_prices_catch_unreachable:
  "(\<exists>ex wa. fetchExchangeRate w = (Inr ex, wa) \<and>
      (\<exists>wb. getWorldPrices_try w = (Inr (WorldPrices (fst (worldData ex wa))), wb))) \<and>
   (fst (fetchExchangeRate_try w) = Inl e \<longrightarrow> fst (fetchExchangeRate w) = Inr None) \<and>
   (\<exists>c w1. getFromCache ''world_prices'' (lit 3600 0) w = (Inr c, w1) \<and>
      getWorldPrices w = (case c of Some d \<Rightarrow> (Inr d, w1) | None \<Rightarrow> getWorldPrices_try w1)) \<and>
   (\<exists>d. fst (get_world_prices w) = \<lparr>status = 200, body = Json d\<rparr>) \<and>
   ((\<forall>n. 0 \<le> entropy w n \<and> entropy w n < 1) \<longrightarrow>
      fst (worldData rate w) = getFallbackWorldPrices \<longrightarrow>
        249 / 500 < entropy w (draws w) \<and> entropy w (draws w) < 251 / 500 \<and>
        897 / 1000 < entropy w (draws w + 1) \<and> entropy w (draws w + 1) < 903 / 1000 \<and>
        249 / 500 < entropy w (draws w + 2) \<and> entropy w (draws w + 2) < 251 / 500 \<and>
        764 / 1000 < entropy w (draws w + 3) \<and> entropy w (draws w + 3) < 769 / 1000 \<and>
        249 / 500 < entropy w (draws w + 4) \<and> entropy w (draws w + 4) < 251 / 500 \<and>
        331 / 1000 < entropy w (draws w + 5) \<and> entropy w (draws w + 5) < 336 / 1000)"
proof (intro conjI)
  obtain ex where "fst (fetchExchangeRate w) = Inr ex" using fetchExchangeRate_resolves by blast
  then have f: "fetchExchangeRate w = (Inr ex, snd (fetchExchangeRate w))"
    by (metis prod.collapse)
  show "\<exists>ex wa. fetchExchangeRate w = (Inr ex, wa) \<and>
      (\<exists>wb. getWorldPrices_try w = (Inr (WorldPrices (fst (worldData ex wa))), wb))"
    using f getWorldPrices_try_eq[OF f] by blast
next
  show "fst (fetchExchangeRate_try w) = Inl e \<longrightarrow> fst (fetchExchangeRate w) = Inr None"
    using fetchExchangeRate_absent_on_failure by blast
next
  let ?c = "if db_fails w (length (trace w)) then None
           else case table w ''world_prices'' of
                  None \<Rightarrow> None
                | Some it \<Rightarrow>
                    if num_lt (ageInSeconds it (external_call (GetCommand ''world_prices'') w)) (lit 3600 0)
                    then Some (data it) else None"
  let ?w1 = "external_call (GetCommand ''world_prices'') w"
  have g: "getFromCache ''world_prices'' (lit 3600 0) w = (Inr ?c, ?w1)" by (rule getFromCache_eq)
  obtain ex where "fst (fetchExchangeRate ?w1) = Inr ex" using fetchExchangeRate_resolves by blast
  then have f: "fetchExchangeRate ?w1 = (Inr ex, snd (fetchExchangeRate ?w1))"
    by (metis prod.collapse)
  have t: "try_catch getWorldPrices_try (\<lambda>error. resolve (WorldPrices getFallbackWorldPrices)) ?w1
      = getWorldPrices_try ?w1"
    by (simp add: try_catch_def getWorldPrices_try_eq[OF f])
  have "getWorldPrices w = (case ?c of Some d \<Rightarrow> (Inr d, ?w1) | None \<Rightarrow> getWorldPrices_try ?w1)"
    unfolding getWorldPrices_def await_def g by (simp add: t resolve_def split: option.splits)
  with g show "\<exists>c w1. getFromCache ''world_prices'' (lit 3600 0) w = (Inr c, w1) \<and>
      getWorldPrices w = (case c of Some d \<Rightarrow> (Inr d, w1) | None \<Rightarrow> getWorldPrices_try w1)"
    by blast
  then obtain c w1 where gw: "getWorldPrices w = (case c of Some d \<Rightarrow> (Inr d, w1) | None \<Rightarrow> getWorldPrices_try w1)"
    by blast
  obtain ex2 where "fst (fetchExchangeRate w1) = Inr ex2" using fetchExchangeRate_resolves by blast
  then have f2: "fetchExchangeRate w1 = (Inr ex2, snd (fetchExchangeRate w1))"
    by (metis prod.collapse)
  show "\<exists>d. fst (get_world_prices w) = \<lparr>status = 200, body = Json d\<rparr>"
    by (cases c) (simp_all add: get_world_prices_def handler_def gw getWorldPrices_try_eq[OF f2])
next
  show "(\<forall>n. 0 \<le> entropy w n \<and> entropy w n < 1) \<longrightarrow>
      fst (worldData rate w) = getFallbackWorldPrices \<longrightarrow>
        249 / 500 < entropy w (draws w) \<and> entropy w (draws w) < 251 / 500 \<and>
        897 / 1000 < entropy w (draws w + 1) \<and> entropy w (draws w + 1) < 903 / 1000 \<and>
        249 / 500 < entropy w (draws w + 2) \<and> entropy w (draws w + 2) < 251 / 500 \<and>
        764 / 1000 < entropy w (draws w + 3) \<and> entropy w (draws w + 3) < 769 / 1000 \<and>
        249 / 500 < entropy w (draws w + 4) \<and> entropy w (draws w + 4) < 251 / 500 \<and>
        331 / 1000 < entropy w (draws w + 5) \<and> entropy w (draws w + 5) < 336 / 1000"
    using worldData_snapshot_draws[of w rate] by blast
qed

theorem world_prices_catch_unreachable_witness:
  "fst (fetchExchangeRate_try world_no_rate) = Inl TypeError \<and>
   fst (fetchExchangeRate world_no_rate) = Inr None \<and>
   (\<forall>n. 0 \<le> entropy world0 n \<and> entropy world0 n < 1) \<and>
   fst (fetchExchangeRate world0) = Inr None \<and>
   status (fst (get_world_prices world0)) = 200 \<and>
   fst (getWorldPrices world0) \<noteq> Inr (WorldPrices getFallbackWorldPrices)"
proof -
  have a: "fst (fetchExchangeRate_try world_no_rate) = Inl TypeError"
    by (simp add: fetchExchangeRate_try_eq Let_def world_no_rate_def world0_def and_then_def)
  have b: "fst (fetchExchangeRate world_no_rate) = Inr None"
    using world_prices_catch_unreachable[where w = world_no_rate and e = TypeError] a by blast
  have c: "\<forall>n. 0 \<le> entropy world0 n \<and> entropy world0 n < 1" by (simp add: world0_def)
  have d: "fst (fetchExchangeRate world0) = Inr None"
    by (simp add: fetchExchangeRate_eq fetchExchangeRate_try_eq Let_def world0_def)
  from world_prices_catch_unreachable[where w = world0]
  obtain p where "fst (get_world_prices world0) = \<lparr>status = 200, body = Json p\<rparr>" by blast
  then have s: "status (fst (get_world_prices world0)) = 200" by simp
  let ?w1 = "external_call (GetCommand ''world_prices'') world0"
  from world_prices_catch_unreachable[where w = world0]
  obtain k w1 where g: "getFromCache ''world_prices'' (lit 3600 0) world0 = (Inr k, w1)"
    and r: "getWorldPrices world0 = (case k of Some d \<Rightarrow> (Inr d, w1) | None \<Rightarrow> getWorldPrices_try w1)"
    by blast
  have "getFromCache ''world_prices'' (lit 3600 0) world0 = (Inr None, ?w1)"
    by (simp add: getFromCache_eq world0_def)
  then have k: "k = None" "w1 = ?w1" using g by simp_all
  from world_prices_catch_unreachable[where w = ?w1]
  obtain ex wa wb where f: "fetchExchangeRate ?w1 = (Inr ex, wa)"
    and t: "getWorldPrices_try ?w1 = (Inr (WorldPrices (fst (worldData ex wa))), wb)"
    by blast
  have "wa = snd (fetchExchangeRate ?w1)" using f by simp
  then have ea: "entropy wa = entropy world0"
    by (simp add: fetchExchangeRate_entropy external_call_simps)
  have "\<not> (897 / 1000 < entropy wa (draws wa + 1))" by (simp add: ea world0_def)
  moreover have "\<forall>n. 0 \<le> entropy wa n \<and> entropy wa n < 1" using c ea by simp
  ultimately have "fst (worldData ex wa) \<noteq> getFallbackWorldPrices"
    using world_prices_catch_unreachable[where w = wa and rate = ex] by blast
  then have n: "fst (getWorldPrices world0) \<noteq> Inr (WorldPrices getFallbackWorldPrices)"
    by (simp add: r k t)
  show ?thesis using a b c d s n by blast
qed

text \<open>
  The claim as it was stated fails in \<open>world_coincide\<close>: the cache misses, the
  exchange-rate fetch returns absent, the draws 0.5, 0.900390625, 0.5, 0.7666015625, 0.5
  and 0.3330078125 round to the offsets of the snapshot, and \<^verbatim>\<open>/world-prices\<close> answers
  200 with a generated payload that is the complete fallback snapshot.
\<close>

theorem world_prices_equal_the_snapshot:
  "(\<forall>n. 0 \<le> entropy world_coincide n \<and> entropy world_coincide n < 1) \<and>
   fst (getFromCache ''world_prices'' (lit 3600 0) world_coincide) = Inr None \<and>
   fst (fetchExchangeRate (external_call (GetCommand ''world_prices'') world_coincide)) = Inr None \<and>
   fst (getWorldPrices world_coincide) = Inr (WorldPrices getFallbackWorldPrices) \<and>
   fst (get_world_prices world_coincide)
     = \<lparr>status = 200, body = Json (WorldPrices getFallbackWorldPrices)\<rparr>"
proof -
  have g: "fst (getFromCache ''world_prices'' (lit 3600 0) world_coincide) = Inr None"
    by (simp add: getFromCache_eq world_coincide_def world0_def)
  have f: "fst (fetchExchangeRate (external_call (GetCommand ''world_prices'') world_coincide)) = Inr None"
    by (simp add: fetchExchangeRate_eq fetchExchangeRate_try_eq Let_def external_call_simps
        world_coincide_def world0_def)
  have h: "fst (get_world_prices world_coincide)
     = \<lparr>status = 200, body = Json (WorldPrices getFallbackWorldPrices)\<rparr>"
    using world_coincide_prices
    by (cases "getWorldPrices world_coincide") (simp add: get_world_prices_def handler_def)
  show ?thesis using world_coincide_entropy g f world_coincide_prices h by blast
qed

section \<open>Cache round trip\<close>

lemma fl_valid_time:
  assumes "valid_time t"
  shows "fl (of_int t) = Fin (of_int t)"
  using assms by (intro fl_of_int) (simp add: valid_time_def)

lemma lit_whole: 
  assumes "\<bar>n\<bar> < 2 ^ 53"
  shows "lit n 0 = Fin (of_int n)"
  using fl_of_int[OF assms] by (simp add: lit_def)

lemma lit_1000: "lit 1000 0 = Fin 1000"
  using lit_whole[of 1000] by simp

lemma age_valid:
  assumes "valid_time t0" "valid_time t1"
  shows "num_div (num_sub (fl (of_int t1)) (fl (of_int t0))) (lit 1000 0) = fl (of_int (t1 - t0) / 1000)"
proof -
  have "\<bar>t1 - t0\<bar> < 2 ^ 53" using assms by (auto simp: valid_time_def abs_less_iff)
  then have "fl (of_int (t1 - t0)) = Fin (of_int (t1 - t0))" by (rule fl_of_int)
  then have "fl (of_int t1 - of_int t0) = Fin (of_int (t1 - t0))" by simp
  then show ?thesis
    by (simp add: fl_valid_time[OF assms(1)] fl_valid_time[OF assms(2)] num_sub_def lit_1000)
qed

lemma round_double_999: "round_double (999 / 1000) < 1"
  using round_double_at[of "-1" "999 / 1000"] by (simp add: round_even_eval)

lemma round_double_one: "round_double 1 = 1"
  using round_double_of_int[of 1] by simp

lemma young_age_lt:
  assumes "0 \<le> x" "x \<le> 999 / 1000" "num_le (lit 1 0) secs"
  shows "num_lt (fl x) secs"
proof -
  have "\<bar>x\<bar> \<le> 10 ^ 21" using assms by simp
  then have f: "fl x = Fin (round_double x)" by (rule fl_small)
  have "round_double x \<le> round_double (999 / 1000)" using assms(2) by (rule round_double_mono)
  then have lt: "round_double x < 1" using round_double_999 by simp
  have one: "lit 1 0 = Fin 1" using lit_whole[of 1] by simp
  show ?thesis using assms(3) lt unfolding f one by (cases secs) simp_all
qed

lemma expired_age_not_lt:
  assumes "of_int m \<le> x"
  shows "\<not> num_lt (fl x) (lit m 0)"
  using fl_not_lt[OF assms] by (simp add: lit_def)

lemma put_then_get:
  assumes put_ok: "\<not> db_fails w (length (trace w))"
      and get_ok: "\<not> db_fails w (Suc (length (trace w)))"
      and t0: "valid_time (clock w)"
      and d: "d = latency w (length (trace w)) + latency w (Suc (length (trace w)))"
      and t1: "valid_time (clock w + int d)"
  shows "fst (getFromCache k secs (snd (saveToCache k v secs w)))
           = Inr (if num_lt (fl (of_nat d / 1000)) secs then Some v else None)"
proof -
  define it where "it = \<lparr>cacheKey = k, data = v, timestamp = ISOString (clock w),
              ttl = num_add (Math_floor (num_div (Date_now w) (lit 1000 0))) secs\<rparr>"
  let ?w1 = "(external_call (PutCommand it) w)\<lparr>table := (table w)(k \<mapsto> it)\<rparr>"
  have s: "snd (saveToCache k v secs w) = ?w1"
    using put_ok by (simp add: saveToCache_eq Let_def it_def)
  have c: "clock (external_call (GetCommand k) ?w1) = clock w + int d"
    by (simp add: external_call_def d)
  have dn: "Date_now (external_call (GetCommand k) ?w1) = fl (of_int (clock w + int d))"
    by (simp only: Date_now_def c)
  have gt: "getTime (timestamp it) = fl (of_int (clock w))" by (simp add: it_def)
  have age: "ageInSeconds it (external_call (GetCommand k) ?w1) = fl (of_nat d / 1000)"
    unfolding ageInSeconds_def dn gt using age_valid[OF t0 t1] by simp
  have f: "\<not> db_fails ?w1 (length (trace ?w1))" using get_ok by (simp add: external_call_def)
  have tb: "table ?w1 k = Some it" by simp
  have dt: "data it = v" by (simp add: it_def)
  show ?thesis unfolding s getFromCache_eq using f by (simp add: age dt)
qed

lemma get_expired:
  assumes stored: "table w k = Some it" "timestamp it = ISOString t0" "valid_time t0"
      and now: "valid_time (clock w + int (latency w (length (trace w))))"
      and old: "1000 * m \<le> clock w + int (latency w (length (trace w))) - t0"
  shows "fst (getFromCache k (lit m 0) w) = Inr None"
proof -
  let ?t1 = "clock w + int (latency w (length (trace w)))"
  have dn: "Date_now (external_call (GetCommand k) w) = fl (of_int ?t1)"
    by (simp add: Date_now_def external_call_def)
  have gt: "getTime (timestamp it) = fl (of_int t0)" by (simp add: stored(2))
  have age: "ageInSeconds it (external_call (GetCommand k) w) = fl (of_int (?t1 - t0) / 1000)"
    unfolding ageInSeconds_def dn gt by (rule age_valid[OF stored(3) now])
  have "(of_int (1000 * m) :: rat) \<le> of_int (?t1 - t0)" using old by (simp only: of_int_le_iff)
  then have "(of_int m :: rat) \<le> of_int (?t1 - t0) / 1000" by simp
  then have "\<not> num_lt (fl (of_int (?t1 - t0) / 1000)) (lit m 0)" by (rule expired_age_not_lt)
  then show ?thesis unfolding getFromCache_eq by (simp add: stored(1) age)
qed

lemma world_stored_eq:
  "world_stored =
     (external_call (PutCommand
        \<lparr>cacheKey = ''world_prices'', data = WorldPrices getFallbackWorldPrices,
         timestamp = ISOString 0,
         ttl = num_add (Math_floor (num_div (Date_now world0) (lit 1000 0))) (lit 3600 0)\<rparr>) world0)
     \<lparr>table := (table world0)(''world_prices'' \<mapsto>
        \<lparr>cacheKey = ''world_prices'', data = WorldPrices getFallbackWorldPrices,
         timestamp = ISOString 0,
         ttl = num_add (Math_floor (num_div (Date_now world0) (lit 1000 0))) (lit 3600 0)\<rparr>)\<rparr>"
  by (simp add: world_stored_def saveToCache_eq Let_def) (simp add: world0_def)

lemma lit_3600: "lit 3600 0 = Fin 3600"
  using lit_whole[of 3600] by simp

lemma lit_1: "lit 1 0 = Fin 1"
  using lit_whole[of 1] by simp

text \<open>
  Claim C8, as the code has it. Take a put that the store accepts, followed by a get
  that the store answers, \<open>d\<close> milliseconds of latency in all between the clock reading
  of the put and that of the get (clock readings being valid instants). The get
  returns the payload exactly when the age \<open>d / 1000\<close> is less than the maximal age, and
  absent otherwise; so it returns the payload unchanged whenever \<open>d\<close> is under a second
  and the time to live is at least one second. And a get with a maximal age of \<open>m\<close>
  seconds returns absent for every item whose time stamp is \<open>m\<close> seconds or more behind
  the clock reading of the get.
\<close>

theorem cache_round_trip:
  "(\<not> db_fails w (length (trace w)) \<longrightarrow> \<not> db_fails w (Suc (length (trace w))) \<longrightarrow>
    valid_time (clock w) \<longrightarrow>
    d = latency w (length (trace w)) + latency w (Suc (length (trace w))) \<longrightarrow>
    valid_time (clock w + int d) \<longrightarrow>
      fst (getFromCache k secs (snd (saveToCache k v secs w)))
        = Inr (if num_lt (fl (of_nat d / 1000)) secs then Some v else None) \<and>
      (d < 1000 \<longrightarrow> num_le (lit 1 0) secs \<longrightarrow>
         fst (getFromCache k secs (snd (saveToCache k v secs w))) = Inr (Some v))) \<and>
   (table w' k' = Some it \<longrightarrow> timestamp it = ISOString t0 \<longrightarrow> valid_time t0 \<longrightarrow>
    valid_time (clock w' + int (latency w' (length (trace w')))) \<longrightarrow>
    1000 * m \<le> clock w' + int (latency w' (length (trace w'))) - t0 \<longrightarrow>
      fst (getFromCache k' (lit m 0) w') = Inr None)"
proof (intro conjI impI)
  assume a: "\<not> db_fails w (length (trace w))" "\<not> db_fails w (Suc (length (trace w)))"
    "valid_time (clock w)" "d = latency w (length (trace w)) + latency w (Suc (length (trace w)))"
    "valid_time (clock w + int d)"
  show r: "fst (getFromCache k secs (snd (saveToCache k v secs w)))
        = Inr (if num_lt (fl (of_nat d / 1000)) secs then Some v else None)"
    using a by (rule put_then_get)
  assume b: "d < 1000" "num_le (lit 1 0) secs"
  have "(of_nat d :: rat) \<le> of_nat 999" using b(1) by simp
  then have "(of_nat d / 1000 :: rat) \<le> 999 / 1000" by simp
  then have "num_lt (fl (of_nat d / 1000)) secs" using b(2) by (intro young_age_lt) simp_all
  then show "fst (getFromCache k secs (snd (saveToCache k v secs w))) = Inr (Some v)"
    using r by simp
next
  assume "table w' k' = Some it" "timestamp it = ISOString t0" "valid_time t0"
    "valid_time (clock w' + int (latency w' (length (trace w'))))"
    "1000 * m \<le> clock w' + int (latency w' (length (trace w'))) - t0"
  then show "fst (getFromCache k' (lit m 0) w') = Inr None" by (rule get_expired)
qed

theorem cache_round_trip_witness:
  "fst (getFromCache ''world_prices'' (lit 3600 0) world_stored)
     = Inr (Some (WorldPrices getFallbackWorldPrices)) \<and>
   fst (getFromCache ''world_prices'' (lit 3600 0) world_late) = Inr None"
proof -
  have ok: "\<not> db_fails world0 (length (trace world0))" "\<not> db_fails world0 (Suc (length (trace world0)))"
    "valid_time (clock world0)"
    "(0::nat) = latency world0 (length (trace world0)) + latency world0 (Suc (length (trace world0)))"
    "valid_time (clock world0 + int 0)" "(0::nat) < 1000" "num_le (lit 1 0) (lit 3600 0)"
    by (simp_all add: world0_def valid_time_def lit_1 lit_3600)
  have st: "table world_late ''world_prices'' =
      Some \<lparr>cacheKey = ''world_prices'', data = WorldPrices getFallbackWorldPrices,
         timestamp = ISOString 0,
         ttl = num_add (Math_floor (num_div (Date_now world0) (lit 1000 0))) (lit 3600 0)\<rparr>"
    by (simp add: world_late_def world_stored_eq)
  have late: "valid_time 0"
    "valid_time (clock world_late + int (latency world_late (length (trace world_late))))"
    "1000 * 3600 \<le> clock world_late + int (latency world_late (length (trace world_late))) - 0"
    by (simp_all add: world_late_def world_stored_eq valid_time_def external_call_def world0_def)
  let ?it = "\<lparr>cacheKey = ''world_prices'', data = WorldPrices getFallbackWorldPrices,
         timestamp = ISOString 0,
         ttl = num_add (Math_floor (num_div (Date_now world0) (lit 1000 0))) (lit 3600 0)\<rparr>"
  have ts: "timestamp ?it = ISOString 0" by simp
  note rt = cache_round_trip[of world0 0 "''world_prices''" "lit 3600 0"
      "WorldPrices getFallbackWorldPrices" world_late "''world_prices''" ?it 0 3600]
  have p1: "fst (getFromCache ''world_prices'' (lit 3600 0) world_stored)
     = Inr (Some (WorldPrices getFallbackWorldPrices))"
    using rt[THEN conjunct1, rule_format, OF ok(1-5), THEN conjunct2, rule_format, OF ok(6,7)]
    by (simp only: world_stored_def)
  have p2: "fst (getFromCache ''world_prices'' (lit 3600 0) world_late) = Inr None"
    using rt[THEN conjunct2, rule_format, OF st ts late] .
  show ?thesis using p1 p2 by simp
qed

text \<open>
  The claim as it was stated, for every time to live, fails at 0: in \<open>world0\<close> (no
  latency at all) the put stores the payload and the get that follows returns absent,
  the age 0 not being less than 0.
\<close>

theorem zero_ttl_round_trip_fails:
  "map_option data
     (table (snd (saveToCache ''world_prices'' (WorldPrices getFallbackWorldPrices) (lit 0 0) world0))
        ''world_prices'')
     = Some (WorldPrices getFallbackWorldPrices) \<and>
   fst (getFromCache ''world_prices'' (lit 0 0)
          (snd (saveToCache ''world_prices'' (WorldPrices getFallbackWorldPrices) (lit 0 0) world0)))
     = Inr None"
proof -
  have ok: "\<not> db_fails world0 (length (trace world0))" "\<not> db_fails world0 (Suc (length (trace world0)))"
    "valid_time (clock world0)"
    "(0::nat) = latency world0 (length (trace world0)) + latency world0 (Suc (length (trace world0)))"
    "valid_time (clock world0 + int 0)"
    by (simp_all add: world0_def valid_time_def)
  have "fst (getFromCache ''world_prices'' (lit 0 0)
          (snd (saveToCache ''world_prices'' (WorldPrices getFallbackWorldPrices) (lit 0 0) world0)))
     = Inr (if num_lt (fl (of_nat 0 / 1000)) (lit 0 0) then Some (WorldPrices getFallbackWorldPrices) else None)"
    using ok by (rule put_then_get)
  then have "fst (getFromCache ''world_prices'' (lit 0 0)
          (snd (saveToCache ''world_prices'' (WorldPrices getFallbackWorldPrices) (lit 0 0) world0)))
     = Inr None"
    by (simp add: fl_zero lit_0)
  moreover have "map_option data
     (table (snd (saveToCache ''world_prices'' (WorldPrices getFallbackWorldPrices) (lit 0 0) world0))
        ''world_prices'') = Some (WorldPrices getFallbackWorldPrices)"
    by (simp add: saveToCache_eq Let_def world0_def)
  ultimately show ?thesis by simp
qed

section \<open>The transformer: which record gives a grade its quote\<close>

lemmas string_eval = toLowerCase_def lower_char_def char_of_def bit_Suc_0_iff

lemma find_first_none:
  assumes "\<forall>p\<in>set ps. pred p = Inr False"
  shows "find_first pred ps = Inr None"
  using assms by (induction ps) simp_all

lemma find_first_hit:
  assumes "\<forall>p'\<in>set ps1. pred p' = Inr False" "pred p = Inr True"
  shows "find_first pred (ps1 @ p # ps2) = Inr (Some p)"
  using assms by (induction ps1) simp_all

lemma matches_true_object:
  assumes "matches p k = Inr True"
  shows "\<exists>props. p = JObj props"
  using assms
  by (cases p) (simp_all add: matches_def name_en_matches_def name_th_matches_def)

lemma findPrice_none:
  assumes "\<forall>k\<in>set kws. \<forall>p\<in>set ps. matches p k = Inr False"
  shows "findPrice (JArr ps) kws = Inr \<lparr>price = Fin 0, change = Fin 0\<rparr>"
  using assms by (induction kws) (simp_all add: find_first_none)

lemma findPrice_skip:
  assumes "\<forall>k'\<in>set ks1. \<forall>p'\<in>set ps. matches p' k' = Inr False"
  shows "findPrice (JArr ps) (ks1 @ kws) = findPrice (JArr ps) kws"
  using assms by (induction ks1) (simp_all add: find_first_none)

lemma findPrice_hit:
  assumes "\<forall>k'\<in>set ks1. \<forall>p'\<in>set (ps1 @ p # ps2). matches p' k' = Inr False"
      and "\<forall>p'\<in>set ps1. matches p' k = Inr False"
      and "matches p k = Inr True"
  shows "findPrice (JArr (ps1 @ p # ps2)) (ks1 @ k # ks2) = quote_of_product (Some p)"
proof -
  obtain props where p: "p = JObj props" using matches_true_object[OF assms(3)] by blast
  have "find_first (\<lambda>p. matches p k) (ps1 @ p # ps2) = Inr (Some p)"
    using assms(2,3) by (rule find_first_hit)
  then have "findPrice (JArr (ps1 @ p # ps2)) (k # ks2) = quote_of_product (Some p)"
    by (simp add: p)
  then show ?thesis using findPrice_skip[OF assms(1)] by simp
qed

lemma matches_strings:
  assumes "get_prop p ''NameEN'' = Inr (Some (JStr en))" "get_prop p ''NameTH'' = Inr (Some (JStr th))"
  shows "matches p k = Inr ((en \<noteq> [] \<and> includes_str (toLowerCase en) (toLowerCase k)) \<or>
                            (th \<noteq> [] \<and> includes_str th k))"
  using assms
  by (cases "includes_str (toLowerCase en) (toLowerCase k)")
     (auto simp: matches_def name_en_matches_def name_th_matches_def)

lemma quote_of_object:
  "quote_of_product (Some (JObj props)) =
     Inr \<lparr>price = or_zero (parseFloat (map_of (rev props) ''Today'')),
          change = or_zero (parseFloat (map_of (rev props) ''Diff''))\<rparr>"
  by (simp add: quote_of_product_def)

lemma keyword_lists_english_then_thai:
  "list_all (\<lambda>(kws, grade).
       list_all (\<lambda>k. list_all (\<lambda>c. (of_char c :: nat) < 128) k) (butlast kws) \<and>
       (of_char (hd (last kws)) :: nat) = 224) grades"
  by (simp add: grades_def gasoline95_keywords_def gasoline91_keywords_def gasohol95_keywords_def
      gasohol91_keywords_def e20_keywords_def e85_keywords_def dieselB7_keywords_def
      dieselB20_keywords_def th_benzin_def th_gasohol_def th_e_def th_diesel_def)

lemma matches_en_only:
  assumes "get_prop q ''NameEN'' = Inr (Some (JStr en))" "get_prop q ''NameTH'' = Inr None"
  shows "matches q k = Inr (en \<noteq> [] \<and> includes_str (toLowerCase en) (toLowerCase k))"
  using assms
  by (cases "includes_str (toLowerCase en) (toLowerCase k)")
     (auto simp: matches_def name_en_matches_def name_th_matches_def)

lemma matches_th_only:
  assumes "get_prop q ''NameEN'' = Inr None" "get_prop q ''NameTH'' = Inr (Some (JStr th))"
  shows "matches q k = Inr (th \<noteq> [] \<and> includes_str th k)"
  using assms by (auto simp: matches_def name_en_matches_def name_th_matches_def)

lemma example_matches:
  "matches premium_record ''Hi Premium 97'' = Inr False"
  "matches premium_record ''Premium 97'' = Inr True"
  "matches hi_premium_record ''Hi Premium 97'' = Inr True"
  by (simp_all add: premium_record_def hi_premium_record_def matches_def name_en_matches_def
      name_th_matches_def string_eval)

lemma example_quote:
  "quote_of_product (Some hi_premium_record) = Inr \<lparr>price = Fin 2, change = Fin 0\<rparr>"
  by (simp add: hi_premium_record_def quote_of_product_def or_zero_def)

text \<open>
  Claim C4, as the code has it. \<^verbatim>\<open>findPrice\<close> tries the aliases of a grade in their order
  of priority (the English ones, then the Thai one), and for each alias searches the
  record list in order. So the quote comes from the first record, in list order, that
  matches the first alias, in priority order, that any record matches: a record
  matching an alias of higher priority wins over an earlier record that matches only
  aliases of lower priority. When no record matches any alias the quote is
  \<^verbatim>\<open>{price: 0, change: 0}\<close>. A record matches an alias when its non-empty \<^verbatim>\<open>NameEN\<close>
  contains the alias without regard to letter case, or its non-empty \<^verbatim>\<open>NameTH\<close> contains
  the alias exactly as written (letter case counts there).
\<close>

theorem alias_priority_before_record_order:
  "((\<forall>k'\<in>set ks1. \<forall>p'\<in>set (ps1 @ p # ps2). matches p' k' = Inr False) \<longrightarrow>
    (\<forall>p'\<in>set ps1. matches p' k = Inr False) \<longrightarrow> matches p k = Inr True \<longrightarrow>
      findPrice (JArr (ps1 @ p # ps2)) (ks1 @ k # ks2) = quote_of_product (Some p)) \<and>
   ((\<forall>k'\<in>set kws. \<forall>p'\<in>set ps. matches p' k' = Inr False) \<longrightarrow>
      findPrice (JArr ps) kws = Inr \<lparr>price = Fin 0, change = Fin 0\<rparr>) \<and>
   (get_prop q ''NameEN'' = Inr (Some (JStr en)) \<longrightarrow> get_prop q ''NameTH'' = Inr (Some (JStr th)) \<longrightarrow>
      matches q k0 = Inr ((en \<noteq> [] \<and> includes_str (toLowerCase en) (toLowerCase k0)) \<or>
                          (th \<noteq> [] \<and> includes_str th k0))) \<and>
   (get_prop q ''NameEN'' = Inr (Some (JStr en)) \<longrightarrow> get_prop q ''NameTH'' = Inr None \<longrightarrow>
      matches q k0 = Inr (en \<noteq> [] \<and> includes_str (toLowerCase en) (toLowerCase k0))) \<and>
   (get_prop q ''NameEN'' = Inr None \<longrightarrow> get_prop q ''NameTH'' = Inr (Some (JStr th)) \<longrightarrow>
      matches q k0 = Inr (th \<noteq> [] \<and> includes_str th k0)) \<and>
   list_all (\<lambda>(kws, grade).
       list_all (\<lambda>k. list_all (\<lambda>c. (of_char c :: nat) < 128) k) (butlast kws) \<and>
       (of_char (hd (last kws)) :: nat) = 224) grades"
  using findPrice_hit[of ks1 ps1 p ps2 k ks2] findPrice_none[of kws ps]
    matches_strings[of q en th k0] matches_en_only[of q en k0] matches_th_only[of q th k0]
    keyword_lists_english_then_thai
  by (intro conjI impI) blast+

theorem alias_priority_before_record_order_witness:
  "matches premium_record ''Hi Premium 97'' = Inr False \<and>
   matches hi_premium_record ''Hi Premium 97'' = Inr True \<and>
   findPrice (JArr [premium_record, hi_premium_record]) gasoline95_keywords
     = Inr \<lparr>price = Fin 2, change = Fin 0\<rparr>"
proof -
  have h1: "\<forall>k'\<in>set []. \<forall>p'\<in>set ([premium_record] @ hi_premium_record # []). matches p' k' = Inr False"
    by simp
  have h2: "\<forall>p'\<in>set [premium_record]. matches p' ''Hi Premium 97'' = Inr False"
    by (simp add: example_matches)
  note t = alias_priority_before_record_order[of "[]" "[premium_record]" hi_premium_record "[]"
      "''Hi Premium 97''" "[''Premium 97'', ''Gasoline 97'', th_benzin @ '' 97'']",
      THEN conjunct1]
  have "findPrice (JArr ([premium_record] @ hi_premium_record # []))
          ([] @ ''Hi Premium 97'' # [''Premium 97'', ''Gasoline 97'', th_benzin @ '' 97''])
      = quote_of_product (Some hi_premium_record)"
    using t h1 h2 example_matches(3) by blast
  then have "findPrice (JArr [premium_record, hi_premium_record]) gasoline95_keywords
      = quote_of_product (Some hi_premium_record)"
    by (simp add: gasoline95_keywords_def)
  then show ?thesis by (simp add: example_matches example_quote)
qed

text \<open>
  The claim as it was stated fails twice. With the records \<^verbatim>\<open>Premium 97\<close> and then
  \<^verbatim>\<open>Hi Premium 97\<close>, gasoline95 takes the quote of the second record although the
  first one contains the alias \<^verbatim>\<open>Premium 97\<close>. And a record whose Thai name has the
  diesel alias with a small \<^verbatim>\<open>b\<close> contains that alias without regard to case, yet it is
  not matched.
\<close>

theorem later_record_wins_on_earlier_alias:
  "matches premium_record ''Premium 97'' = Inr True \<and>
   quote_of_product (Some premium_record) = Inr \<lparr>price = Fin 1, change = Fin 0\<rparr> \<and>
   findPrice (JArr [premium_record, hi_premium_record]) gasoline95_keywords
     = Inr \<lparr>price = Fin 2, change = Fin 0\<rparr> \<and>
   includes_str (toLowerCase (th_diesel @ '' b7'')) (toLowerCase (th_diesel @ '' B7'')) \<and>
   findPrice (JArr [thai_diesel_record]) dieselB7_keywords = Inr \<lparr>price = Fin 0, change = Fin 0\<rparr>"
proof -
  have a: "findPrice (JArr [premium_record, hi_premium_record]) gasoline95_keywords
     = Inr \<lparr>price = Fin 2, change = Fin 0\<rparr>"
    using findPrice_hit[of "[]" "[premium_record]" hi_premium_record "[]" "''Hi Premium 97''"
        "[''Premium 97'', ''Gasoline 97'', th_benzin @ '' 97'']"]
    by (simp add: example_matches example_quote gasoline95_keywords_def)
  have b: "quote_of_product (Some premium_record) = Inr \<lparr>price = Fin 1, change = Fin 0\<rparr>"
    by (simp add: premium_record_def quote_of_product_def or_zero_def)
  have c: "includes_str (toLowerCase (th_diesel @ '' b7'')) (toLowerCase (th_diesel @ '' B7''))"
    by (simp add: th_diesel_def string_eval)
  have d: "\<forall>k\<in>set dieselB7_keywords. \<forall>p\<in>set [thai_diesel_record]. matches p k = Inr False"
    by (simp add: dieselB7_keywords_def thai_diesel_record_def matches_def name_en_matches_def
        name_th_matches_def th_diesel_def)
  show ?thesis using a b c findPrice_none[OF d] example_matches(2) by simp
qed

section \<open>The transformer: raising and defaults\<close>

lemma well_formed_matches:
  assumes "well_formed_record p"
  shows "\<exists>b. matches p k = Inr b"
proof (cases p)
  case (JObj props)
  let ?en = "map_of (rev props) ''NameEN''" and ?th = "map_of (rev props) ''NameTH''"
  have en: "\<exists>b. name_en_matches ?en k = Inr b"
  proof (cases "truthy ?en")
    case True
    then have "is_string ?en" using assms JObj by simp
    then obtain s where "?en = Some (JStr s)" by (cases ?en rule: is_string.cases) simp_all
    then show ?thesis by (auto simp: name_en_matches_def)
  next
    case False
    then show ?thesis by (auto simp: name_en_matches_def)
  qed
  have th: "\<exists>b. name_th_matches ?th k = Inr b"
  proof (cases "truthy ?th")
    case True
    then have "is_string_or_array ?th" using assms JObj by simp
    then consider s where "?th = Some (JStr s)" | vs where "?th = Some (JArr vs)"
      by (cases ?th rule: is_string_or_array.cases) simp_all
    then show ?thesis by cases (auto simp: name_th_matches_def)
  next
    case False
    then show ?thesis by (auto simp: name_th_matches_def)
  qed
  obtain b1 where b1: "name_en_matches ?en k = Inr b1" using en by blast
  obtain b2 where b2: "name_th_matches ?th k = Inr b2" using th by blast
  show ?thesis by (cases b1) (auto simp: matches_def JObj b1 b2)
qed (use assms in \<open>auto simp: matches_def name_en_matches_def name_th_matches_def\<close>)

lemma find_first_total:
  assumes "\<forall>p\<in>set ps. \<exists>b. pred p = Inr b"
  shows "find_first pred ps = Inr None \<or>
         (\<exists>q. find_first pred ps = Inr (Some q) \<and> pred q = Inr True)"
  using assms
proof (induction ps)
  case Nil
  then show ?case by simp
next
  case (Cons p ps)
  then obtain b where b: "pred p = Inr b" by auto
  show ?case using Cons by (cases b) (simp_all add: b)
qed

lemma findPrice_total:
  assumes "\<forall>p\<in>set ps. well_formed_record p"
  shows "\<exists>q. findPrice (JArr ps) kws = Inr q"
proof (induction kws)
  case Nil
  then show ?case by simp
next
  case (Cons k kws)
  have "\<forall>p\<in>set ps. \<exists>b. matches p k = Inr b" using assms well_formed_matches by blast
  then consider "find_first (\<lambda>p. matches p k) ps = Inr None"
    | q where "find_first (\<lambda>p. matches p k) ps = Inr (Some q)" "matches q k = Inr True"
    using find_first_total[of ps "\<lambda>p. matches p k"] by blast
  then show ?case
  proof cases
    case 1
    then show ?thesis using Cons by simp
  next
    case 2
    obtain props where "q = JObj props" using matches_true_object[OF 2(2)] by blast
    then show ?thesis using 2(1) by (simp add: quote_of_object)
  qed
qed

lemma findPrice_not_array:
  assumes "\<not> (\<exists>ps. v = JArr ps)"
  shows "findPrice v (k # ks) = Inl TypeError"
  using assms by (cases v) simp_all

lemma transform_raises_without_array:
  assumes "\<not> (\<exists>ps. get_prop payload ''Data'' = Inr (Some (JArr ps)))"
  shows "\<exists>e. transformBangchakData now payload = Inl e"
proof (cases "truthy (Some payload)")
  case False
  then show ?thesis by (simp add: transformBangchakData_def)
next
  case True
  show ?thesis
  proof (cases "get_prop payload ''Data''")
    case (Inl e)
    then show ?thesis using True by (simp add: transformBangchakData_def and_then_def)
  next
    case (Inr d)
    show ?thesis
    proof (cases d)
      case None
      then show ?thesis using True Inr by (simp add: transformBangchakData_def and_then_def)
    next
      case (Some v)
      have na: "\<not> (\<exists>ps. v = JArr ps)" using assms Inr Some by simp
      show ?thesis
        using True Inr Some findPrice_not_array[OF na]
        by (simp add: transformBangchakData_def and_then_def gasoline95_keywords_def)
    qed
  qed
qed

lemma transform_on_well_formed:
  assumes data: "get_prop payload ''Data'' = Inr (Some (JArr ps))"
      and wf: "\<forall>p\<in>set ps. well_formed_record p"
  shows "\<exists>cp. transformBangchakData now payload = Inr cp \<and>
           (\<forall>(kws, grade)\<in>set grades. findPrice (JArr ps) kws = Inr (grade cp))"
proof -
  obtain props where p: "payload = JObj props" using data by (cases payload) simp_all
  obtain q1 where q1: "findPrice (JArr ps) gasoline95_keywords = Inr q1" using findPrice_total[OF wf] by blast
  obtain q2 where q2: "findPrice (JArr ps) gasoline91_keywords = Inr q2" using findPrice_total[OF wf] by blast
  obtain q3 where q3: "findPrice (JArr ps) gasohol95_keywords = Inr q3" using findPrice_total[OF wf] by blast
  obtain q4 where q4: "findPrice (JArr ps) gasohol91_keywords = Inr q4" using findPrice_total[OF wf] by blast
  obtain q5 where q5: "findPrice (JArr ps) e20_keywords = Inr q5" using findPrice_total[OF wf] by blast
  obtain q6 where q6: "findPrice (JArr ps) e85_keywords = Inr q6" using findPrice_total[OF wf] by blast
  obtain q7 where q7: "findPrice (JArr ps) dieselB7_keywords = Inr q7" using findPrice_total[OF wf] by blast
  obtain q8 where q8: "findPrice (JArr ps) dieselB20_keywords = Inr q8" using findPrice_total[OF wf] by blast
  have d: "map_of (rev props) ''Data'' = Some (JArr ps)" using data p by simp
  let ?cp = "\<lparr>gasoline95 = q1, gasoline91 = q2, gasohol95 = q3, gasohol91 = q4,
                 e20 = q5, e85 = q6, dieselB7 = q7, dieselB20 = q8,
                 updatedAt =
                   (case map_of (rev props) ''LastUpdate'' of
                      Some v \<Rightarrow>
                        if truthy (Some v) then FromProvider v
                        else Generated (ISOString now)
                    | None \<Rightarrow> Generated (ISOString now))\<rparr>"
  have "transformBangchakData now payload = Inr ?cp"
    by (simp add: transformBangchakData_def and_then_def p d q1 q2 q3 q4 q5 q6 q7 q8)
  moreover have "\<forall>(kws, grade)\<in>set grades. findPrice (JArr ps) kws = Inr (grade ?cp)"
    by (simp add: grades_def q1 q2 q3 q4 q5 q6 q7 q8)
  ultimately show ?thesis by blast
qed

lemma sample_data:
  "get_prop sample_payload ''Data'' = Inr (Some (JArr [premium_record, hi_premium_record, gasoline91_record]))"
  by (simp add: sample_payload_def)

lemma sample_well_formed:
  "list_all well_formed_record [premium_record, hi_premium_record, gasoline91_record]"
  by (simp add: premium_record_def hi_premium_record_def gasoline91_record_def)

lemma unparseable_text: "parseFloat (Some (JStr ''N/A'')) = NaN"
  by (simp add: parseFloat_string_def parse_unsigned_def is_space_def is_space2_def is_space3_def
      is_digit_def)

lemma sample_gasoline91:
  "findPrice (JArr [premium_record, hi_premium_record, gasoline91_record]) gasoline91_keywords
     = Inr \<lparr>price = Fin 0, change = Fin (1 / 2)\<rparr>"
proof -
  have m: "matches premium_record ''Gasoline 91'' = Inr False"
    "matches hi_premium_record ''Gasoline 91'' = Inr False"
    "matches gasoline91_record ''Gasoline 91'' = Inr True"
    by (simp_all add: premium_record_def hi_premium_record_def gasoline91_record_def matches_def
        name_en_matches_def name_th_matches_def string_eval)
  have q: "quote_of_product (Some gasoline91_record) = Inr \<lparr>price = Fin 0, change = Fin (1 / 2)\<rparr>"
    using unparseable_text by (simp add: gasoline91_record_def quote_of_product_def or_zero_def)
  have tr: "truthy (Some gasoline91_record)" by (simp add: gasoline91_record_def)
  show ?thesis by (simp add: gasoline91_keywords_def m q tr)
qed

lemma sample_no_e85:
  "\<forall>k\<in>set e85_keywords. \<forall>p\<in>set [premium_record, hi_premium_record, gasoline91_record].
     matches p k = Inr False"
  by (simp add: e85_keywords_def premium_record_def hi_premium_record_def gasoline91_record_def
      matches_def name_en_matches_def name_th_matches_def string_eval th_e_def)

lemma null_record_raises: "transformBangchakData 0 null_record_payload = Inl TypeError"
  by (simp add: transformBangchakData_def null_record_payload_def and_then_def
      gasoline95_keywords_def matches_def)

text \<open>
  Claim C6, as the code has it. \<^verbatim>\<open>transformBangchakData\<close> raises whenever the payload
  has no \<^verbatim>\<open>Data\<close> array. When \<^verbatim>\<open>Data\<close> is an array of well-formed records (none is
  \<^verbatim>\<open>null\<close>, \<^verbatim>\<open>NameEN\<close> is absent, falsy or a string, \<^verbatim>\<open>NameTH\<close> is absent, falsy, a string
  or an array) it never raises: it returns a complete CurrentPrices in which every grade
  is what \<^verbatim>\<open>findPrice\<close> gives for that grade's aliases, \<^verbatim>\<open>{price: 0, change: 0}\<close> when no
  record matches them. The quote of a matched record defaults field by field: the price
  is 0 when \<^verbatim>\<open>Today\<close> does not parse, the change is 0 when \<^verbatim>\<open>Diff\<close> does not parse.
\<close>

theorem transform_raises_or_defaults:
  "(\<not> (\<exists>ps. get_prop payload ''Data'' = Inr (Some (JArr ps))) \<longrightarrow>
      (\<exists>e. transformBangchakData now payload = Inl e)) \<and>
   (get_prop payload ''Data'' = Inr (Some (JArr ps)) \<longrightarrow> (\<forall>p\<in>set ps. well_formed_record p) \<longrightarrow>
      (\<exists>cp. transformBangchakData now payload = Inr cp \<and>
         (\<forall>(kws, grade)\<in>set grades.
            findPrice (JArr ps) kws = Inr (grade cp) \<and>
            ((\<forall>k\<in>set kws. \<forall>p\<in>set ps. matches p k = Inr False) \<longrightarrow>
               grade cp = \<lparr>price = Fin 0, change = Fin 0\<rparr>)))) \<and>
   quote_of_product (Some (JObj props)) =
     Inr \<lparr>price = or_zero (parseFloat (map_of (rev props) ''Today'')),
          change = or_zero (parseFloat (map_of (rev props) ''Diff''))\<rparr> \<and>
   (parseFloat v = NaN \<longrightarrow> or_zero (parseFloat v) = Fin 0)"
proof (intro conjI impI)
  assume "\<not> (\<exists>ps. get_prop payload ''Data'' = Inr (Some (JArr ps)))"
  then show "\<exists>e. transformBangchakData now payload = Inl e" by (rule transform_raises_without_array)
next
  assume data: "get_prop payload ''Data'' = Inr (Some (JArr ps))"
    and wf: "\<forall>p\<in>set ps. well_formed_record p"
  obtain cp where cp: "transformBangchakData now payload = Inr cp"
    "\<forall>(kws, grade)\<in>set grades. findPrice (JArr ps) kws = Inr (grade cp)"
    using transform_on_well_formed[OF data wf] by blast
  have "\<forall>(kws, grade)\<in>set grades.
            findPrice (JArr ps) kws = Inr (grade cp) \<and>
            ((\<forall>k\<in>set kws. \<forall>p\<in>set ps. matches p k = Inr False) \<longrightarrow>
               grade cp = \<lparr>price = Fin 0, change = Fin 0\<rparr>)"
  proof (intro ballI, clarify, intro conjI impI)
    fix kws grade
    assume g: "(kws, grade) \<in> set grades"
    then show f: "findPrice (JArr ps) kws = Inr (grade cp)" using cp(2) by blast
    assume "\<forall>k\<in>set kws. \<forall>p\<in>set ps. matches p k = Inr False"
    then have "findPrice (JArr ps) kws = Inr \<lparr>price = Fin 0, change = Fin 0\<rparr>" by (rule findPrice_none)
    then show "grade cp = \<lparr>price = Fin 0, change = Fin 0\<rparr>" using f by simp
  qed
  then show "\<exists>cp. transformBangchakData now payload = Inr cp \<and>
         (\<forall>(kws, grade)\<in>set grades.
            findPrice (JArr ps) kws = Inr (grade cp) \<and>
            ((\<forall>k\<in>set kws. \<forall>p\<in>set ps. matches p k = Inr False) \<longrightarrow>
               grade cp = \<lparr>price = Fin 0, change = Fin 0\<rparr>))"
    using cp(1) by blast
next
  show "quote_of_product (Some (JObj props)) =
     Inr \<lparr>price = or_zero (parseFloat (map_of (rev props) ''Today'')),
          change = or_zero (parseFloat (map_of (rev props) ''Diff''))\<rparr>"
    by (rule quote_of_object)
next
  assume "parseFloat v = NaN"
  then show "or_zero (parseFloat v) = Fin 0" by (simp add: or_zero_def)
qed

theorem transform_raises_or_defaults_witness:
  "get_prop sample_payload ''Data''
     = Inr (Some (JArr [premium_record, hi_premium_record, gasoline91_record])) \<and>
   list_all well_formed_record [premium_record, hi_premium_record, gasoline91_record] \<and>
   (\<exists>cp. transformBangchakData 0 sample_payload = Inr cp \<and>
      gasoline91 cp = \<lparr>price = Fin 0, change = Fin (1 / 2)\<rparr> \<and>
      e85 cp = \<lparr>price = Fin 0, change = Fin 0\<rparr>)"
proof -
  have wf: "\<forall>p\<in>set [premium_record, hi_premium_record, gasoline91_record]. well_formed_record p"
    using sample_well_formed by simp
  from transform_raises_or_defaults[where payload = sample_payload
      and ps = "[premium_record, hi_premium_record, gasoline91_record]" and now = 0,
      THEN conjunct2, THEN conjunct1]
    sample_data wf
  obtain cp where cp: "transformBangchakData 0 sample_payload = Inr cp"
    "\<forall>(kws, grade)\<in>set grades.
        findPrice (JArr [premium_record, hi_premium_record, gasoline91_record]) kws = Inr (grade cp) \<and>
        ((\<forall>k\<in>set kws. \<forall>p\<in>set [premium_record, hi_premium_record, gasoline91_record].
            matches p k = Inr False) \<longrightarrow>
         grade cp = \<lparr>price = Fin 0, change = Fin 0\<rparr>)"
    by blast
  have g1: "(gasoline91_keywords, gasoline91) \<in> set grades" by (simp add: grades_def)
  have g2: "(e85_keywords, e85) \<in> set grades" by (simp add: grades_def)
  have a: "gasoline91 cp = \<lparr>price = Fin 0, change = Fin (1 / 2)\<rparr>"
    using cp(2) g1 sample_gasoline91 by fastforce
  have b: "e85 cp = \<lparr>price = Fin 0, change = Fin 0\<rparr>"
    using cp(2) g2 sample_no_e85 by fastforce
  show ?thesis using sample_data sample_well_formed cp(1) a b by blast
qed

text \<open>
  The claim as it was stated fails twice. A payload whose \<^verbatim>\<open>Data\<close> array holds \<^verbatim>\<open>null\<close>
  has the array and raises a TypeError. And a matched record whose \<^verbatim>\<open>Today\<close> does not
  parse while its \<^verbatim>\<open>Diff\<close> is 0.5 gives the quote \<^verbatim>\<open>{price: 0, change: 0.5}\<close>.
\<close>

theorem transform_raises_on_null_record:
  "get_prop null_record_payload ''Data'' = Inr (Some (JArr [JNull])) \<and>
   transformBangchakData 0 null_record_payload = Inl TypeError \<and>
   parseFloat (Some (JStr ''N/A'')) = NaN \<and>
   map_sum id gasoline91 (transformBangchakData 0 sample_payload)
     = Inr \<lparr>price = Fin 0, change = Fin (1 / 2)\<rparr>"
proof -
  have wf: "\<forall>p\<in>set [premium_record, hi_premium_record, gasoline91_record]. well_formed_record p"
    using sample_well_formed by simp
  obtain cp where cp: "transformBangchakData 0 sample_payload = Inr cp"
    "\<forall>(kws, grade)\<in>set grades.
        findPrice (JArr [premium_record, hi_premium_record, gasoline91_record]) kws = Inr (grade cp)"
    using transform_on_well_formed[OF sample_data wf] by blast
  have g1: "(gasoline91_keywords, gasoline91) \<in> set grades" by (simp add: grades_def)
  have "gasoline91 cp = \<lparr>price = Fin 0, change = Fin (1 / 2)\<rparr>"
    using cp(2) g1 sample_gasoline91 by fastforce
  then have "map_sum id gasoline91 (transformBangchakData 0 sample_payload)
     = Inr \<lparr>price = Fin 0, change = Fin (1 / 2)\<rparr>"
    by (simp add: cp(1))
  moreover have "get_prop null_record_payload ''Data'' = Inr (Some (JArr [JNull]))"
    by (simp add: null_record_payload_def)
  ultimately show ?thesis using null_record_raises unparseable_text by simp
qed

end
